(* ===== verification/Prelude.thy ===== *)
theory Prelude
  imports Main "HOL-Library.Sublist"
begin

text \<open>
  Shared vocabulary of the development: the Go notions the sources use (errors as
  values, 64-bit \<open>int\<close>, slices whose bounds are checked at run time, ranging over a
  map in an unspecified order, \<open>strings\<close> and \<open>strconv\<close> functions, \<open>time.Time\<close>) and
  the generic lemmas about lists and maps that the component theories use.

  Go strings are byte sequences, so they are \<^typ>\<open>string\<close> (a \<^typ>\<open>char\<close> is a byte).
  A call that can panic returns an \<^typ>\<open>'a option\<close> whose \<^term>\<open>None\<close> is the panic.
\<close>

section \<open>Named collections\<close>

named_theorems op_defs "definitions of the operations of the stores"
named_theorems svc_defs "definitions of the operations of the services"
named_theorems inv_preserved "every operation keeps the invariant of its component"


section \<open>Errors\<close>

text \<open>
  One constructor for each sentinel error variable of the packages, since the code compares
  them by identity. \<open>Errorf\<close> is an error made on the spot (\<open>errors.New\<close> inside a
  function, \<open>fmt.Errorf\<close>), which no code compares with anything. \<open>ErrJSON\<close> stands for the
  errors of \<open>encoding/json\<close>; their texts are only ever logged and not modelled.
\<close>

datatype error =
    ErrUserNotFound
  | ErrUserAlreadyExists
  | ErrOrgNotFound
  | ErrOrgAlreadyExists
  | ErrGroupNotFound
  | ErrMemberNotFound
  | ErrMemberExists
  | ErrInvalidCredentials
  | ErrUserDisabled
  | EOF
  | ErrUnexpectedEOF
  | ErrTooLong
  | ErrJSON
  | Errorf string

type_synonym 'a result = "error + 'a"

text \<open>The text of an error, \<open>err.Error()\<close>.\<close>

fun error_text :: "error \<Rightarrow> string" where
  "error_text ErrUserNotFound = ''user not found''"
| "error_text ErrUserAlreadyExists = ''user already exists''"
| "error_text ErrOrgNotFound = ''organization not found''"
| "error_text ErrOrgAlreadyExists = ''organization already exists''"
| "error_text ErrGroupNotFound = ''group not found''"
| "error_text ErrMemberNotFound = ''member not found''"
| "error_text ErrMemberExists = ''member already exists''"
| "error_text ErrInvalidCredentials = ''invalid credentials''"
| "error_text ErrUserDisabled = ''user is disabled''"
| "error_text EOF = ''EOF''"
| "error_text ErrUnexpectedEOF = ''unexpected EOF''"
| "error_text ErrTooLong = ''bufio.Scanner: token too long''"
| "error_text ErrJSON = ''invalid JSON''"
| "error_text (Errorf msg) = msg"

fun is_ok :: "'a result \<Rightarrow> bool" where
  "is_ok (Inl e) = False"
| "is_ok (Inr x) = True"

lemma is_ok_iff: "is_ok r \<longleftrightarrow> (\<exists>x. r = Inr x)"
  by (cases r) auto

lemma not_is_ok_iff: "\<not> is_ok r \<longleftrightarrow> (\<exists>e. r = Inl e)"
  by (cases r) auto


section \<open>Time\<close>

text \<open>
  A \<open>time.Time\<close> is the number of nanoseconds since the Unix epoch; the zero value of the
  type is the first of January of the year 1. The clock is read by \<open>time.Now()\<close>, so a
  function of the source that reads it takes the reading as an argument.
\<close>

type_synonym time = int

definition zero_time :: time where
  "zero_time = - 62135596800 * 1000000000"

definition time_Second :: int where
  "time_Second = 1000000000"

definition time_Hour :: int where
  "time_Hour = 3600 * time_Second"

text \<open>\<open>t.Unix()\<close>: whole seconds, rounded down.\<close>

definition time_Unix :: "time \<Rightarrow> int" where
  "time_Unix t = t div time_Second"

lemma time_Unix_mono: "s \<le> t \<Longrightarrow> time_Unix s \<le> time_Unix t"
  by (simp add: time_Unix_def time_Second_def zdiv_mono1)


section \<open>64-bit integers\<close>

text \<open>Go's \<open>int\<close> and \<open>int64\<close> are 64 bits wide here; their addition wraps around.\<close>

definition int64 :: "int \<Rightarrow> bool" where
  "int64 x \<longleftrightarrow> - (2 ^ 63) \<le> x \<and> x < 2 ^ 63"

definition wrap64 :: "int \<Rightarrow> int" where
  "wrap64 x = (x + 2 ^ 63) mod 2 ^ 64 - 2 ^ 63"

lemma int64_wrap64 [simp]: "int64 (wrap64 x)"
proof -
  have "0 \<le> (x + 2 ^ 63) mod 2 ^ 64" and "(x + 2 ^ 63) mod 2 ^ 64 < 2 ^ 64"
    by (auto intro: pos_mod_sign pos_mod_bound)
  then show ?thesis by (simp add: int64_def wrap64_def)
qed

lemma wrap64_id: "int64 x \<Longrightarrow> wrap64 x = x"
  by (simp add: int64_def wrap64_def)

lemma wrap64_over:
  assumes "2 ^ 63 \<le> x" and "x < 2 ^ 64"
  shows "wrap64 x = x - 2 ^ 64"
proof -
  have "(x + 2 ^ 63) mod 2 ^ 64 = (x + 2 ^ 63 - 2 ^ 64) mod 2 ^ 64"
    by (rule minus_mod_self2 [symmetric])
  also have "\<dots> = x + 2 ^ 63 - 2 ^ 64"
    using assms by (intro mod_pos_pos_trivial) simp_all
  finally show ?thesis by (simp add: wrap64_def)
qed


section \<open>Slices and paging\<close>

text \<open>
  The slice expression \<open>xs[lo:hi]\<close>, which panics unless \<open>0 \<le> lo \<le> hi \<le> cap\<close>. The
  code slices only with \<open>hi\<close> cut down to the length, so the length stands for the capacity.
\<close>

definition go_slice :: "'a list \<Rightarrow> int \<Rightarrow> int \<Rightarrow> 'a list option" where
  "go_slice xs lo hi =
     (if 0 \<le> lo \<and> lo \<le> hi \<and> hi \<le> int (length xs)
      then Some (take (nat (hi - lo)) (drop (nat lo) xs)) else None)"

text \<open>
  The tail of every \<open>List\<close> and \<open>Search\<close> method: the total, and the page that starts at
  \<open>offset\<close> and has at most \<open>limit\<close> entries.
\<close>

definition paginate :: "int \<Rightarrow> int \<Rightarrow> 'a list \<Rightarrow> ('a list \<times> int) option" where
  "paginate offset limit all =
     (let total = int (length all) in
      if offset \<ge> total then Some ([], total)
      else let end' = wrap64 (offset + limit);
               end'' = (if end' > total then total else end')
           in map_option (\<lambda>page. (page, total)) (go_slice all offset end''))"

text \<open>A request for a page that starts at a natural number panics never.\<close>

lemma paginate_Some:
  assumes "0 \<le> offset" and "0 \<le> limit" and "offset + limit < 2 ^ 63"
  shows "paginate offset limit all =
           Some (take (nat limit) (drop (nat offset) all), int (length all))"
proof (cases "offset \<ge> int (length all)")
  case True
  then have "drop (nat offset) all = []" by simp
  with True show ?thesis by (simp add: paginate_def)
next
  case False
  from assms have "int64 (offset + limit)" by (simp add: int64_def)
  then have w: "wrap64 (offset + limit) = offset + limit" by (rule wrap64_id)
  show ?thesis
  proof (cases "offset + limit > int (length all)")
    case True
    then have "take (nat limit) (drop (nat offset) all) = drop (nat offset) all"
      by simp
    moreover have "take (nat (int (length all) - offset)) (drop (nat offset) all) = drop (nat offset) all"
      using assms False by simp
    ultimately show ?thesis
      using assms False True w by (simp add: paginate_def go_slice_def Let_def)
  next
    case False': False
    with assms False w show ?thesis by (simp add: paginate_def go_slice_def Let_def)
  qed
qed

text \<open>A request for a page that starts before the first entry always panics.\<close>

lemma paginate_negative: "offset < 0 \<Longrightarrow> paginate offset limit all = None"
  by (simp add: paginate_def go_slice_def Let_def)

lemma paginate_total: "paginate offset limit all = Some (page, n) \<Longrightarrow> n = int (length all)"
  by (auto simp: paginate_def Let_def split: if_splits)

lemma paginate_subset:
  "paginate offset limit all = Some (page, n) \<Longrightarrow> set page \<subseteq> set all"
  by (auto simp: paginate_def go_slice_def Let_def split: if_splits
      dest!: in_set_takeD in_set_dropD)

text \<open>
  Consecutive pages of one and the same listing put it together again: \<open>k\<close> pages of
  \<open>n\<close> entries are its first \<open>k * n\<close> entries.
\<close>

lemma concat_pages:
  "concat (map (\<lambda>i. take n (drop (i * n) xs)) [0..<k]) = take (k * n) xs"
proof (induction k)
  case (Suc k)
  then show ?case by (simp add: take_add [symmetric] add.commute [of n])
qed simp


section \<open>Ranging over a map\<close>

text \<open>
  A Go \<open>map\<close> or \<open>sync.Map\<close> is a partial function. \<open>range\<close> visits every key once, in an
  order that the language leaves open and that may differ from one loop to the next, so
  every function with such a loop takes the order of that loop as an argument, and
  \<open>iter_order\<close> says that it is one the language allows.
\<close>

definition iter_order :: "'k list \<Rightarrow> ('k \<rightharpoonup> 'v) \<Rightarrow> bool" where
  "iter_order ks m \<longleftrightarrow> distinct ks \<and> set ks = dom m"

definition range_values :: "'k list \<Rightarrow> ('k \<rightharpoonup> 'v) \<Rightarrow> 'v list" where
  "range_values ks m = List.map_filter m ks"

lemma range_values_Nil [simp]: "range_values [] m = []"
  by (simp add: range_values_def)

lemma range_values_Cons [simp]:
  "range_values (k # ks) m = (case m k of None \<Rightarrow> range_values ks m | Some v \<Rightarrow> v # range_values ks m)"
  by (simp add: range_values_def split: option.split)

lemma set_range_values: "iter_order ks m \<Longrightarrow> set (range_values ks m) = ran m"
  by (force simp: iter_order_def range_values_def List.map_filter_def ran_def dom_def image_def)

lemma in_range_values: "v \<in> set (range_values ks m) \<Longrightarrow> \<exists>k. m k = Some v"
  by (induction ks) (auto split: option.splits)

text \<open>Counting the entries that satisfy a predicate does not depend on the order.\<close>

lemma length_filter_range_values:
  assumes "distinct ks"
  shows "length (filter P (range_values ks m)) = card {k \<in> set ks. \<exists>v. m k = Some v \<and> P v}"
  using assms
proof (induction ks)
  case (Cons k ks)
  show ?case
  proof (cases "\<exists>v. m k = Some v \<and> P v")
    case True
    then have "{j \<in> set (k # ks). \<exists>v. m j = Some v \<and> P v} =
               insert k {j \<in> set ks. \<exists>v. m j = Some v \<and> P v}"
      by auto
    with True Cons show ?thesis by auto
  next
    case False
    then have "{j \<in> set (k # ks). \<exists>v. m j = Some v \<and> P v} =
               {j \<in> set ks. \<exists>v. m j = Some v \<and> P v}"
      by auto
    with False Cons show ?thesis by (auto split: option.split)
  qed
qed simp

lemma count_range_values:
  assumes "iter_order ks m"
  shows "length (filter P (range_values ks m)) = card {k. \<exists>v. m k = Some v \<and> P v}"
proof -
  have "{k \<in> set ks. \<exists>v. m k = Some v \<and> P v} = {k. \<exists>v. m k = Some v \<and> P v}"
    using assms by (auto simp: iter_order_def)
  then show ?thesis
    using assms length_filter_range_values [of ks P m] by (simp add: iter_order_def)
qed

lemma length_range_values: "iter_order ks m \<Longrightarrow> length (range_values ks m) = card (dom m)"
  using count_range_values [of ks m "\<lambda>_. True"] by (simp add: dom_def)

text \<open>Two loops over the same map see the same values, up to their order.\<close>

lemma distinct_map_range_values:
  assumes "distinct ks" and "\<And>k v. m k = Some v \<Longrightarrow> f v = k"
  shows "distinct (map f (range_values ks m))"
  using assms(1)
proof (induction ks)
  case (Cons k ks)
  have "f v \<in> set ks" if "v \<in> set (range_values ks m)" for v
    using that by (induction ks) (auto split: option.splits simp: assms(2))
  with Cons show ?case by (auto split: option.split simp: assms(2))
qed simp


section \<open>Maps with slices as values\<close>

text \<open>Reading a key that is absent from a \<open>map[string][]T\<close> gives the nil slice.\<close>

definition slice_at :: "('k \<rightharpoonup> 'v list) \<Rightarrow> 'k \<Rightarrow> 'v list" where
  "slice_at m k = (case m k of None \<Rightarrow> [] | Some xs \<Rightarrow> xs)"

lemma slice_at_upd [simp]: "slice_at (m(k \<mapsto> xs)) j = (if j = k then xs else slice_at m j)"
  by (simp add: slice_at_def)

lemma slice_at_del [simp]: "slice_at (m(k := None)) j = (if j = k then [] else slice_at m j)"
  by (simp add: slice_at_def)

lemma slice_at_empty [simp]: "slice_at (\<lambda>_. None) k = []"
  by (simp add: slice_at_def)


section \<open>The packages strings and strconv\<close>

text \<open>\<open>strings.Contains\<close>: a contiguous substring.\<close>

fun str_Contains :: "string \<Rightarrow> string \<Rightarrow> bool" where
  "str_Contains s sub = (prefix sub s \<or> (case s of [] \<Rightarrow> False | _ # t \<Rightarrow> str_Contains t sub))"

declare str_Contains.simps [simp del]

lemma str_Contains_sublist: "str_Contains s sub \<longleftrightarrow> sublist sub s"
proof (induction s)
  case Nil
  then show ?case by (subst str_Contains.simps) simp
next
  case (Cons c s)
  then show ?case by (subst str_Contains.simps) (simp add: sublist_Cons_right)
qed

lemma str_Contains_empty [simp]: "str_Contains s []"
  by (simp add: str_Contains_sublist)

text \<open>
  \<open>strings.ToLower\<close> on bytes below 128. Its Unicode tables are not modelled: the functions
  that call it take it as an argument, and this one is what it does on ASCII text.
\<close>

definition lower_byte :: "char \<Rightarrow> char" where
  "lower_byte c = (if of_char c \<ge> (65::nat) \<and> of_char c \<le> (90::nat)
                   then char_of (of_char c + (32::nat)) else c)"

definition ascii_ToLower :: "string \<Rightarrow> string" where
  "ascii_ToLower s = map lower_byte s"

text \<open>
  \<open>strconv.Atoi\<close> with its error dropped, as every caller does: an optional sign and at
  least one digit, and nothing else, or the result is 0; a number out of range gives the
  nearest end of the 64-bit range.
\<close>

definition is_digit :: "char \<Rightarrow> bool" where
  "is_digit c \<longleftrightarrow> (48::nat) \<le> of_char c \<and> of_char c \<le> (57::nat)"

definition digit_value :: "char \<Rightarrow> int" where
  "digit_value c = of_char c - 48"

definition digits_value :: "string \<Rightarrow> int" where
  "digits_value s = foldl (\<lambda>acc c. 10 * acc + digit_value c) 0 s"

definition clamp64 :: "int \<Rightarrow> int" where
  "clamp64 x = max (- (2 ^ 63)) (min (2 ^ 63 - 1) x)"

definition strconv_ParseInt :: "string \<Rightarrow> int option" where
  "strconv_ParseInt s =
     (let (neg, ds) = (case s of
            [] \<Rightarrow> (False, [])
          | c # t \<Rightarrow> (if c = CHR ''-'' then (True, t)
                      else if c = CHR ''+'' then (False, t) else (False, s)))
      in if ds = [] \<or> \<not> list_all is_digit ds then None
         else Some (if neg then - digits_value ds else digits_value ds))"

definition strconv_Atoi :: "string \<Rightarrow> int" where
  "strconv_Atoi s = (case strconv_ParseInt s of None \<Rightarrow> 0 | Some n \<Rightarrow> clamp64 n)"

lemma int64_clamp64 [simp]: "int64 (clamp64 x)"
  by (simp add: int64_def clamp64_def)

lemma int64_Atoi [simp]: "int64 (strconv_Atoi s)"
  by (simp add: strconv_Atoi_def split: option.split) (simp add: int64_def)

end
