(* ===== verification/Model.thy ===== *)
theory Model
  imports Prelude
begin

text \<open>
  The entities and requests of \<open>internal/model/models.go\<close>, one record per struct with
  the fields in the order of the source. A field \<open>F\<close> of the struct \<open>T\<close> is named with a
  short prefix for \<open>T\<close>, because Isabelle's field names are global. The enumerations of the
  source are string types whose values nothing checks, so they stay strings here.
\<close>

section \<open>Entities\<close>

type_synonym UserStatus = string

definition UserStatusActive :: UserStatus where
  "UserStatusActive = ''active''"

definition UserStatusDisabled :: UserStatus where
  "UserStatusDisabled = ''disabled''"

definition UserStatusDeleted :: UserStatus where
  "UserStatusDeleted = ''deleted''"

lemmas status_defs = UserStatusActive_def UserStatusDisabled_def UserStatusDeleted_def

lemma status_distinct [simp]:
  "UserStatusActive \<noteq> UserStatusDeleted" "UserStatusDeleted \<noteq> UserStatusActive"
  "UserStatusActive \<noteq> UserStatusDisabled" "UserStatusDisabled \<noteq> UserStatusActive"
  "UserStatusDisabled \<noteq> UserStatusDeleted" "UserStatusDeleted \<noteq> UserStatusDisabled"
  "UserStatusActive \<noteq> []" "UserStatusDisabled \<noteq> []" "UserStatusDeleted \<noteq> []"
  by (simp_all add: status_defs)

record User =
  u_ID :: string
  u_Username :: string
  u_Email :: string
  u_PasswordHash :: string
  u_DisplayName :: string
  u_Status :: UserStatus
  u_IsOnline :: bool
  u_ExternalID :: string
  u_SourceSystem :: string
  u_CreatedAt :: time
  u_UpdatedAt :: time

text \<open>A composite literal leaves the fields it does not name at their zero value.\<close>

definition zero_User :: User where
  "zero_User = \<lparr>u_ID = [], u_Username = [], u_Email = [], u_PasswordHash = [],
     u_DisplayName = [], u_Status = [], u_IsOnline = False, u_ExternalID = [],
     u_SourceSystem = [], u_CreatedAt = zero_time, u_UpdatedAt = zero_time\<rparr>"

record Organization =
  o_ID :: string
  o_Name :: string
  o_ParentID :: string
  o_Path :: string
  o_ExternalID :: string
  o_SourceSystem :: string
  o_CreatedAt :: time
  o_UpdatedAt :: time

definition zero_Organization :: Organization where
  "zero_Organization = \<lparr>o_ID = [], o_Name = [], o_ParentID = [], o_Path = [],
     o_ExternalID = [], o_SourceSystem = [], o_CreatedAt = zero_time, o_UpdatedAt = zero_time\<rparr>"

record Group =
  g_ID :: string
  g_Name :: string
  g_Description :: string
  g_Type :: string
  g_CreatedAt :: time
  g_UpdatedAt :: time

definition zero_Group :: Group where
  "zero_Group = \<lparr>g_ID = [], g_Name = [], g_Description = [], g_Type = [],
     g_CreatedAt = zero_time, g_UpdatedAt = zero_time\<rparr>"

record UserOrgRelation =
  r_UserID :: string
  r_OrgID :: string
  r_Role :: string
  r_IsPrimary :: bool

record GroupMember =
  m_GroupID :: string
  m_UserID :: string
  m_Role :: string
  m_JoinedAt :: time

type_synonym SyncJobStatus = string

definition SyncJobStatusPending :: SyncJobStatus where
  "SyncJobStatusPending = ''pending''"

definition SyncJobStatusRunning :: SyncJobStatus where
  "SyncJobStatusRunning = ''running''"

definition SyncJobStatusDone :: SyncJobStatus where
  "SyncJobStatusDone = ''done''"

definition SyncJobStatusFailed :: SyncJobStatus where
  "SyncJobStatusFailed = ''failed''"

definition SyncJobStatusCanceled :: SyncJobStatus where
  "SyncJobStatusCanceled = ''canceled''"

type_synonym SyncType = string

definition SyncTypeFull :: SyncType where
  "SyncTypeFull = ''full''"

definition SyncTypeIncremental :: SyncType where
  "SyncTypeIncremental = ''incremental''"

record SyncJob =
  j_ID :: string
  j_SourceSystem :: string
  j_SyncType :: SyncType
  j_Status :: SyncJobStatus
  j_StartedAt :: "time option"
  j_FinishedAt :: "time option"
  j_ErrorMessage :: string
  j_CreatedAt :: time
  j_UpdatedAt :: time

text \<open>The zero values of a literal make the derived lookups below compute.\<close>

lemma zero_User_simps [simp]:
  "u_ID zero_User = []" "u_Username zero_User = []" "u_Email zero_User = []"
  "u_PasswordHash zero_User = []" "u_DisplayName zero_User = []" "u_Status zero_User = []"
  "\<not> u_IsOnline zero_User" "u_ExternalID zero_User = []" "u_SourceSystem zero_User = []"
  "u_CreatedAt zero_User = zero_time" "u_UpdatedAt zero_User = zero_time"
  by (simp_all add: zero_User_def)

lemma zero_Organization_simps [simp]:
  "o_ID zero_Organization = []" "o_Name zero_Organization = []"
  "o_ParentID zero_Organization = []" "o_Path zero_Organization = []"
  "o_ExternalID zero_Organization = []" "o_SourceSystem zero_Organization = []"
  "o_CreatedAt zero_Organization = zero_time" "o_UpdatedAt zero_Organization = zero_time"
  by (simp_all add: zero_Organization_def)

lemma zero_Group_simps [simp]:
  "g_ID zero_Group = []" "g_Name zero_Group = []" "g_Description zero_Group = []"
  "g_Type zero_Group = []" "g_CreatedAt zero_Group = zero_time" "g_UpdatedAt zero_Group = zero_time"
  by (simp_all add: zero_Group_def)


section \<open>Requests and responses\<close>

record SyncLog =
  l_ID :: string
  l_JobID :: string
  l_Operation :: string
  l_EntityType :: string
  l_EntityID :: string
  l_BeforeData :: string
  l_AfterData :: string
  l_Status :: string
  l_CreatedAt :: time

record CreateUserRequest =
  cu_Username :: string
  cu_Email :: string
  cu_Password :: string
  cu_DisplayName :: string

record UpdateUserRequest =
  uu_Email :: string
  uu_DisplayName :: string
  uu_Status :: UserStatus

record LoginRequest =
  lg_Username :: string
  lg_Password :: string

record LoginResponse =
  lr_Token :: string
  lr_Expires :: int
  lr_User :: User

record CreateSyncJobRequest =
  cj_SourceSystem :: string
  cj_SyncType :: SyncType

record CreateOrgRequest =
  co_Name :: string
  co_ParentID :: string
  co_ExternalID :: string
  co_SourceSystem :: string

record UpdateOrgRequest =
  uo_Name :: string
  uo_ParentID :: string

record AddOrgMemberRequest =
  ao_UserID :: string
  ao_Role :: string
  ao_IsPrimary :: bool

text \<open>The two detail structs embed a relation and add four fields of the user.\<close>

record OrgMemberDetail = UserOrgRelation +
  od_Username :: string
  od_Email :: string
  od_DisplayName :: string
  od_Status :: UserStatus

record CreateGroupRequest =
  cg_Name :: string
  cg_Description :: string
  cg_Type :: string

record UpdateGroupRequest =
  ug_Name :: string
  ug_Description :: string
  ug_Type :: string

record AddGroupMemberRequest =
  ag_UserID :: string
  ag_Role :: string

record GroupMemberDetail = GroupMember +
  gd_Username :: string
  gd_Email :: string
  gd_DisplayName :: string
  gd_Status :: UserStatus

end
