(* ===== verification/User_Store.thy ===== *)
theory User_Store
  imports Model
begin

text \<open>
  The package \<open>internal/user\<close>: the interfaces \<open>Store\<close> and \<open>SyncJobStore\<close>, as records of
  the operations an implementation provides, and the in-memory implementations
  \<open>MemoryStore\<close> and \<open>MemorySyncJobStore\<close>. \<open>MemoryStore\<close> keeps three maps: the users by id
  and two indexes, by user name and by e-mail address. The invariant \<open>store_inv\<close> says that
  the indexes mirror the users. Over it the store behaves as one table with two unique
  columns and soft deletion: the \<open>tbl_\<close> functions say what that means, the locale
  \<open>user_store_contract\<close> is the promise the services rely on, and its interpretation
  \<open>mem\<close> discharges the promise for \<open>MemoryStore\<close>. Each operation here runs alone; what
  interleaved operations do is the subject of \<open>User_Store_Races\<close>.
\<close>

section \<open>The interfaces\<close>

text \<open>
  \<open>Create\<close> writes the time stamps and the default status into the struct it is given, so
  its result carries that struct. The last argument is the state of the store; operations
  that only read return no state. \<open>List\<close> and \<open>Search\<close> take the order of their loop.
\<close>

record 's user_Store =
  us_Create :: "time \<Rightarrow> User \<Rightarrow> 's \<Rightarrow> User result \<times> 's"
  us_GetByID :: "string \<Rightarrow> 's \<Rightarrow> User result"
  us_GetByUsername :: "string \<Rightarrow> 's \<Rightarrow> User result"
  us_GetByEmail :: "string \<Rightarrow> 's \<Rightarrow> User result"
  us_Update :: "time \<Rightarrow> User \<Rightarrow> 's \<Rightarrow> unit result \<times> 's"
  us_Delete :: "time \<Rightarrow> string \<Rightarrow> 's \<Rightarrow> unit result \<times> 's"
  us_List :: "string list \<Rightarrow> int \<Rightarrow> int \<Rightarrow> 's \<Rightarrow> (User list \<times> int) result option"
  us_Search :: "string list \<Rightarrow> string \<Rightarrow> int \<Rightarrow> int \<Rightarrow> 's \<Rightarrow> (User list \<times> int) result option"

record 'j SyncJobStore =
  sj_Create :: "time \<Rightarrow> SyncJob \<Rightarrow> 'j \<Rightarrow> SyncJob result \<times> 'j"
  sj_GetByID :: "string \<Rightarrow> 'j \<Rightarrow> SyncJob result"
  sj_Update :: "time \<Rightarrow> SyncJob \<Rightarrow> 'j \<Rightarrow> unit result \<times> 'j"
  sj_List :: "string list \<Rightarrow> int \<Rightarrow> int \<Rightarrow> 'j \<Rightarrow> (SyncJob list \<times> int) result option"


section \<open>MemoryStore\<close>

record MemoryStore =
  ms_users :: "string \<rightharpoonup> User"
  ms_byUsername :: "string \<rightharpoonup> string"
  ms_byEmail :: "string \<rightharpoonup> string"

definition NewMemoryStore :: MemoryStore where
  "NewMemoryStore = \<lparr>ms_users = Map.empty, ms_byUsername = Map.empty, ms_byEmail = Map.empty\<rparr>"

text \<open>\<open>sync.Map.LoadOrStore\<close>: the value now under the key, whether it was there, the new map.\<close>

definition LoadOrStore :: "'k \<Rightarrow> 'v \<Rightarrow> ('k \<rightharpoonup> 'v) \<Rightarrow> ('v \<times> bool) \<times> ('k \<rightharpoonup> 'v)" where
  "LoadOrStore k v m = (case m k of Some w \<Rightarrow> ((w, True), m) | None \<Rightarrow> ((v, False), m(k \<mapsto> v)))"

text \<open>What \<open>Create\<close> writes into the struct it is given before it stores a copy.\<close>

definition stamp_new_user :: "time \<Rightarrow> User \<Rightarrow> User" where
  "stamp_new_user now user =
     (let user = user\<lparr>u_CreatedAt := now, u_UpdatedAt := now\<rparr>
      in if u_Status user = [] then user\<lparr>u_Status := UserStatusActive\<rparr> else user)"

definition MemoryStore_Create :: "time \<Rightarrow> User \<Rightarrow> MemoryStore \<Rightarrow> User result \<times> MemoryStore" where
  "MemoryStore_Create now user s =
     (let ((_, exists), byUsername) = LoadOrStore (u_Username user) (u_ID user) (ms_byUsername s);
          s = s\<lparr>ms_byUsername := byUsername\<rparr>
      in if exists then (Inl ErrUserAlreadyExists, s)
         else let ((_, exists), byEmail) = LoadOrStore (u_Email user) (u_ID user) (ms_byEmail s);
                  s = s\<lparr>ms_byEmail := byEmail\<rparr>
              in if exists
                 then (Inl ErrUserAlreadyExists,
                       s\<lparr>ms_byUsername := (ms_byUsername s)(u_Username user := None)\<rparr>)
                 else let user = stamp_new_user now user
                      in (Inr user, s\<lparr>ms_users := (ms_users s)(u_ID user \<mapsto> user)\<rparr>))"

definition MemoryStore_GetByID :: "string \<Rightarrow> MemoryStore \<Rightarrow> User result" where
  "MemoryStore_GetByID uid s =
     (case ms_users s uid of
        None \<Rightarrow> Inl ErrUserNotFound
      | Some u \<Rightarrow> if u_Status u = UserStatusDeleted then Inl ErrUserNotFound else Inr u)"

definition MemoryStore_GetByUsername :: "string \<Rightarrow> MemoryStore \<Rightarrow> User result" where
  "MemoryStore_GetByUsername username s =
     (case ms_byUsername s username of
        None \<Rightarrow> Inl ErrUserNotFound
      | Some uid \<Rightarrow> MemoryStore_GetByID uid s)"

definition MemoryStore_GetByEmail :: "string \<Rightarrow> MemoryStore \<Rightarrow> User result" where
  "MemoryStore_GetByEmail email s =
     (case ms_byEmail s email of
        None \<Rightarrow> Inl ErrUserNotFound
      | Some uid \<Rightarrow> MemoryStore_GetByID uid s)"

text \<open>
  The fields \<open>Update\<close> takes over from the given struct: an empty string means "unchanged",
  but the online flag is always taken over.
\<close>

definition merge_user :: "time \<Rightarrow> User \<Rightarrow> User \<Rightarrow> User" where
  "merge_user now user existing =
     (let updated = existing;
          updated = (if u_Email user \<noteq> [] \<and> u_Email user \<noteq> u_Email existing
                     then updated\<lparr>u_Email := u_Email user\<rparr> else updated);
          updated = (if u_DisplayName user \<noteq> []
                     then updated\<lparr>u_DisplayName := u_DisplayName user\<rparr> else updated);
          updated = (if u_Status user \<noteq> [] then updated\<lparr>u_Status := u_Status user\<rparr> else updated)
      in updated\<lparr>u_IsOnline := u_IsOnline user, u_UpdatedAt := now\<rparr>)"

definition MemoryStore_Update :: "time \<Rightarrow> User \<Rightarrow> MemoryStore \<Rightarrow> unit result \<times> MemoryStore" where
  "MemoryStore_Update now user s =
     (case ms_users s (u_ID user) of
        None \<Rightarrow> (Inl ErrUserNotFound, s)
      | Some existing \<Rightarrow>
          if u_Status existing = UserStatusDeleted then (Inl ErrUserNotFound, s)
          else if u_Email user \<noteq> [] \<and> u_Email user \<noteq> u_Email existing
          then let ((_, exists), byEmail) = LoadOrStore (u_Email user) (u_ID user) (ms_byEmail s);
                   s = s\<lparr>ms_byEmail := byEmail\<rparr>
               in if exists then (Inl ErrUserAlreadyExists, s)
                  else let s = s\<lparr>ms_byEmail := (ms_byEmail s)(u_Email existing := None)\<rparr>
                       in (Inr (), s\<lparr>ms_users := (ms_users s)(u_ID user \<mapsto> merge_user now user existing)\<rparr>)
          else (Inr (), s\<lparr>ms_users := (ms_users s)(u_ID user \<mapsto> merge_user now user existing)\<rparr>))"

definition MemoryStore_Delete :: "time \<Rightarrow> string \<Rightarrow> MemoryStore \<Rightarrow> unit result \<times> MemoryStore" where
  "MemoryStore_Delete now uid s =
     (case ms_users s uid of
        None \<Rightarrow> (Inl ErrUserNotFound, s)
      | Some u \<Rightarrow>
          if u_Status u = UserStatusDeleted then (Inl ErrUserNotFound, s)
          else (Inr (), s\<lparr>ms_users := (ms_users s)
                  (uid \<mapsto> u\<lparr>u_Status := UserStatusDeleted, u_UpdatedAt := now\<rparr>)\<rparr>))"

definition MemoryStore_List ::
  "string list \<Rightarrow> int \<Rightarrow> int \<Rightarrow> MemoryStore \<Rightarrow> (User list \<times> int) result option" where
  "MemoryStore_List ord offset limit s =
     (let all = filter (\<lambda>u. u_Status u \<noteq> UserStatusDeleted) (range_values ord (ms_users s))
      in map_option Inr (paginate offset limit all))"

definition user_matches :: "(string \<Rightarrow> string) \<Rightarrow> string \<Rightarrow> User \<Rightarrow> bool" where
  "user_matches ToLower query u \<longleftrightarrow>
     str_Contains (ToLower (u_Username u)) query \<or>
     str_Contains (ToLower (u_Email u)) query \<or>
     str_Contains (ToLower (u_DisplayName u)) query"

definition MemoryStore_Search ::
  "(string \<Rightarrow> string) \<Rightarrow> string list \<Rightarrow> string \<Rightarrow> int \<Rightarrow> int \<Rightarrow> MemoryStore
    \<Rightarrow> (User list \<times> int) result option" where
  "MemoryStore_Search ToLower ord query offset limit s =
     (let query = ToLower query;
          matched = filter (\<lambda>u. u_Status u \<noteq> UserStatusDeleted \<and> user_matches ToLower query u)
                      (range_values ord (ms_users s))
      in map_option Inr (paginate offset limit matched))"

text \<open>\<open>*MemoryStore\<close> as a value of the interface type; \<open>ToLower\<close> is \<open>strings.ToLower\<close>.\<close>

definition MemoryStore_Store :: "(string \<Rightarrow> string) \<Rightarrow> MemoryStore user_Store" where
  "MemoryStore_Store ToLower = \<lparr>
     us_Create = MemoryStore_Create,
     us_GetByID = MemoryStore_GetByID,
     us_GetByUsername = MemoryStore_GetByUsername,
     us_GetByEmail = MemoryStore_GetByEmail,
     us_Update = MemoryStore_Update,
     us_Delete = MemoryStore_Delete,
     us_List = MemoryStore_List,
     us_Search = MemoryStore_Search ToLower\<rparr>"

lemmas memory_store_defs [op_defs] =
  MemoryStore_Create_def MemoryStore_GetByID_def MemoryStore_GetByUsername_def
  MemoryStore_GetByEmail_def MemoryStore_Update_def MemoryStore_Delete_def
  MemoryStore_List_def MemoryStore_Search_def

lemma MemoryStore_Store_simps [simp]:
  "us_Create (MemoryStore_Store lower) = MemoryStore_Create"
  "us_GetByID (MemoryStore_Store lower) = MemoryStore_GetByID"
  "us_GetByUsername (MemoryStore_Store lower) = MemoryStore_GetByUsername"
  "us_GetByEmail (MemoryStore_Store lower) = MemoryStore_GetByEmail"
  "us_Update (MemoryStore_Store lower) = MemoryStore_Update"
  "us_Delete (MemoryStore_Store lower) = MemoryStore_Delete"
  "us_List (MemoryStore_Store lower) = MemoryStore_List"
  "us_Search (MemoryStore_Store lower) = MemoryStore_Search lower"
  by (simp_all add: MemoryStore_Store_def)


section \<open>MemorySyncJobStore\<close>

record MemorySyncJobStore =
  mj_jobs :: "string \<rightharpoonup> SyncJob"

definition NewMemorySyncJobStore :: MemorySyncJobStore where
  "NewMemorySyncJobStore = \<lparr>mj_jobs = Map.empty\<rparr>"

definition MemorySyncJobStore_Create ::
  "time \<Rightarrow> SyncJob \<Rightarrow> MemorySyncJobStore \<Rightarrow> SyncJob result \<times> MemorySyncJobStore" where
  "MemorySyncJobStore_Create now job s =
     (let job = job\<lparr>j_CreatedAt := now, j_UpdatedAt := now\<rparr>
      in (Inr job, s\<lparr>mj_jobs := (mj_jobs s)(j_ID job \<mapsto> job)\<rparr>))"

definition MemorySyncJobStore_GetByID :: "string \<Rightarrow> MemorySyncJobStore \<Rightarrow> SyncJob result" where
  "MemorySyncJobStore_GetByID uid s =
     (case mj_jobs s uid of
        None \<Rightarrow> Inl (Errorf ''sync job not found'')
      | Some j \<Rightarrow> Inr j)"

definition MemorySyncJobStore_Update ::
  "time \<Rightarrow> SyncJob \<Rightarrow> MemorySyncJobStore \<Rightarrow> unit result \<times> MemorySyncJobStore" where
  "MemorySyncJobStore_Update now job s =
     (case mj_jobs s (j_ID job) of
        None \<Rightarrow> (Inl (Errorf ''sync job not found''), s)
      | Some _ \<Rightarrow>
          let job = job\<lparr>j_UpdatedAt := now\<rparr>
          in (Inr (), s\<lparr>mj_jobs := (mj_jobs s)(j_ID job \<mapsto> job)\<rparr>))"

definition MemorySyncJobStore_List ::
  "string list \<Rightarrow> int \<Rightarrow> int \<Rightarrow> MemorySyncJobStore \<Rightarrow> (SyncJob list \<times> int) result option" where
  "MemorySyncJobStore_List ord offset limit s =
     map_option Inr (paginate offset limit (range_values ord (mj_jobs s)))"

definition MemorySyncJobStore_Store :: "MemorySyncJobStore SyncJobStore" where
  "MemorySyncJobStore_Store = \<lparr>
     sj_Create = MemorySyncJobStore_Create,
     sj_GetByID = MemorySyncJobStore_GetByID,
     sj_Update = MemorySyncJobStore_Update,
     sj_List = MemorySyncJobStore_List\<rparr>"

lemmas memory_sync_store_defs [op_defs] =
  MemorySyncJobStore_Create_def MemorySyncJobStore_GetByID_def
  MemorySyncJobStore_Update_def MemorySyncJobStore_List_def


section \<open>The abstract specification: one table of users\<close>

text \<open>
  What the store promises, over a table of users by id: user names and addresses are
  unique among all rows, soft-deleted rows are invisible but keep their name and address.
\<close>

type_synonym user_table = "string \<rightharpoonup> User"

definition live :: "User \<Rightarrow> bool" where
  "live u \<longleftrightarrow> u_Status u \<noteq> UserStatusDeleted"

definition tbl_ok :: "user_table \<Rightarrow> bool" where
  "tbl_ok t \<longleftrightarrow>
     (\<forall>i u. t i = Some u \<longrightarrow> u_ID u = i) \<and>
     (\<forall>i j u v. t i = Some u \<longrightarrow> t j = Some v \<longrightarrow> i \<noteq> j \<longrightarrow>
        u_Username u \<noteq> u_Username v \<and> u_Email u \<noteq> u_Email v)"

definition tbl_get :: "string \<Rightarrow> user_table \<Rightarrow> User result" where
  "tbl_get i t =
     (case t i of None \<Rightarrow> Inl ErrUserNotFound
      | Some u \<Rightarrow> if live u then Inr u else Inl ErrUserNotFound)"

definition tbl_create :: "time \<Rightarrow> User \<Rightarrow> user_table \<Rightarrow> User result \<times> user_table" where
  "tbl_create now u t =
     (if \<exists>v \<in> ran t. u_Username v = u_Username u \<or> u_Email v = u_Email u
      then (Inl ErrUserAlreadyExists, t)
      else (Inr (stamp_new_user now u), t(u_ID u \<mapsto> stamp_new_user now u)))"

definition tbl_update :: "time \<Rightarrow> User \<Rightarrow> user_table \<Rightarrow> unit result \<times> user_table" where
  "tbl_update now u t =
     (case tbl_get (u_ID u) t of
        Inl e \<Rightarrow> (Inl e, t)
      | Inr old \<Rightarrow>
          if u_Email u \<noteq> [] \<and> u_Email u \<noteq> u_Email old \<and> (\<exists>v \<in> ran t. u_Email v = u_Email u)
          then (Inl ErrUserAlreadyExists, t)
          else (Inr (), t(u_ID u \<mapsto> merge_user now u old)))"

definition tbl_delete :: "time \<Rightarrow> string \<Rightarrow> user_table \<Rightarrow> unit result \<times> user_table" where
  "tbl_delete now i t =
     (case tbl_get i t of
        Inl e \<Rightarrow> (Inl e, t)
      | Inr u \<Rightarrow> (Inr (), t(i \<mapsto> u\<lparr>u_Status := UserStatusDeleted, u_UpdatedAt := now\<rparr>)))"

lemma stamp_new_user_simps [simp]:
  "u_ID (stamp_new_user now u) = u_ID u"
  "u_Username (stamp_new_user now u) = u_Username u"
  "u_Email (stamp_new_user now u) = u_Email u"
  "u_PasswordHash (stamp_new_user now u) = u_PasswordHash u"
  "u_DisplayName (stamp_new_user now u) = u_DisplayName u"
  "u_IsOnline (stamp_new_user now u) = u_IsOnline u"
  "u_CreatedAt (stamp_new_user now u) = now"
  "u_UpdatedAt (stamp_new_user now u) = now"
  "u_Status (stamp_new_user now u) = (if u_Status u = [] then UserStatusActive else u_Status u)"
  by (simp_all add: stamp_new_user_def Let_def)

lemma merge_user_simps [simp]:
  "u_ID (merge_user now u old) = u_ID old"
  "u_Username (merge_user now u old) = u_Username old"
  "u_PasswordHash (merge_user now u old) = u_PasswordHash old"
  "u_CreatedAt (merge_user now u old) = u_CreatedAt old"
  "u_UpdatedAt (merge_user now u old) = now"
  "u_IsOnline (merge_user now u old) = u_IsOnline u"
  "u_Email (merge_user now u old) = (if u_Email u = [] then u_Email old else u_Email u)"
  "u_DisplayName (merge_user now u old) = (if u_DisplayName u = [] then u_DisplayName old else u_DisplayName u)"
  "u_Status (merge_user now u old) = (if u_Status u = [] then u_Status old else u_Status u)"
  by (auto simp: merge_user_def Let_def)

lemma tbl_okD:
  assumes "tbl_ok t"
  shows tbl_ok_id: "t i = Some u \<Longrightarrow> u_ID u = i"
    and tbl_ok_username: "t i = Some u \<Longrightarrow> t j = Some v \<Longrightarrow> u_Username u = u_Username v \<Longrightarrow> i = j"
    and tbl_ok_email: "t i = Some u \<Longrightarrow> t j = Some v \<Longrightarrow> u_Email u = u_Email v \<Longrightarrow> i = j"
  using assms unfolding tbl_ok_def by blast+

lemma tbl_get_Inr: "tbl_get i t = Inr u \<longleftrightarrow> t i = Some u \<and> live u"
  by (auto simp: tbl_get_def split: option.splits)

lemma tbl_get_Inl: "tbl_get i t = Inl e \<longleftrightarrow> e = ErrUserNotFound \<and> (\<forall>u. t i = Some u \<longrightarrow> \<not> live u)"
  by (auto simp: tbl_get_def split: option.splits)

text \<open>Writing one row keeps the table well formed when no other row has its name or address.\<close>

lemma tbl_ok_upd:
  assumes "tbl_ok t" and "u_ID u = i"
    and other: "\<And>j v. t j = Some v \<Longrightarrow> j \<noteq> i \<Longrightarrow> u_Username v \<noteq> u_Username u \<and> u_Email v \<noteq> u_Email u"
  shows "tbl_ok (t(i \<mapsto> u))"
proof -
  have "u_Username v \<noteq> u_Username w \<and> u_Email v \<noteq> u_Email w"
    if "(t(i \<mapsto> u)) j = Some v" and "(t(i \<mapsto> u)) k = Some w" and "j \<noteq> k" for j k v w
  proof (cases "j = i")
    case True
    with that have "u = v" and "t k = Some w" and "k \<noteq> i" by auto
    with other [of k w] show ?thesis by auto
  next
    case False
    then have j: "t j = Some v" using that(1) by simp
    show ?thesis
    proof (cases "k = i")
      case True
      with that(2) have "u = w" by simp
      with other [OF j False] show ?thesis by simp
    next
      case False
      then have "t k = Some w" using that(2) by simp
      with j that(3) assms(1) show ?thesis unfolding tbl_ok_def by blast
    qed
  qed
  moreover have "u_ID v = j" if "(t(i \<mapsto> u)) j = Some v" for j v
    using that assms(1,2) unfolding tbl_ok_def by (cases "j = i") auto
  ultimately show ?thesis unfolding tbl_ok_def by blast
qed

lemma tbl_ok_create: "tbl_ok t \<Longrightarrow> tbl_ok (snd (tbl_create now u t))"
  by (auto simp: tbl_create_def ran_def intro!: tbl_ok_upd)

lemma tbl_ok_modify:
  assumes ok: "tbl_ok t" and old: "t i = Some old" and "u_ID u = i"
    and name: "u_Username u = u_Username old"
    and mail: "u_Email u = u_Email old \<or> (\<forall>v \<in> ran t. u_Email v \<noteq> u_Email u)"
  shows "tbl_ok (t(i \<mapsto> u))"
proof (rule tbl_ok_upd [OF ok assms(3)])
  fix j v
  assume j: "t j = Some v" and "j \<noteq> i"
  then have "u_Username v \<noteq> u_Username old" and "u_Email v \<noteq> u_Email old"
    using ok old unfolding tbl_ok_def by blast+
  moreover have "v \<in> ran t" using j by (rule ranI)
  ultimately show "u_Username v \<noteq> u_Username u \<and> u_Email v \<noteq> u_Email u"
    using name mail by auto
qed

lemma tbl_ok_update:
  assumes "tbl_ok t"
  shows "tbl_ok (snd (tbl_update now u t))"
proof (cases "tbl_get (u_ID u) t")
  case (Inl e)
  with assms show ?thesis by (simp add: tbl_update_def)
next
  case (Inr old)
  then have "t (u_ID u) = Some old" and "u_ID old = u_ID u"
    using tbl_ok_id [OF assms] by (auto simp: tbl_get_Inr)
  then show ?thesis
    using assms Inr by (auto simp: tbl_update_def intro!: tbl_ok_modify split: if_splits)
qed

lemma tbl_ok_delete:
  assumes "tbl_ok t"
  shows "tbl_ok (snd (tbl_delete now i t))"
proof (cases "tbl_get i t")
  case (Inl e)
  with assms show ?thesis by (simp add: tbl_delete_def)
next
  case (Inr old)
  then have "t i = Some old" and "u_ID old = i"
    using tbl_ok_id [OF assms] by (auto simp: tbl_get_Inr)
  then show ?thesis
    using assms Inr by (auto simp: tbl_delete_def intro!: tbl_ok_modify)
qed


section \<open>MemoryStore refines the table\<close>

text \<open>The indexes of \<open>MemoryStore\<close> mirror its users.\<close>

definition store_inv :: "MemoryStore \<Rightarrow> bool" where
  "store_inv s \<longleftrightarrow>
     (\<forall>i u. ms_users s i = Some u \<longrightarrow> u_ID u = i) \<and>
     (\<forall>n i. ms_byUsername s n = Some i \<longleftrightarrow> (\<exists>u. ms_users s i = Some u \<and> u_Username u = n)) \<and>
     (\<forall>e i. ms_byEmail s e = Some i \<longleftrightarrow> (\<exists>u. ms_users s i = Some u \<and> u_Email u = e))"

lemma store_invD:
  assumes "store_inv s"
  shows store_inv_id: "ms_users s i = Some u \<Longrightarrow> u_ID u = i"
    and store_inv_username:
      "ms_byUsername s n = Some i \<longleftrightarrow> (\<exists>u. ms_users s i = Some u \<and> u_Username u = n)"
    and store_inv_email:
      "ms_byEmail s e = Some i \<longleftrightarrow> (\<exists>u. ms_users s i = Some u \<and> u_Email u = e)"
  using assms unfolding store_inv_def by blast+

lemma store_inv_NewMemoryStore [inv_preserved]: "store_inv NewMemoryStore"
  by (simp add: store_inv_def NewMemoryStore_def)

lemma store_inv_tbl_ok:
  assumes "store_inv s"
  shows "tbl_ok (ms_users s)"
proof -
  have "u_Username u \<noteq> u_Username v \<and> u_Email u \<noteq> u_Email v"
    if "ms_users s i = Some u" and "ms_users s j = Some v" and "i \<noteq> j" for i j u v
  proof -
    have "ms_byUsername s (u_Username u) = Some i" "ms_byUsername s (u_Username v) = Some j"
      "ms_byEmail s (u_Email u) = Some i" "ms_byEmail s (u_Email v) = Some j"
      using that by (auto simp: store_inv_username [OF assms] store_inv_email [OF assms])
    with that(3) show ?thesis by auto
  qed
  then show ?thesis using store_inv_id [OF assms] unfolding tbl_ok_def by blast
qed

lemma mirror_None:
  assumes "\<And>i. m n = Some i \<longleftrightarrow> (\<exists>u. t i = Some u \<and> f u = n)"
  shows "m n = None \<longleftrightarrow> (\<forall>u \<in> ran t. f u \<noteq> n)"
proof -
  have "m n = None \<longleftrightarrow> \<not> (\<exists>i. m n = Some i)" by simp
  also have "\<dots> \<longleftrightarrow> (\<forall>u \<in> ran t. f u \<noteq> n)" unfolding assms ran_def by blast
  finally show ?thesis .
qed

lemmas byUsername_None = mirror_None [OF store_inv_username]
lemmas byEmail_None = mirror_None [OF store_inv_email]

text \<open>
  The successful path of each writing operation, and that the failing paths leave the store
  as it was: a rejected \<open>Create\<close> takes its reservation of the user name back.
\<close>

lemma MemoryStore_Create_eq:
  "MemoryStore_Create now u s =
     (if ms_byUsername s (u_Username u) \<noteq> None \<or> ms_byEmail s (u_Email u) \<noteq> None
      then (Inl ErrUserAlreadyExists, s)
      else (Inr (stamp_new_user now u),
            s\<lparr>ms_users := (ms_users s)(u_ID u \<mapsto> stamp_new_user now u),
              ms_byUsername := (ms_byUsername s)(u_Username u \<mapsto> u_ID u),
              ms_byEmail := (ms_byEmail s)(u_Email u \<mapsto> u_ID u)\<rparr>))"
  by (cases s) (auto simp: MemoryStore_Create_def LoadOrStore_def Let_def fun_upd_idem
      split: option.splits)

lemma MemoryStore_Update_eq:
  "MemoryStore_Update now u s =
     (case tbl_get (u_ID u) (ms_users s) of
        Inl e \<Rightarrow> (Inl e, s)
      | Inr old \<Rightarrow>
          if u_Email u \<noteq> [] \<and> u_Email u \<noteq> u_Email old
          then if ms_byEmail s (u_Email u) \<noteq> None then (Inl ErrUserAlreadyExists, s)
               else (Inr (), s\<lparr>ms_users := (ms_users s)(u_ID u \<mapsto> merge_user now u old),
                       ms_byEmail := (ms_byEmail s)(u_Email u \<mapsto> u_ID u, u_Email old := None)\<rparr>)
          else (Inr (), s\<lparr>ms_users := (ms_users s)(u_ID u \<mapsto> merge_user now u old)\<rparr>))"
  by (cases s) (auto simp: MemoryStore_Update_def LoadOrStore_def Let_def tbl_get_def live_def
      split: option.splits)

lemma MemoryStore_Delete_eq:
  "MemoryStore_Delete now i s =
     (case tbl_get i (ms_users s) of
        Inl e \<Rightarrow> (Inl e, s)
      | Inr u \<Rightarrow> (Inr (), s\<lparr>ms_users := (ms_users s)
                   (i \<mapsto> u\<lparr>u_Status := UserStatusDeleted, u_UpdatedAt := now\<rparr>)\<rparr>))"
  by (simp add: MemoryStore_Delete_def tbl_get_def live_def split: option.splits)

lemma MemoryStore_GetByID_eq: "MemoryStore_GetByID i s = tbl_get i (ms_users s)"
  by (simp add: MemoryStore_GetByID_def tbl_get_def live_def split: option.splits)

lemma store_inv_add:
  assumes "store_inv s" and "ms_users s (u_ID u) = None"
    and "ms_byUsername s (u_Username u) = None" and "ms_byEmail s (u_Email u) = None"
    and "u_ID u' = u_ID u" "u_Username u' = u_Username u" "u_Email u' = u_Email u"
  shows "store_inv (s\<lparr>ms_users := (ms_users s)(u_ID u \<mapsto> u'),
           ms_byUsername := (ms_byUsername s)(u_Username u \<mapsto> u_ID u),
           ms_byEmail := (ms_byEmail s)(u_Email u \<mapsto> u_ID u)\<rparr>)"
  using assms unfolding store_inv_def by simp (metis option.distinct(1))

lemma store_inv_modify:
  assumes "store_inv s" and "ms_users s i = Some old"
    and "u_ID u = u_ID old" "u_Username u = u_Username old" "u_Email u = u_Email old"
  shows "store_inv (s\<lparr>ms_users := (ms_users s)(i \<mapsto> u)\<rparr>)"
  using assms unfolding store_inv_def by auto

lemma store_inv_rename:
  assumes "store_inv s" and "ms_users s i = Some old" and "ms_byEmail s (u_Email u) = None"
    and "u_ID u = u_ID old" "u_Username u = u_Username old"
  shows "store_inv (s\<lparr>ms_users := (ms_users s)(i \<mapsto> u),
           ms_byEmail := (ms_byEmail s)(u_Email u \<mapsto> i, u_Email old := None)\<rparr>)"
  using assms unfolding store_inv_def by auto (metis option.distinct(1) option.inject)+


text \<open>The functional refinement: on the table, each operation is the abstract one.\<close>

lemma MemoryStore_Create_refines:
  assumes "store_inv s" and "ms_users s (u_ID u) = None"
  shows "store_inv (snd (MemoryStore_Create now u s)) \<and>
         map_prod (\<lambda>r. r) ms_users (MemoryStore_Create now u s) = tbl_create now u (ms_users s)"
proof (cases "ms_byUsername s (u_Username u) = None \<and> ms_byEmail s (u_Email u) = None")
  case True
  then have "\<not> (\<exists>v \<in> ran (ms_users s). u_Username v = u_Username u \<or> u_Email v = u_Email u)"
    using byUsername_None [OF assms(1)] byEmail_None [OF assms(1)] by blast
  with True show ?thesis
    using store_inv_add [OF assms, of "stamp_new_user now u"]
    by (simp add: MemoryStore_Create_eq tbl_create_def)
next
  case False
  then have "\<exists>v \<in> ran (ms_users s). u_Username v = u_Username u \<or> u_Email v = u_Email u"
    using byUsername_None [OF assms(1)] byEmail_None [OF assms(1)] by blast
  with False assms show ?thesis by (auto simp: MemoryStore_Create_eq tbl_create_def)
qed

lemma MemoryStore_Update_refines:
  assumes "store_inv s"
  shows "store_inv (snd (MemoryStore_Update now u s)) \<and>
         map_prod (\<lambda>r. r) ms_users (MemoryStore_Update now u s) = tbl_update now u (ms_users s)"
proof (cases "tbl_get (u_ID u) (ms_users s)")
  case (Inl e)
  with assms show ?thesis by (simp add: MemoryStore_Update_eq tbl_update_def)
next
  case (Inr old)
  then have old: "ms_users s (u_ID u) = Some old" and "u_ID old = u_ID u"
    using store_inv_id [OF assms] by (auto simp: tbl_get_Inr)
  with assms Inr show ?thesis
    using store_inv_modify [OF assms old, of "merge_user now u old"]
      store_inv_rename [OF assms old, of "merge_user now u old"]
    by (auto simp: MemoryStore_Update_eq tbl_update_def byEmail_None [OF assms] split: if_splits)
qed

lemma MemoryStore_Delete_refines:
  assumes "store_inv s"
  shows "store_inv (snd (MemoryStore_Delete now i s)) \<and>
         map_prod (\<lambda>r. r) ms_users (MemoryStore_Delete now i s) = tbl_delete now i (ms_users s)"
proof (cases "tbl_get i (ms_users s)")
  case (Inr u)
  then have "ms_users s i = Some u" by (simp add: tbl_get_Inr)
  from store_inv_modify [OF assms this] Inr show ?thesis
    by (simp add: MemoryStore_Delete_eq tbl_delete_def)
qed (simp add: assms MemoryStore_Delete_eq tbl_delete_def)

lemma mirror_lookup:
  assumes mirror: "\<And>n i. m n = Some i \<longleftrightarrow> (\<exists>u. t i = Some u \<and> f u = n)"
  shows "(case m n of None \<Rightarrow> Inl e | Some i \<Rightarrow> tbl_get i t) = Inr u \<longleftrightarrow>
           (\<exists>i. t i = Some u \<and> f u = n \<and> live u)"
proof (cases "m n")
  case None
  then have "\<nexists>i. t i = Some u \<and> f u = n" using mirror [of n] by (metis option.distinct(1))
  with None show ?thesis by auto
next
  case (Some i)
  then obtain v where v: "t i = Some v" "f v = n" using mirror by blast
  have "j = i" if "t j = Some u" and "f u = n" for j
    using that Some mirror [of n j] by auto
  with v Some show ?thesis by (auto simp: tbl_get_Inr)
qed

lemma MemoryStore_GetByUsername_Inr:
  assumes "store_inv s"
  shows "MemoryStore_GetByUsername n s = Inr u \<longleftrightarrow>
           (\<exists>i. ms_users s i = Some u \<and> u_Username u = n \<and> live u)"
  unfolding MemoryStore_GetByUsername_def MemoryStore_GetByID_eq
  by (rule mirror_lookup [OF store_inv_username [OF assms]])

lemma MemoryStore_GetByEmail_Inr:
  assumes "store_inv s"
  shows "MemoryStore_GetByEmail e s = Inr u \<longleftrightarrow>
           (\<exists>i. ms_users s i = Some u \<and> u_Email u = e \<and> live u)"
  unfolding MemoryStore_GetByEmail_def MemoryStore_GetByID_eq
  by (rule mirror_lookup [OF store_inv_email [OF assms]])

lemma MemoryStore_lookup_Inl:
  "MemoryStore_GetByUsername n s = Inl err \<Longrightarrow> err = ErrUserNotFound"
  "MemoryStore_GetByEmail n s = Inl err \<Longrightarrow> err = ErrUserNotFound"
  by (auto simp: MemoryStore_GetByUsername_def MemoryStore_GetByEmail_def MemoryStore_GetByID_eq
      tbl_get_Inl split: option.splits)


section \<open>The contract of a user store\<close>

text \<open>
  What the services rely on: the operations of the interface act on a well-formed table of
  users. \<open>invar\<close> is the implementation's invariant and \<open>tbl\<close> reads its table.
\<close>

locale user_store_contract =
  fixes st :: "'s user_Store"
    and invar :: "'s \<Rightarrow> bool"
    and tbl :: "'s \<Rightarrow> user_table"
  assumes tbl_well_formed: "invar s \<Longrightarrow> tbl_ok (tbl s)"
    and get_by_id: "invar s \<Longrightarrow> us_GetByID st i s = tbl_get i (tbl s)"
    and get_by_username: "invar s \<Longrightarrow> us_GetByUsername st n s = Inr u \<longleftrightarrow>
           (\<exists>i. tbl s i = Some u \<and> u_Username u = n \<and> live u)"
    and get_by_username_err: "us_GetByUsername st n s = Inl err \<Longrightarrow> err = ErrUserNotFound"
    and get_by_email: "invar s \<Longrightarrow> us_GetByEmail st e s = Inr u \<longleftrightarrow>
           (\<exists>i. tbl s i = Some u \<and> u_Email u = e \<and> live u)"
    and get_by_email_err: "us_GetByEmail st e s = Inl err \<Longrightarrow> err = ErrUserNotFound"
    and create: "invar s \<Longrightarrow> tbl s (u_ID v) = None \<Longrightarrow>
           invar (snd (us_Create st now v s)) \<and>
           map_prod (\<lambda>r. r) tbl (us_Create st now v s) = tbl_create now v (tbl s)"
    and update: "invar s \<Longrightarrow>
           invar (snd (us_Update st now v s)) \<and>
           map_prod (\<lambda>r. r) tbl (us_Update st now v s) = tbl_update now v (tbl s)"
    and delete: "invar s \<Longrightarrow>
           invar (snd (us_Delete st now i s)) \<and>
           map_prod (\<lambda>r. r) tbl (us_Delete st now i s) = tbl_delete now i (tbl s)"
    and list: "invar s \<Longrightarrow> iter_order ord (tbl s) \<Longrightarrow> us_List st ord offset limit s =
           map_option Inr (paginate offset limit (filter live (range_values ord (tbl s))))"
begin

lemma fst_update: "invar s \<Longrightarrow> fst (us_Update st now v s) = fst (tbl_update now v (tbl s))"
  using update [of s now v] by (metis fst_map_prod)

lemma tbl_after_update: "invar s \<Longrightarrow> tbl (snd (us_Update st now v s)) = snd (tbl_update now v (tbl s))"
  using update [of s now v] by (metis snd_map_prod)

lemma fst_create: "invar s \<Longrightarrow> tbl s (u_ID v) = None \<Longrightarrow>
    fst (us_Create st now v s) = fst (tbl_create now v (tbl s))"
  using create [of s v now] by (metis fst_map_prod)

lemma tbl_after_create: "invar s \<Longrightarrow> tbl s (u_ID v) = None \<Longrightarrow>
    tbl (snd (us_Create st now v s)) = snd (tbl_create now v (tbl s))"
  using create [of s v now] by (metis snd_map_prod)

lemma fst_delete: "invar s \<Longrightarrow> fst (us_Delete st now i s) = fst (tbl_delete now i (tbl s))"
  using delete [of s now i] by (metis fst_map_prod)

lemma tbl_after_delete: "invar s \<Longrightarrow> tbl (snd (us_Delete st now i s)) = snd (tbl_delete now i (tbl s))"
  using delete [of s now i] by (metis snd_map_prod)

text \<open>A user who was created is found under id, name and address.\<close>

lemma created_is_found:
  assumes "invar s" and "tbl s (u_ID v) = None" and "us_Create st now v s = (Inr w, s')"
    and "u_Status v \<noteq> UserStatusDeleted"
  shows "us_GetByID st (u_ID v) s' = Inr w \<and> us_GetByUsername st (u_Username v) s' = Inr w \<and>
         us_GetByEmail st (u_Email v) s' = Inr w"
proof -
  have inv: "invar s'" using create [OF assms(1,2), of now] assms(3) by simp
  have w: "w = stamp_new_user now v" and t: "tbl s' = (tbl s)(u_ID v \<mapsto> w)"
    using fst_create [OF assms(1,2), of now] tbl_after_create [OF assms(1,2), of now] assms(3)
    by (auto simp: tbl_create_def split: if_splits)
  have "live w" and row: "tbl s' (u_ID v) = Some w"
    using assms(4) w t by (auto simp: live_def)
  then show ?thesis
    using w by (auto simp: get_by_id [OF inv] get_by_username [OF inv] get_by_email [OF inv] tbl_get_Inr)
qed

text \<open>A deleted user is found no more, and no new user can take the name or the address.\<close>

lemma deleted_is_gone:
  assumes "invar s" and "us_Delete st now i s = (Inr (), s')"
  shows "us_GetByID st i s' = Inl ErrUserNotFound"
proof -
  have "invar s'" using delete [OF assms(1), of now i] assms(2) by simp
  moreover have "\<exists>u. tbl s' i = Some u \<and> \<not> live u"
    using fst_delete [OF assms(1), of now i] tbl_after_delete [OF assms(1), of now i] assms(2)
    by (auto simp: tbl_delete_def live_def split: sum.splits)
  ultimately show ?thesis by (auto simp: get_by_id tbl_get_def)
qed

lemma name_stays_taken:
  assumes "invar s" and "tbl s i = Some u" and "tbl s (u_ID v) = None"
    and "u_Username v = u_Username u \<or> u_Email v = u_Email u"
  shows "us_Create st now v s = (Inl ErrUserAlreadyExists, snd (us_Create st now v s)) \<and>
         tbl (snd (us_Create st now v s)) = tbl s"
proof -
  have "u \<in> ran (tbl s)" using assms(2) by (rule ranI)
  then have "tbl_create now v (tbl s) = (Inl ErrUserAlreadyExists, tbl s)"
    using assms(4) by (auto simp: tbl_create_def)
  then show ?thesis
    using fst_create [OF assms(1,3), of now] tbl_after_create [OF assms(1,3), of now]
    by (metis fst_conv prod.collapse snd_conv)
qed

end

interpretation mem: user_store_contract "MemoryStore_Store lower" store_inv ms_users for lower
proof (unfold_locales, goal_cases)
  case 1
  then show ?case by (rule store_inv_tbl_ok)
next
  case 2
  then show ?case by (simp add: MemoryStore_GetByID_eq)
next
  case 3
  then show ?case by (simp add: MemoryStore_GetByUsername_Inr)
next
  case 4
  then show ?case by (simp add: MemoryStore_lookup_Inl)
next
  case 5
  then show ?case by (simp add: MemoryStore_GetByEmail_Inr)
next
  case 6
  then show ?case by (simp add: MemoryStore_lookup_Inl)
next
  case 7
  then show ?case by (simp add: MemoryStore_Create_refines)
next
  case 8
  then show ?case by (simp add: MemoryStore_Update_refines)
next
  case 9
  then show ?case by (simp add: MemoryStore_Delete_refines)
next
  case 10
  then show ?case by (simp add: MemoryStore_List_def live_def [abs_def])
qed


section \<open>The contract of a store of synchronisation jobs\<close>

locale sync_store_contract =
  fixes sj :: "'j SyncJobStore"
    and jobs :: "'j \<Rightarrow> (string \<rightharpoonup> SyncJob)"
  assumes create: "fst (sj_Create sj now v s) = Inr (v\<lparr>j_CreatedAt := now, j_UpdatedAt := now\<rparr>) \<and>
           jobs (snd (sj_Create sj now v s)) = (jobs s)(j_ID v \<mapsto> v\<lparr>j_CreatedAt := now, j_UpdatedAt := now\<rparr>)"
    and get_by_id: "sj_GetByID sj i s = Inr v \<longleftrightarrow> jobs s i = Some v"
    and update_ok: "jobs s (j_ID v) \<noteq> None \<Longrightarrow> fst (sj_Update sj now v s) = Inr () \<and>
           jobs (snd (sj_Update sj now v s)) = (jobs s)(j_ID v \<mapsto> v\<lparr>j_UpdatedAt := now\<rparr>)"
    and update_err: "jobs s (j_ID v) = None \<Longrightarrow> \<exists>e. sj_Update sj now v s = (Inl e, s)"

interpretation mem_sync: sync_store_contract MemorySyncJobStore_Store mj_jobs
  by unfold_locales
    (auto simp: MemorySyncJobStore_Store_def memory_sync_store_defs Let_def split: option.splits)


section \<open>Runs of the store\<close>

text \<open>Any sequence of writing operations, run on the store and on the table.\<close>

datatype store_op = OpCreate time User | OpUpdate time User | OpDelete time string

fun err_of :: "'a result \<Rightarrow> error option" where
  "err_of (Inl e) = Some e"
| "err_of (Inr _) = None"

fun run_store :: "store_op list \<Rightarrow> MemoryStore \<Rightarrow> error option list \<times> MemoryStore" where
  "run_store [] s = ([], s)"
| "run_store (OpCreate now u # ops) s =
     (let (r, s) = MemoryStore_Create now u s; (rs, s) = run_store ops s in (err_of r # rs, s))"
| "run_store (OpUpdate now u # ops) s =
     (let (r, s) = MemoryStore_Update now u s; (rs, s) = run_store ops s in (err_of r # rs, s))"
| "run_store (OpDelete now i # ops) s =
     (let (r, s) = MemoryStore_Delete now i s; (rs, s) = run_store ops s in (err_of r # rs, s))"

fun run_table :: "store_op list \<Rightarrow> user_table \<Rightarrow> error option list \<times> user_table" where
  "run_table [] t = ([], t)"
| "run_table (OpCreate now u # ops) t =
     (let (r, t) = tbl_create now u t; (rs, t) = run_table ops t in (err_of r # rs, t))"
| "run_table (OpUpdate now u # ops) t =
     (let (r, t) = tbl_update now u t; (rs, t) = run_table ops t in (err_of r # rs, t))"
| "run_table (OpDelete now i # ops) t =
     (let (r, t) = tbl_delete now i t; (rs, t) = run_table ops t in (err_of r # rs, t))"

text \<open>No two \<open>Create\<close> operations carry the same id, and none an id of the store.\<close>

fun created_ids :: "store_op list \<Rightarrow> string list" where
  "created_ids [] = []"
| "created_ids (OpCreate _ u # ops) = u_ID u # created_ids ops"
| "created_ids (_ # ops) = created_ids ops"

lemma dom_tbl_create: "dom (snd (tbl_create now u t)) \<subseteq> insert (u_ID u) (dom t)"
  by (auto simp: tbl_create_def split: if_splits)

lemma dom_tbl_update: "dom (snd (tbl_update now u t)) \<subseteq> dom t"
  by (auto simp: tbl_update_def tbl_get_def split: if_splits sum.splits option.splits)

lemma dom_tbl_delete: "dom (snd (tbl_delete now i t)) \<subseteq> dom t"
  by (auto simp: tbl_delete_def tbl_get_def split: if_splits sum.splits option.splits)

lemma run_store_refines:
  assumes "store_inv s" and "distinct (created_ids ops)" and "set (created_ids ops) \<inter> dom (ms_users s) = {}"
  shows "map_prod (\<lambda>rs. rs) ms_users (run_store ops s) = run_table ops (ms_users s) \<and>
         store_inv (snd (run_store ops s))"
  using assms
proof (induction ops arbitrary: s)
  case (Cons op ops)
  show ?case
  proof (cases op)
    case (OpCreate now u)
    obtain r s1 where st: "MemoryStore_Create now u s = (r, s1)" by force
    have new: "ms_users s (u_ID u) = None" using Cons.prems OpCreate by auto
    have ref: "store_inv s1" "tbl_create now u (ms_users s) = (r, ms_users s1)"
      using MemoryStore_Create_refines [OF Cons.prems(1) new, of now] st by auto
    have "set (created_ids ops) \<inter> dom (ms_users s1) = {}"
      using Cons.prems OpCreate dom_tbl_create [of now u "ms_users s"] ref(2)
      by (simp add: disjoint_iff) blast
    with Cons.IH [OF ref(1)] Cons.prems OpCreate st ref(2) show ?thesis
      by (auto split: prod.splits)
  next
    case (OpUpdate now u)
    obtain r s1 where st: "MemoryStore_Update now u s = (r, s1)" by force
    have ref: "store_inv s1" "tbl_update now u (ms_users s) = (r, ms_users s1)"
      using MemoryStore_Update_refines [OF Cons.prems(1), of now u] st by auto
    have "set (created_ids ops) \<inter> dom (ms_users s1) = {}"
      using Cons.prems OpUpdate dom_tbl_update [of now u "ms_users s"] ref(2)
      by (simp add: disjoint_iff) blast
    with Cons.IH [OF ref(1)] Cons.prems OpUpdate st ref(2) show ?thesis
      by (auto split: prod.splits)
  next
    case (OpDelete now i)
    obtain r s1 where st: "MemoryStore_Delete now i s = (r, s1)" by force
    have ref: "store_inv s1" "tbl_delete now i (ms_users s) = (r, ms_users s1)"
      using MemoryStore_Delete_refines [OF Cons.prems(1), of now i] st by auto
    have "set (created_ids ops) \<inter> dom (ms_users s1) = {}"
      using Cons.prems OpDelete dom_tbl_delete [of now i "ms_users s"] ref(2)
      by (simp add: disjoint_iff) blast
    with Cons.IH [OF ref(1)] Cons.prems OpDelete st ref(2) show ?thesis
      by (auto split: prod.splits)
  qed
qed simp


section \<open>Sample data\<close>

definition alice :: User where
  "alice = zero_User\<lparr>u_ID := ''u1'', u_Username := ''alice'', u_Email := ''alice@example.com'',
     u_PasswordHash := ''Alice@8888'', u_DisplayName := ''Alice'', u_Status := UserStatusActive\<rparr>"

definition bob :: User where
  "bob = zero_User\<lparr>u_ID := ''u2'', u_Username := ''bob'', u_Email := ''bob@example.com'',
     u_PasswordHash := ''Bob@88888'', u_DisplayName := ''Bob'', u_Status := UserStatusActive\<rparr>"

lemma alice_simps [simp]:
  "u_ID alice = ''u1''" "u_Username alice = ''alice''" "u_Email alice = ''alice@example.com''"
  "u_PasswordHash alice = ''Alice@8888''" "u_DisplayName alice = ''Alice''"
  "u_Status alice = UserStatusActive" "\<not> u_IsOnline alice"
  by (simp_all add: alice_def)

lemma bob_simps [simp]:
  "u_ID bob = ''u2''" "u_Username bob = ''bob''" "u_Email bob = ''bob@example.com''"
  "u_PasswordHash bob = ''Bob@88888''" "u_DisplayName bob = ''Bob''"
  "u_Status bob = UserStatusActive" "\<not> u_IsOnline bob"
  by (simp_all add: bob_def)

text \<open>A store that holds Alice only.\<close>

definition alice_store :: MemoryStore where
  "alice_store = snd (MemoryStore_Create 0 alice NewMemoryStore)"

lemma alice_store_eq:
  "alice_store = \<lparr>ms_users = [''u1'' \<mapsto> stamp_new_user 0 alice],
     ms_byUsername = [''alice'' \<mapsto> ''u1''], ms_byEmail = [''alice@example.com'' \<mapsto> ''u1'']\<rparr>"
  by (simp add: alice_store_def MemoryStore_Create_eq NewMemoryStore_def)

lemma alice_store_inv [simp]: "store_inv alice_store"
  using MemoryStore_Create_refines [OF store_inv_NewMemoryStore, of alice 0]
  by (simp add: alice_store_def NewMemoryStore_def)


section \<open>Properties of the user store\<close>

text \<open>
  C2: the in-memory store refines the table with unique columns. Whatever sequence of
  \<open>Create\<close>, \<open>Update\<close> and \<open>Delete\<close> calls runs on a new store, with a fresh id in every
  \<open>Create\<close>, the calls return what the table's operations return, the users stored are the
  rows of the table, and the two indexes mirror them at the end.
\<close>

theorem memory_store_refines_table:
  assumes "distinct (created_ids ops)"
  shows "map_prod (\<lambda>rs. rs) ms_users (run_store ops NewMemoryStore) = run_table ops Map.empty \<and>
         store_inv (snd (run_store ops NewMemoryStore))"
  using run_store_refines [OF store_inv_NewMemoryStore assms] by (simp add: NewMemoryStore_def)

theorem memory_store_refines_table_witness:
  "distinct (created_ids [OpCreate 1 alice, OpCreate 2 bob, OpUpdate 3 (bob\<lparr>u_Email := ''alice@example.com''\<rparr>),
                          OpDelete 4 ''u1'']) \<and>
   run_table [OpCreate 1 alice, OpCreate 2 bob, OpUpdate 3 (bob\<lparr>u_Email := ''alice@example.com''\<rparr>),
              OpDelete 4 ''u1''] Map.empty =
     map_prod (\<lambda>rs. rs) ms_users (run_store [OpCreate 1 alice, OpCreate 2 bob,
        OpUpdate 3 (bob\<lparr>u_Email := ''alice@example.com''\<rparr>), OpDelete 4 ''u1''] NewMemoryStore)"
  using memory_store_refines_table [of "[OpCreate 1 alice, OpCreate 2 bob,
      OpUpdate 3 (bob\<lparr>u_Email := ''alice@example.com''\<rparr>), OpDelete 4 ''u1'']"]
  by simp

text \<open>
  User names and addresses are unique. In the store that any run of operations leaves,
  two users with the same name or the same address, deleted ones included, are the same.
\<close>

theorem usernames_and_emails_unique:
  assumes "distinct (created_ids ops)"
    and "ms_users (snd (run_store ops NewMemoryStore)) i = Some u"
    and "ms_users (snd (run_store ops NewMemoryStore)) j = Some v"
    and "u_Username u = u_Username v \<or> u_Email u = u_Email v"
  shows "i = j \<and> u = v \<and> u_ID u = i"
proof -
  have "store_inv (snd (run_store ops NewMemoryStore))"
    using run_store_refines [OF store_inv_NewMemoryStore assms(1)] by (simp add: NewMemoryStore_def)
  from store_inv_tbl_ok [OF this] have ok: "tbl_ok (ms_users (snd (run_store ops NewMemoryStore)))" .
  then have "i = j" using assms(2-4) unfolding tbl_ok_def by blast
  with assms(2,3) tbl_ok_id [OF ok assms(2)] show ?thesis by simp
qed

theorem usernames_and_emails_unique_witness:
  "ms_users (snd (run_store [OpCreate 0 alice] NewMemoryStore)) ''u1'' = Some (stamp_new_user 0 alice) \<and>
   u_ID (stamp_new_user 0 alice) = ''u1''"
proof -
  have "ms_users (snd (run_store [OpCreate 0 alice] NewMemoryStore)) ''u1'' = Some (stamp_new_user 0 alice)"
    by (simp add: MemoryStore_Create_eq NewMemoryStore_def)
  then show ?thesis
    using usernames_and_emails_unique [of "[OpCreate 0 alice]" "''u1''" "stamp_new_user 0 alice"
        "''u1''" "stamp_new_user 0 alice"] by simp
qed

text \<open>
  A created user can be looked up. After a successful \<open>Create\<close> of a user that is not
  marked deleted, the lookups by id, by name and by address all return the user that
  \<open>Create\<close> returned, time stamps and default status included.
\<close>

theorem create_lookup_round_trip:
  assumes "store_inv s" and "ms_users s (u_ID u) = None" and "u_Status u \<noteq> UserStatusDeleted"
    and "MemoryStore_Create now u s = (Inr w, s')"
  shows "w = stamp_new_user now u \<and> MemoryStore_GetByID (u_ID u) s' = Inr w \<and>
         MemoryStore_GetByUsername (u_Username u) s' = Inr w \<and>
         MemoryStore_GetByEmail (u_Email u) s' = Inr w"
  using mem.created_is_found [where s = s and v = u and now = now and w = w and s' = s'] assms by (auto simp: MemoryStore_Create_eq split: if_splits)

theorem create_lookup_round_trip_witness:
  "MemoryStore_GetByUsername ''bob'' (snd (MemoryStore_Create 7 bob alice_store)) =
     Inr (stamp_new_user 7 bob)"
  using create_lookup_round_trip [of alice_store bob 7 "stamp_new_user 7 bob"
      "snd (MemoryStore_Create 7 bob alice_store)"]
  by (simp add: alice_store_eq [symmetric]) (simp add: alice_store_eq MemoryStore_Create_eq)

text \<open>
  C32: an operation that fails changes nothing. In every state of the store, a \<open>Create\<close>
  that reports an existing user (taking its reservation of the name back), an \<open>Update\<close> that
  finds no user or a taken address, and a \<open>Delete\<close> that finds no user leave the store as it
  was, and these are the only errors they report.
\<close>

theorem failed_write_changes_nothing:
  "(\<forall>e. fst (MemoryStore_Create now u s) = Inl e \<longrightarrow>
      e = ErrUserAlreadyExists \<and> snd (MemoryStore_Create now u s) = s) \<and>
   (\<forall>e. fst (MemoryStore_Update now u s) = Inl e \<longrightarrow>
      e \<in> {ErrUserNotFound, ErrUserAlreadyExists} \<and> snd (MemoryStore_Update now u s) = s) \<and>
   (\<forall>e. fst (MemoryStore_Delete now i s) = Inl e \<longrightarrow>
      e = ErrUserNotFound \<and> snd (MemoryStore_Delete now i s) = s)"
  by (auto simp: MemoryStore_Create_eq MemoryStore_Update_eq MemoryStore_Delete_eq tbl_get_Inl
      split: if_splits sum.splits)

theorem failed_write_changes_nothing_witness:
  "fst (MemoryStore_Create 5 alice alice_store) = Inl ErrUserAlreadyExists \<and>
   snd (MemoryStore_Create 5 alice alice_store) = alice_store"
proof -
  have "fst (MemoryStore_Create 5 alice alice_store) = Inl ErrUserAlreadyExists"
    by (simp add: alice_store_eq MemoryStore_Create_eq)
  then show ?thesis
    using failed_write_changes_nothing [of 5 alice alice_store] by blast
qed


lemma deleted_not_found:
  assumes "store_inv s" and "MemoryStore_Delete now i s = (Inr (), s')"
  obtains u where "ms_users s i = Some u" and "live u" and "store_inv s'"
    and "ms_users s' = (ms_users s)(i \<mapsto> u\<lparr>u_Status := UserStatusDeleted, u_UpdatedAt := now\<rparr>)"
proof -
  obtain u where u: "tbl_get i (ms_users s) = Inr u"
    using assms(2) by (auto simp: MemoryStore_Delete_eq split: sum.splits)
  with assms(2) have "s' = s\<lparr>ms_users := (ms_users s)
      (i \<mapsto> u\<lparr>u_Status := UserStatusDeleted, u_UpdatedAt := now\<rparr>)\<rparr>"
    by (simp add: MemoryStore_Delete_eq)
  moreover have "store_inv s'"
    using MemoryStore_Delete_refines [OF assms(1), of now i] assms(2) by simp
  ultimately show thesis using that u by (simp add: tbl_get_Inr)
qed

text \<open>
  Deletion is soft. After a successful \<open>Delete\<close> the user is found neither by id nor by
  name nor by address and is in no page of any listing, while the name and the address stay
  taken: a \<open>Create\<close> that uses either is refused.
\<close>

theorem soft_delete:
  assumes inv: "store_inv s" and row: "ms_users s i = Some u"
    and del: "MemoryStore_Delete now i s = (Inr (), s')"
  shows "MemoryStore_GetByID i s' = Inl ErrUserNotFound \<and>
         MemoryStore_GetByUsername (u_Username u) s' = Inl ErrUserNotFound \<and>
         MemoryStore_GetByEmail (u_Email u) s' = Inl ErrUserNotFound \<and>
         (\<forall>ord offset limit page n. MemoryStore_List ord offset limit s' = Some (Inr (page, n)) \<longrightarrow>
            i \<notin> u_ID ` set page) \<and>
         (\<forall>v now'. u_Username v = u_Username u \<or> u_Email v = u_Email u \<longrightarrow>
            MemoryStore_Create now' v s' = (Inl ErrUserAlreadyExists, s'))"
proof -
  let ?d = "u\<lparr>u_Status := UserStatusDeleted, u_UpdatedAt := now\<rparr>"
  have inv': "store_inv s'" and t: "ms_users s' = (ms_users s)(i \<mapsto> ?d)"
    using deleted_not_found [OF inv del] row by force+
  have "ms_users s' i = Some ?d" by (simp add: t)
  then have idx: "ms_byUsername s' (u_Username u) = Some i" "ms_byEmail s' (u_Email u) = Some i"
    by (auto simp: store_inv_username [OF inv'] store_inv_email [OF inv'])
  have gone: "MemoryStore_GetByID i s' = Inl ErrUserNotFound"
    by (simp add: MemoryStore_GetByID_def t)
  moreover have "i \<notin> u_ID ` set page"
    if "MemoryStore_List ord offset limit s' = Some (Inr (page, n))" for ord offset limit page n
  proof
    assume "i \<in> u_ID ` set page"
    then obtain v where v: "v \<in> set page" "u_ID v = i" by auto
    with that have "live v" and "v \<in> set (range_values ord (ms_users s'))"
      by (auto simp: MemoryStore_List_def live_def dest!: paginate_subset)
    then obtain j where "ms_users s' j = Some v" using in_range_values by force
    with v(2) store_inv_id [OF inv'] have "ms_users s' i = Some v" by auto
    with \<open>live v\<close> show False by (auto simp: t live_def)
  qed
  ultimately show ?thesis
    using idx by (auto simp: MemoryStore_GetByUsername_def MemoryStore_GetByEmail_def MemoryStore_Create_eq)
qed

theorem soft_delete_witness:
  "MemoryStore_GetByUsername ''alice'' (snd (MemoryStore_Delete 9 ''u1'' alice_store)) = Inl ErrUserNotFound"
  using soft_delete [of alice_store "''u1''" "stamp_new_user 0 alice" 9
      "snd (MemoryStore_Delete 9 ''u1'' alice_store)"]
  by (simp add: alice_store_eq [symmetric]) (simp add: alice_store_eq MemoryStore_Delete_eq tbl_get_def live_def)

text \<open>
  The pages of one listing put the live users together. For any order the run time may
  visit the users in, and any page size from 1 up, the first \<open>k\<close> pages are, one after the
  other, the first \<open>k * n\<close> of a list that holds every live user exactly once, and every page
  reports the number of live users as the total.
\<close>

theorem list_pages_cover_live_users:
  assumes inv: "store_inv s" and ord: "iter_order ord (ms_users s)"
    and "0 < n" and "int (k * n) + int n < 2 ^ 63"
  shows "\<exists>all. set all = {u \<in> ran (ms_users s). live u} \<and> distinct (map u_ID all) \<and>
           length all = card {i. \<exists>u. ms_users s i = Some u \<and> live u} \<and>
           (\<forall>i \<le> k. MemoryStore_List ord (int (i * n)) (int n) s =
              Some (Inr (take n (drop (i * n) all), int (length all)))) \<and>
           concat (map (\<lambda>i. take n (drop (i * n) all)) [0..<k]) = take (k * n) all"
proof (intro exI conjI allI impI)
  let ?all = "filter live (range_values ord (ms_users s))"
  show "set ?all = {u \<in> ran (ms_users s). live u}"
    using set_range_values [OF ord] by auto
  show "distinct (map u_ID ?all)"
    using ord store_inv_id [OF inv]
    by (intro distinct_map_filter distinct_map_range_values) (auto simp: iter_order_def)
  show "length ?all = card {i. \<exists>u. ms_users s i = Some u \<and> live u}"
    by (rule count_range_values [OF ord])
  show "MemoryStore_List ord (int (i * n)) (int n) s =
          Some (Inr (take n (drop (i * n) ?all), int (length ?all)))" if "i \<le> k" for i
  proof -
    have "i * n \<le> k * n" using that by simp
    then have "int (i * n) + int n < 2 ^ 63" using assms(4) by linarith
    from paginate_Some [OF _ _ this, of ?all] show ?thesis
      by (simp add: MemoryStore_List_def live_def [abs_def] del: of_nat_mult)
  qed
qed (rule concat_pages)

theorem list_pages_cover_live_users_witness:
  "\<exists>all. set all = {u \<in> ran (ms_users alice_store). live u} \<and>
     MemoryStore_List [''u1''] 0 20 alice_store = Some (Inr (take 20 all, int (length all)))"
proof -
  have "iter_order [''u1''] (ms_users alice_store)"
    by (simp add: iter_order_def alice_store_eq)
  from list_pages_cover_live_users [OF alice_store_inv this, of 20 1] show ?thesis
    by fastforce
qed

text \<open>
  A search returns exactly the live users that match. With offset 0 and a limit that
  is no smaller than the number of users, the result holds each live user whose name,
  address or display name contains the query, both sides in lower case, and no other; the
  total is their number. This holds for every function that stands for lower case.
\<close>

theorem search_is_exact:
  assumes ord: "iter_order ord (ms_users s)" and "card (dom (ms_users s)) \<le> nat limit"
    and "0 \<le> limit" and "limit < 2 ^ 63"
  shows "\<exists>page. MemoryStore_Search lower ord q 0 limit s = Some (Inr (page, int (length page))) \<and>
           set page = {u \<in> ran (ms_users s). live u \<and>
             (sublist (lower q) (lower (u_Username u)) \<or> sublist (lower q) (lower (u_Email u)) \<or>
              sublist (lower q) (lower (u_DisplayName u)))}"
proof (intro exI conjI)
  let ?hit = "\<lambda>u. u_Status u \<noteq> UserStatusDeleted \<and> user_matches lower (lower q) u"
  let ?page = "filter ?hit (range_values ord (ms_users s))"
  have "length ?page \<le> length (range_values ord (ms_users s))" by (rule length_filter_le)
  also have "\<dots> \<le> nat limit" using length_range_values [OF ord] assms(2) by simp
  finally have "length ?page \<le> nat limit" .
  then have "paginate 0 limit ?page = Some (?page, int (length ?page))"
    using paginate_Some [of 0 limit ?page] assms(3,4) by simp
  then show "MemoryStore_Search lower ord q 0 limit s = Some (Inr (?page, int (length ?page)))"
    by (simp add: MemoryStore_Search_def Let_def)
  show "set ?page = {u \<in> ran (ms_users s). live u \<and>
      (sublist (lower q) (lower (u_Username u)) \<or> sublist (lower q) (lower (u_Email u)) \<or>
       sublist (lower q) (lower (u_DisplayName u)))}"
    using set_range_values [OF ord]
    by (auto simp: live_def user_matches_def str_Contains_sublist)
qed

theorem search_is_exact_witness:
  "\<exists>page. MemoryStore_Search ascii_ToLower [''u1''] ''ALI'' 0 20 alice_store = Some (Inr (page, int (length page)))"
proof -
  have "iter_order [''u1''] (ms_users alice_store)" and "card (dom (ms_users alice_store)) \<le> nat 20"
    by (simp_all add: iter_order_def alice_store_eq)
  from search_is_exact [OF this] show ?thesis by force
qed

end
