(* ===== verification/Auth.thy ===== *)
theory Auth
  imports Model
begin

text \<open>
  The package \<open>internal/auth\<close>: the authentication service with its configuration,
  password handling, and the JSON web tokens. The token library
  (\<open>github.com/golang-jwt/jwt\<close>) is not part of the repository: the record \<open>jwt_lib\<close> holds
  the three calls the service makes, every function that makes one takes the library as an
  argument, and the predicates \<open>jwt_dates\<close>, \<open>jwt_round_trip\<close>, \<open>jwt_checks\<close> and
  \<open>jwt_faithful\<close> name what the library's documentation promises of them.
\<close>

section \<open>The token library as a parameter\<close>

text \<open>
  \<open>Claims\<close> embeds the library's registered claims; the code sets three of them.
  \<open>SigningMethod\<close> is what the code asks of a token's method: is it an HMAC method.
\<close>

record Claims =
  c_UserID :: string
  c_Username :: string
  c_ExpiresAt :: "time option"
  c_IssuedAt :: "time option"
  c_Subject :: string

datatype SigningMethod = SigningMethodHMAC | SigningMethodOther string

record jwt_Token =
  tok_Method :: SigningMethod
  tok_Claims :: Claims
  tok_Valid :: bool

text \<open>
  \<open>jwt_SignedString secret claims\<close> is \<open>jwt.NewWithClaims(jwt.SigningMethodHS256,
  claims).SignedString(secret)\<close>; \<open>jwt_ParseWithClaims now tokenString keyFunc\<close> is
  \<open>jwt.ParseWithClaims\<close>, which reads the clock to check the expiry.
\<close>

record jwt_lib =
  jwt_NewNumericDate :: "time \<Rightarrow> time"
  jwt_SignedString :: "string \<Rightarrow> Claims \<Rightarrow> string result"
  jwt_ParseWithClaims :: "time \<Rightarrow> string \<Rightarrow> (SigningMethod \<Rightarrow> string result) \<Rightarrow> jwt_Token result"

definition ascii :: "string \<Rightarrow> bool" where
  "ascii s \<longleftrightarrow> list_all (\<lambda>c. of_char c < (128::nat)) s"

definition not_expired :: "time \<Rightarrow> Claims \<Rightarrow> bool" where
  "not_expired now c \<longleftrightarrow> (case c_ExpiresAt c of None \<Rightarrow> True | Some e \<Rightarrow> now < e)"

text \<open>
  The documented behaviour the service relies on. Dates are cut to whole seconds. A token
  signed with HS256 and a secret parses to its claims when the key function hands out that
  secret for the method and the token has not expired. A token that parses is valid, has
  not expired, and has a method for which the key function handed out a key. Texts outside
  ASCII, which JSON may replace, are left out of the round trip.
\<close>

definition jwt_dates :: "jwt_lib \<Rightarrow> bool" where
  "jwt_dates lib \<longleftrightarrow> (\<forall>t. jwt_NewNumericDate lib t = t - t mod time_Second)"

definition jwt_round_trip :: "jwt_lib \<Rightarrow> bool" where
  "jwt_round_trip lib \<longleftrightarrow>
     (\<forall>k c t e i now keyFunc.
        jwt_SignedString lib k c = Inr t \<longrightarrow>
        c_ExpiresAt c = Some (jwt_NewNumericDate lib e) \<longrightarrow>
        c_IssuedAt c = Some (jwt_NewNumericDate lib i) \<longrightarrow>
        ascii (c_UserID c) \<longrightarrow> ascii (c_Username c) \<longrightarrow> ascii (c_Subject c) \<longrightarrow>
        keyFunc SigningMethodHMAC = Inr k \<longrightarrow> not_expired now c \<longrightarrow>
        jwt_ParseWithClaims lib now t keyFunc =
          Inr \<lparr>tok_Method = SigningMethodHMAC, tok_Claims = c, tok_Valid = True\<rparr>)"

definition jwt_checks :: "jwt_lib \<Rightarrow> bool" where
  "jwt_checks lib \<longleftrightarrow>
     (\<forall>now t keyFunc tok.
        jwt_ParseWithClaims lib now t keyFunc = Inr tok \<longrightarrow>
        tok_Valid tok \<and> not_expired now (tok_Claims tok) \<and>
        (\<exists>k. keyFunc (tok_Method tok) = Inr k))"

text \<open>
  What the documentation says of a string that was signed: it parses only to the claims it
  was signed with.
\<close>

definition jwt_faithful :: "jwt_lib \<Rightarrow> bool" where
  "jwt_faithful lib \<longleftrightarrow>
     (\<forall>k c t e i now keyFunc tok.
        jwt_SignedString lib k c = Inr t \<longrightarrow>
        c_ExpiresAt c = Some (jwt_NewNumericDate lib e) \<longrightarrow>
        c_IssuedAt c = Some (jwt_NewNumericDate lib i) \<longrightarrow>
        ascii (c_UserID c) \<longrightarrow> ascii (c_Username c) \<longrightarrow> ascii (c_Subject c) \<longrightarrow>
        jwt_ParseWithClaims lib now t keyFunc = Inr tok \<longrightarrow> tok_Claims tok = c)"


section \<open>The service\<close>

definition DefaultBcryptCost :: int where
  "DefaultBcryptCost = 10"

definition DefaultTokenExpiry :: int where
  "DefaultTokenExpiry = 24 * time_Hour"

record auth_Service =
  a_jwtSecret :: string
  a_tokenExpiry :: int
  a_bcryptCost :: int

record auth_Config =
  cfg_JWTSecret :: string
  cfg_TokenExpiry :: int
  cfg_BcryptCost :: int

definition auth_NewService :: "auth_Config \<Rightarrow> auth_Service" where
  "auth_NewService cfg =
     (let cfg = (if cfg_TokenExpiry cfg = 0 then cfg\<lparr>cfg_TokenExpiry := DefaultTokenExpiry\<rparr> else cfg);
          cfg = (if cfg_BcryptCost cfg = 0 then cfg\<lparr>cfg_BcryptCost := DefaultBcryptCost\<rparr> else cfg)
      in \<lparr>a_jwtSecret = cfg_JWTSecret cfg, a_tokenExpiry = cfg_TokenExpiry cfg,
          a_bcryptCost = cfg_BcryptCost cfg\<rparr>)"

definition HashPassword :: "auth_Service \<Rightarrow> string \<Rightarrow> string result" where
  "HashPassword s password =
     (if length password < 8 then Inl (Errorf ''password must be at least 8 characters'')
      else Inr password)"

definition VerifyPassword :: "auth_Service \<Rightarrow> string \<Rightarrow> string \<Rightarrow> bool" where
  "VerifyPassword s hash password \<longleftrightarrow> hash = password"

text \<open>\<open>now\<close> and \<open>now'\<close> are the two readings of the clock that \<open>GenerateToken\<close> makes.\<close>

definition GenerateToken ::
  "jwt_lib \<Rightarrow> auth_Service \<Rightarrow> time \<Rightarrow> time \<Rightarrow> string \<Rightarrow> string \<Rightarrow> (string \<times> int) result" where
  "GenerateToken lib s now now' userID username =
     (let expiry = now + a_tokenExpiry s;
          claims = \<lparr>c_UserID = userID, c_Username = username,
                    c_ExpiresAt = Some (jwt_NewNumericDate lib expiry),
                    c_IssuedAt = Some (jwt_NewNumericDate lib now'),
                    c_Subject = userID\<rparr>
      in case jwt_SignedString lib (a_jwtSecret s) claims of
           Inl err \<Rightarrow> Inl err
         | Inr tokenString \<Rightarrow> Inr (tokenString, time_Unix expiry))"

definition token_key :: "auth_Service \<Rightarrow> SigningMethod \<Rightarrow> string result" where
  "token_key s method =
     (if method = SigningMethodHMAC then Inr (a_jwtSecret s)
      else Inl (Errorf ''unexpected signing method''))"

definition ValidateToken :: "jwt_lib \<Rightarrow> auth_Service \<Rightarrow> time \<Rightarrow> string \<Rightarrow> Claims result" where
  "ValidateToken lib s now tokenString =
     (case jwt_ParseWithClaims lib now tokenString (token_key s) of
        Inl err \<Rightarrow> Inl err
      | Inr token \<Rightarrow>
          if \<not> tok_Valid token then Inl (Errorf ''invalid token'')
          else Inr (tok_Claims token))"


section \<open>Passwords and tokens\<close>

lemma HashPassword_Inr: "HashPassword s p = Inr h \<longleftrightarrow> h = p \<and> 8 \<le> length p"
  by (auto simp: HashPassword_def)

lemma token_key_Inr: "token_key s m = Inr k \<longleftrightarrow> m = SigningMethodHMAC \<and> k = a_jwtSecret s"
  by (auto simp: token_key_def)

text \<open>The claims \<open>GenerateToken\<close> signs, in terms of the expiry it returns.\<close>

definition issued_claims :: "jwt_lib \<Rightarrow> time \<Rightarrow> string \<Rightarrow> string \<Rightarrow> int \<Rightarrow> Claims" where
  "issued_claims lib now' userID username expires =
     \<lparr>c_UserID = userID, c_Username = username, c_ExpiresAt = Some (expires * time_Second),
      c_IssuedAt = Some (jwt_NewNumericDate lib now'), c_Subject = userID\<rparr>"

lemma truncated_expiry: "jwt_dates lib \<Longrightarrow> jwt_NewNumericDate lib t = time_Unix t * time_Second"
  by (simp add: jwt_dates_def time_Unix_def minus_mod_eq_div_mult)

lemma GenerateToken_Inr:
  assumes "jwt_dates lib" and "GenerateToken lib s now now' uid name = Inr (t, expires)"
  shows "expires = time_Unix (now + a_tokenExpiry s)"
    and "jwt_SignedString lib (a_jwtSecret s) (issued_claims lib now' uid name expires) = Inr t"
    and "c_ExpiresAt (issued_claims lib now' uid name expires) =
           Some (jwt_NewNumericDate lib (now + a_tokenExpiry s))"
  using assms truncated_expiry [OF assms(1), of "now + a_tokenExpiry s"]
  by (auto simp: GenerateToken_def issued_claims_def Let_def split: sum.splits)

text \<open>A token is accepted until the second it expires at, and gives back whom it was made for.\<close>

lemma ValidateToken_issued:
  assumes "jwt_dates lib" and "jwt_round_trip lib"
    and gen: "GenerateToken lib s now now' uid name = Inr (t, expires)"
    and "ascii uid" and "ascii name" and later: "later < expires * time_Second"
  shows "ValidateToken lib s later t = Inr (issued_claims lib now' uid name expires)"
proof -
  let ?c = "issued_claims lib now' uid name expires"
  have "jwt_ParseWithClaims lib later t (token_key s) =
          Inr \<lparr>tok_Method = SigningMethodHMAC, tok_Claims = ?c, tok_Valid = True\<rparr>"
  proof (rule assms(2) [unfolded jwt_round_trip_def, rule_format])
    show "jwt_SignedString lib (a_jwtSecret s) ?c = Inr t"
      and "c_ExpiresAt ?c = Some (jwt_NewNumericDate lib (now + a_tokenExpiry s))"
      using GenerateToken_Inr [OF assms(1) gen] by auto
    show "c_IssuedAt ?c = Some (jwt_NewNumericDate lib now')"
      and "ascii (c_UserID ?c)" and "ascii (c_Username ?c)" and "ascii (c_Subject ?c)"
      and "not_expired later ?c"
      using assms(4-6) by (auto simp: issued_claims_def not_expired_def)
    show "token_key s SigningMethodHMAC = Inr (a_jwtSecret s)"
      by (simp add: token_key_Inr)
  qed
  then show ?thesis by (simp add: ValidateToken_def)
qed

lemma ValidateToken_expired:
  assumes "jwt_dates lib" and "jwt_checks lib" and "jwt_faithful lib"
    and gen: "GenerateToken lib s now now' uid name = Inr (t, expires)"
    and "ascii uid" and "ascii name" and late: "expires * time_Second \<le> later"
  shows "\<exists>err. ValidateToken lib s later t = Inl err"
proof (cases "jwt_ParseWithClaims lib later t (token_key s)")
  case (Inl err)
  then show ?thesis by (simp add: ValidateToken_def)
next
  case (Inr tok)
  let ?c = "issued_claims lib now' uid name expires"
  have "tok_Claims tok = ?c"
  proof (rule assms(3) [unfolded jwt_faithful_def, rule_format])
    show "jwt_SignedString lib (a_jwtSecret s) ?c = Inr t"
      and "c_ExpiresAt ?c = Some (jwt_NewNumericDate lib (now + a_tokenExpiry s))"
      using GenerateToken_Inr [OF assms(1) gen] by auto
    show "c_IssuedAt ?c = Some (jwt_NewNumericDate lib now')"
      and "ascii (c_UserID ?c)" and "ascii (c_Username ?c)" and "ascii (c_Subject ?c)"
      using assms(5-6) by (auto simp: issued_claims_def)
    show "jwt_ParseWithClaims lib later t (token_key s) = Inr tok" by (rule Inr)
  qed
  moreover have "not_expired later (tok_Claims tok)"
    using assms(2) Inr unfolding jwt_checks_def by blast
  ultimately have False using late by (simp add: not_expired_def issued_claims_def)
  then show ?thesis ..
qed


section \<open>Properties of the authentication service\<close>

text \<open>A library that signs one set of claims and keeps the documented behaviour.\<close>

definition sample_claims :: Claims where
  "sample_claims = \<lparr>c_UserID = ''u1'', c_Username = ''alice'', c_ExpiresAt = Some (86400 * time_Second),
     c_IssuedAt = Some 0, c_Subject = ''u1''\<rparr>"

definition sample_jwt :: jwt_lib where
  "sample_jwt = \<lparr>
     jwt_NewNumericDate = (\<lambda>t. t - t mod time_Second),
     jwt_SignedString = (\<lambda>k c. if k = ''k'' \<and> c = sample_claims then Inr ''tok'' else Inl (Errorf ''key'')),
     jwt_ParseWithClaims = (\<lambda>now t keyFunc.
       if t = ''tok'' \<and> keyFunc SigningMethodHMAC = Inr ''k'' \<and> not_expired now sample_claims
       then Inr \<lparr>tok_Method = SigningMethodHMAC, tok_Claims = sample_claims, tok_Valid = True\<rparr>
       else Inl (Errorf ''invalid''))\<rparr>"

definition sample_auth :: auth_Service where
  "sample_auth = auth_NewService \<lparr>cfg_JWTSecret = ''k'', cfg_TokenExpiry = 0, cfg_BcryptCost = 0\<rparr>"

lemma sample_jwt_documented [simp]:
  "jwt_dates sample_jwt" "jwt_round_trip sample_jwt" "jwt_checks sample_jwt" "jwt_faithful sample_jwt"
  by (auto simp: jwt_dates_def jwt_round_trip_def jwt_checks_def jwt_faithful_def sample_jwt_def
      split: if_splits)

lemma sample_auth_simps [simp]:
  "a_jwtSecret sample_auth = ''k''" "a_tokenExpiry sample_auth = 86400 * time_Second"
  by (simp_all add: sample_auth_def auth_NewService_def DefaultTokenExpiry_def time_Hour_def)

lemma sample_token:
  "GenerateToken sample_jwt sample_auth 0 0 ''u1'' ''alice'' = Inr (''tok'', 86400)"
  by (simp add: GenerateToken_def sample_jwt_def sample_claims_def Let_def time_Unix_def time_Second_def)

text \<open>
  A token is good until it expires. With a token library that behaves as documented, a
  token made by \<open>GenerateToken\<close> is accepted by \<open>ValidateToken\<close> of the same service at any
  time before the expiry that was returned with it, and the claims name the user it was made
  for.
\<close>

theorem token_round_trip:
  assumes "jwt_dates lib" and "jwt_round_trip lib"
    and "GenerateToken lib s now now' uid name = Inr (t, expires)"
    and "ascii uid" and "ascii name" and "later < expires * time_Second"
  shows "\<exists>c. ValidateToken lib s later t = Inr c \<and> c_UserID c = uid \<and> c_Username c = name \<and>
           c_Subject c = uid \<and> c_ExpiresAt c = Some (expires * time_Second) \<and>
           expires = time_Unix (now + a_tokenExpiry s)"
  using ValidateToken_issued [OF assms] GenerateToken_Inr(1) [OF assms(1,3)]
  by (simp add: issued_claims_def)

theorem token_round_trip_witness:
  "\<exists>c. ValidateToken sample_jwt sample_auth 1000 ''tok'' = Inr c \<and> c_UserID c = ''u1''"
  using token_round_trip [OF _ _ sample_token, of 1000] by (force simp: ascii_def time_Second_def)

text \<open>
  An expired token is refused. From the second at which it expires on, a token made by
  \<open>GenerateToken\<close> is accepted no more.
\<close>

theorem token_expires:
  assumes "jwt_dates lib" and "jwt_checks lib" and "jwt_faithful lib"
    and "GenerateToken lib s now now' uid name = Inr (t, expires)"
    and "ascii uid" and "ascii name" and "expires * time_Second \<le> later"
  shows "\<exists>err. ValidateToken lib s later t = Inl err"
  using assms by (rule ValidateToken_expired)

theorem token_expires_witness:
  "\<exists>err. ValidateToken sample_jwt sample_auth (86400 * time_Second) ''tok'' = Inl err"
  using token_expires [OF _ _ _ sample_token, of "86400 * time_Second"] by (simp add: ascii_def)

text \<open>
  C31: only tokens with an HMAC method and the service's own key are accepted. Whatever
  string arrives, if \<open>ValidateToken\<close> accepts it then the library parsed it to an unexpired
  token whose method is an HMAC method, for which the key function gave the secret of the
  service; for any other method the key function returns an error.
\<close>

theorem only_hmac_tokens_accepted:
  assumes "jwt_checks lib" and "ValidateToken lib s now t = Inr c"
  shows "(\<exists>tok. jwt_ParseWithClaims lib now t (token_key s) = Inr tok \<and>
            tok_Method tok = SigningMethodHMAC \<and> tok_Claims tok = c) \<and> not_expired now c \<and>
         (\<forall>m k. token_key s m = Inr k \<longrightarrow> m = SigningMethodHMAC \<and> k = a_jwtSecret s)"
proof -
  obtain tok where tok: "jwt_ParseWithClaims lib now t (token_key s) = Inr tok" "tok_Claims tok = c"
    using assms(2) by (auto simp: ValidateToken_def split: sum.splits if_splits)
  with assms(1) have "not_expired now c \<and> (\<exists>k. token_key s (tok_Method tok) = Inr k)"
    unfolding jwt_checks_def by blast
  with tok show ?thesis by (auto simp: token_key_Inr)
qed

theorem only_hmac_tokens_accepted_witness:
  "not_expired 1000 sample_claims \<and> ValidateToken sample_jwt sample_auth 1000 ''tok'' = Inr sample_claims"
proof -
  have "ValidateToken sample_jwt sample_auth 1000 ''tok'' = Inr sample_claims"
    by (simp add: ValidateToken_def sample_jwt_def token_key_def not_expired_def sample_claims_def time_Second_def)
  with only_hmac_tokens_accepted [of sample_jwt sample_auth 1000 "''tok''" sample_claims]
  show ?thesis by simp
qed

text \<open>
  The stored "hash" is the password itself, whatever cost the service is configured with.
\<close>

theorem password_stored_in_plaintext: "HashPassword s p = Inr h \<Longrightarrow> h = p"
  by (simp add: HashPassword_Inr)

end
