(* ===== verification/User_Service.thy ===== *)
theory User_Service
  imports User_Store Auth
begin

text \<open>
  The service \<open>UserService\<close> of \<open>internal/service/user.go\<close>. Its struct holds a user store,
  a store of synchronisation jobs and the authentication service, all given at
  construction, so each method takes the ones it uses as arguments: \<open>st\<close> and \<open>sj\<close> are
  values of the interface types, \<open>auth\<close> the authentication service, \<open>lib\<close> the token
  library. \<open>uuid\<close> stands for the identifier that \<open>uuid.New().String()\<close> returned; that it is
  new is a hypothesis of the lemmas that need it. The lemmas about a method are proved once
  over \<open>user_store_contract\<close>.
\<close>

section \<open>The methods\<close>

definition CreateUser ::
  "'s user_Store \<Rightarrow> auth_Service \<Rightarrow> string \<Rightarrow> time \<Rightarrow> CreateUserRequest \<Rightarrow> 's \<Rightarrow> User result \<times> 's" where
  "CreateUser st auth uuid now req s =
     (case HashPassword auth (cu_Password req) of
        Inl err \<Rightarrow> (Inl err, s)
      | Inr hash \<Rightarrow>
          us_Create st now
            (zero_User\<lparr>u_ID := uuid, u_Username := cu_Username req, u_Email := cu_Email req,
               u_PasswordHash := hash, u_DisplayName := cu_DisplayName req,
               u_Status := UserStatusActive\<rparr>) s)"

definition GetUser :: "'s user_Store \<Rightarrow> string \<Rightarrow> 's \<Rightarrow> User result" where
  "GetUser st uid s = us_GetByID st uid s"

definition GetUserByUsername :: "'s user_Store \<Rightarrow> string \<Rightarrow> 's \<Rightarrow> User result" where
  "GetUserByUsername st username s = us_GetByUsername st username s"

definition UpdateUser ::
  "'s user_Store \<Rightarrow> time \<Rightarrow> string \<Rightarrow> UpdateUserRequest \<Rightarrow> 's \<Rightarrow> User result \<times> 's" where
  "UpdateUser st now uid req s =
     (let u = zero_User\<lparr>u_ID := uid, u_Email := uu_Email req,
                u_DisplayName := uu_DisplayName req, u_Status := uu_Status req\<rparr>
      in case us_Update st now u s of
           (Inl err, s) \<Rightarrow> (Inl err, s)
         | (Inr _, s) \<Rightarrow> (us_GetByID st uid s, s))"

definition DeleteUser :: "'s user_Store \<Rightarrow> time \<Rightarrow> string \<Rightarrow> 's \<Rightarrow> unit result \<times> 's" where
  "DeleteUser st now uid s = us_Delete st now uid s"

definition clamp_limit :: "int \<Rightarrow> int" where
  "clamp_limit limit = (if limit \<le> 0 \<or> limit > 100 then 20 else limit)"

definition ListUsers ::
  "'s user_Store \<Rightarrow> string list \<Rightarrow> string \<Rightarrow> int \<Rightarrow> int \<Rightarrow> 's \<Rightarrow> (User list \<times> int) result option" where
  "ListUsers st ord q offset limit s =
     (let limit = clamp_limit limit
      in if q \<noteq> [] then us_Search st ord q offset limit s
         else us_List st ord offset limit s)"

definition VerifyCredentials ::
  "'s user_Store \<Rightarrow> auth_Service \<Rightarrow> string \<Rightarrow> string \<Rightarrow> 's \<Rightarrow> User result" where
  "VerifyCredentials st auth username password s =
     (case us_GetByUsername st username s of
        Inl _ \<Rightarrow> Inl ErrInvalidCredentials
      | Inr u \<Rightarrow>
          if u_Status u \<noteq> UserStatusActive then Inl ErrUserDisabled
          else if \<not> VerifyPassword auth (u_PasswordHash u) password then Inl ErrInvalidCredentials
          else Inr u)"

text \<open>\<open>Login\<close> reads the clock once in \<open>Update\<close> and twice in \<open>GenerateToken\<close>.\<close>

definition Login ::
  "'s user_Store \<Rightarrow> jwt_lib \<Rightarrow> auth_Service \<Rightarrow> time \<Rightarrow> time \<Rightarrow> time \<Rightarrow> string \<Rightarrow> string \<Rightarrow> 's
    \<Rightarrow> LoginResponse result \<times> 's" where
  "Login st lib auth now now' now'' username password s =
     (case VerifyCredentials st auth username password s of
        Inl err \<Rightarrow> (Inl err, s)
      | Inr u \<Rightarrow>
          let (_, s) = us_Update st now (zero_User\<lparr>u_ID := u_ID u, u_IsOnline := True\<rparr>) s;
              u = u\<lparr>u_IsOnline := True\<rparr>
          in case GenerateToken lib auth now' now'' (u_ID u) (u_Username u) of
               Inl err \<Rightarrow> (Inl err, s)
             | Inr (token, expires) \<Rightarrow>
                 (Inr \<lparr>lr_Token = token, lr_Expires = expires, lr_User = u\<rparr>, s))"

definition CreateSyncJob ::
  "'j SyncJobStore \<Rightarrow> string \<Rightarrow> time \<Rightarrow> time \<Rightarrow> CreateSyncJobRequest \<Rightarrow> 'j \<Rightarrow> SyncJob result \<times> 'j" where
  "CreateSyncJob sj uuid now now' req j =
     sj_Create sj now'
       \<lparr>j_ID = uuid, j_SourceSystem = cj_SourceSystem req, j_SyncType = cj_SyncType req,
        j_Status = SyncJobStatusPending, j_StartedAt = Some now, j_FinishedAt = None,
        j_ErrorMessage = [], j_CreatedAt = zero_time, j_UpdatedAt = zero_time\<rparr> j"

definition GetSyncJob :: "'j SyncJobStore \<Rightarrow> string \<Rightarrow> 'j \<Rightarrow> SyncJob result" where
  "GetSyncJob sj uid j = sj_GetByID sj uid j"

definition SetOnline :: "'s user_Store \<Rightarrow> time \<Rightarrow> string \<Rightarrow> bool \<Rightarrow> 's \<Rightarrow> unit result \<times> 's" where
  "SetOnline st now userID online s =
     us_Update st now (zero_User\<lparr>u_ID := userID, u_IsOnline := online\<rparr>) s"

definition Logout :: "'s user_Store \<Rightarrow> time \<Rightarrow> string \<Rightarrow> 's \<Rightarrow> unit result \<times> 's" where
  "Logout st now userID s =
     us_Update st now (zero_User\<lparr>u_ID := userID, u_IsOnline := False\<rparr>) s"

definition GetOnlineCount :: "'s user_Store \<Rightarrow> string list \<Rightarrow> 's \<Rightarrow> int result option" where
  "GetOnlineCount st ord s =
     (case us_List st ord 0 10000 s of
        None \<Rightarrow> None
      | Some (Inl err) \<Rightarrow> Some (Inl err)
      | Some (Inr (users, _)) \<Rightarrow> Some (Inr (foldl (\<lambda>count u. if u_IsOnline u then count + 1 else count) 0 users)))"

lemmas user_service_defs [svc_defs] =
  CreateUser_def GetUser_def GetUserByUsername_def UpdateUser_def DeleteUser_def ListUsers_def
  VerifyCredentials_def Login_def CreateSyncJob_def GetSyncJob_def SetOnline_def Logout_def
  GetOnlineCount_def

lemma count_online: "foldl (\<lambda>count u. if p u then count + 1 else count) (n::int) us = n + int (length (filter p us))"
  by (induction us arbitrary: n) simp_all

lemma clamp_limit_range: "1 \<le> clamp_limit limit \<and> clamp_limit limit \<le> 100"
  by (simp add: clamp_limit_def)

text \<open>With the service's limits, a page request panics exactly when it starts before 0.\<close>

lemma paginate_clamped:
  assumes "0 \<le> offset" and "int (length xs) < 2 ^ 62"
  shows "paginate offset (clamp_limit limit) xs =
           Some (take (nat (clamp_limit limit)) (drop (nat offset) xs), int (length xs))"
proof (cases "offset \<ge> int (length xs)")
  case True
  then show ?thesis by (simp add: paginate_def)
next
  case False
  with assms(2) have "offset + clamp_limit limit < 2 ^ 63"
    using clamp_limit_range [of limit] by simp
  with assms(1) clamp_limit_range [of limit] show ?thesis by (intro paginate_Some) auto
qed


section \<open>The methods over any store that keeps its contract\<close>

text \<open>The row of a user after the online flag was set: nothing else but the time stamp changes.\<close>

definition with_online :: "time \<Rightarrow> bool \<Rightarrow> User \<Rightarrow> User" where
  "with_online now online u = u\<lparr>u_IsOnline := online, u_UpdatedAt := now\<rparr>"

lemma merge_user_online:
  "merge_user now (zero_User\<lparr>u_ID := i, u_IsOnline := b\<rparr>) old = with_online now b old"
  by (simp add: merge_user_def with_online_def)

lemma tbl_update_online:
  assumes "t i = Some u" and "live u"
  shows "tbl_update now (zero_User\<lparr>u_ID := i, u_IsOnline := b\<rparr>) t = (Inr (), t(i \<mapsto> with_online now b u))"
  using assms by (simp add: tbl_update_def tbl_get_def merge_user_online)

lemma active_live: "u_Status u = UserStatusActive \<Longrightarrow> live u"
  by (simp add: live_def)

context user_store_contract
begin

lemma verify_ok:
  assumes "invar s"
  shows "VerifyCredentials st auth n p s = Inr u \<longleftrightarrow>
           (\<exists>i. tbl s i = Some u \<and> u_Username u = n \<and> u_Status u = UserStatusActive \<and> u_PasswordHash u = p)"
proof (cases "us_GetByUsername st n s")
  case (Inl e)
  then have "\<nexists>i. tbl s i = Some u \<and> u_Username u = n \<and> live u"
    using get_by_username [OF assms, of n u] by auto
  with Inl active_live show ?thesis by (auto simp: VerifyCredentials_def)
next
  case (Inr v)
  then obtain i where v: "tbl s i = Some v" "u_Username v = n" "live v"
    using get_by_username [OF assms] by blast
  have "v = u" if "tbl s j = Some u" and "u_Username u = n" for j
    using that v tbl_ok_username [OF tbl_well_formed [OF assms], of i v j u] by auto
  with Inr v show ?thesis by (auto simp: VerifyCredentials_def VerifyPassword_def)
qed

lemma verify_disabled:
  assumes "invar s"
  shows "VerifyCredentials st auth n p s = Inl ErrUserDisabled \<longleftrightarrow>
           (\<exists>i u. tbl s i = Some u \<and> u_Username u = n \<and> live u \<and> u_Status u \<noteq> UserStatusActive)"
proof (cases "us_GetByUsername st n s")
  case (Inl e)
  then have "\<nexists>i u. tbl s i = Some u \<and> u_Username u = n \<and> live u"
    using get_by_username [OF assms, of n] by auto
  with Inl show ?thesis by (auto simp: VerifyCredentials_def)
next
  case (Inr v)
  then obtain i where v: "tbl s i = Some v" "u_Username v = n" "live v"
    using get_by_username [OF assms] by blast
  have "v = u" if "tbl s j = Some u" and "u_Username u = n" for j u
    using that v tbl_ok_username [OF tbl_well_formed [OF assms], of i v j u] by auto
  moreover have "VerifyCredentials st auth n p s = Inl ErrUserDisabled \<longleftrightarrow> u_Status v \<noteq> UserStatusActive"
    using Inr by (simp add: VerifyCredentials_def)
  ultimately show ?thesis using v by blast
qed

lemma verify_errors: "VerifyCredentials st auth n p s = Inl e \<Longrightarrow> e \<in> {ErrInvalidCredentials, ErrUserDisabled}"
  by (auto simp: VerifyCredentials_def split: sum.splits if_splits)

lemma create_user:
  assumes "invar s" and "tbl s uuid = None" and "8 \<le> length (cu_Password req)"
  shows "invar (snd (CreateUser st auth uuid now req s))"
    and "map_prod (\<lambda>r. r) tbl (CreateUser st auth uuid now req s) =
         tbl_create now (zero_User\<lparr>u_ID := uuid, u_Username := cu_Username req, u_Email := cu_Email req,
               u_PasswordHash := cu_Password req, u_DisplayName := cu_DisplayName req,
               u_Status := UserStatusActive\<rparr>) (tbl s)"
  using create [OF assms(1), of "zero_User\<lparr>u_ID := uuid, u_Username := cu_Username req,
      u_Email := cu_Email req, u_PasswordHash := cu_Password req,
      u_DisplayName := cu_DisplayName req, u_Status := UserStatusActive\<rparr>" now] assms(2,3)
  by (simp_all add: CreateUser_def HashPassword_def)

lemma invar_create_user:
  "invar s \<Longrightarrow> tbl s uuid = None \<Longrightarrow> invar (snd (CreateUser st auth uuid now req s))"
  by (cases "8 \<le> length (cu_Password req)")
    (simp_all add: create_user(1), simp add: CreateUser_def HashPassword_def)

text \<open>Who signs up can log in with the password given, and with no other.\<close>

lemma create_then_verify:
  assumes "invar s" and "tbl s uuid = None" and ok: "CreateUser st auth uuid now req s = (Inr w, s')"
  shows "VerifyCredentials st auth (cu_Username req) p s' =
           (if p = cu_Password req then Inr w else Inl ErrInvalidCredentials)"
proof -
  have len: "8 \<le> length (cu_Password req)"
    using ok by (auto simp: CreateUser_def HashPassword_def split: if_splits)
  let ?u = "zero_User\<lparr>u_ID := uuid, u_Username := cu_Username req, u_Email := cu_Email req,
               u_PasswordHash := cu_Password req, u_DisplayName := cu_DisplayName req,
               u_Status := UserStatusActive\<rparr>"
  have "us_Create st now ?u s = (Inr w, s')"
    using ok len by (simp add: CreateUser_def HashPassword_def)
  moreover from this have "w = stamp_new_user now ?u"
    using fst_create [OF assms(1), of ?u now] assms(2) by (auto simp: tbl_create_def split: if_splits)
  ultimately have "us_GetByUsername st (cu_Username req) s' = Inr w"
    and "u_Status w = UserStatusActive" and "u_PasswordHash w = cu_Password req"
    using created_is_found [OF assms(1), of ?u now w s'] assms(2) by simp_all
  then show ?thesis by (auto simp: VerifyCredentials_def VerifyPassword_def)
qed

lemma set_online:
  assumes "invar s" and "tbl s i = Some u" and "live u"
  shows "fst (SetOnline st now i b s) = Inr () \<and>
         tbl (snd (SetOnline st now i b s)) = (tbl s)(i \<mapsto> with_online now b u) \<and>
         invar (snd (SetOnline st now i b s))"
  using fst_update [OF assms(1)] tbl_after_update [OF assms(1)] update [OF assms(1)]
    tbl_update_online [of "tbl s", OF assms(2,3)]
  by (simp add: SetOnline_def)

text \<open>
  A login succeeds only with the right password of an active user; its only effect on the
  table is that this user is online.
\<close>

lemma login_state:
  assumes "invar s"
  shows "snd (Login st lib auth now now' now'' n p s) =
           (case VerifyCredentials st auth n p s of
              Inl _ \<Rightarrow> s
            | Inr u \<Rightarrow> snd (SetOnline st now (u_ID u) True s))"
  by (cases "VerifyCredentials st auth n p s")
    (auto simp: Login_def SetOnline_def Let_def split: prod.splits sum.splits)

lemma login_effect:
  assumes "invar s" and ok: "Login st lib auth now now' now'' n p s = (Inr resp, s')"
  obtains i u where "tbl s i = Some u" and "u_Username u = n" and "u_Status u = UserStatusActive"
    and "u_PasswordHash u = p" and "u_ID u = i" and "tbl s' = (tbl s)(i \<mapsto> with_online now True u)"
    and "lr_User resp = u\<lparr>u_IsOnline := True\<rparr>"
    and "GenerateToken lib auth now' now'' i n = Inr (lr_Token resp, lr_Expires resp)"
    and "invar s'"
proof -
  obtain u where v: "VerifyCredentials st auth n p s = Inr u"
    using ok by (cases "VerifyCredentials st auth n p s") (auto simp: Login_def)
  then obtain i where i: "tbl s i = Some u" "u_Username u = n" "u_Status u = UserStatusActive"
      "u_PasswordHash u = p"
    using verify_ok [OF assms(1)] by blast
  have uid: "u_ID u = i" using tbl_ok_id [OF tbl_well_formed [OF assms(1)] i(1)] .
  have "tbl s' = (tbl s)(i \<mapsto> with_online now True u)" and "invar s'"
    using set_online [OF assms(1) i(1) active_live [OF i(3)], of now True]
      login_state [OF assms(1), of lib auth now now' now'' n p] ok v uid by simp_all
  moreover have "lr_User resp = u\<lparr>u_IsOnline := True\<rparr>"
    and "GenerateToken lib auth now' now'' i n = Inr (lr_Token resp, lr_Expires resp)"
    using ok v i(2) uid by (auto simp: Login_def Let_def split: prod.splits sum.splits)
  ultimately show thesis using that i uid by blast
qed

lemma invar_login: "invar s \<Longrightarrow> invar (snd (Login st lib auth now now' now'' n p s))"
  using update by (cases "VerifyCredentials st auth n p s") (auto simp: login_state SetOnline_def)

text \<open>The online counter is exact as long as the listing it takes holds every user.\<close>

lemma online_count:
  assumes "invar s" and "iter_order ord (tbl s)" and "card {i. \<exists>u. tbl s i = Some u \<and> live u} \<le> 10000"
  shows "GetOnlineCount st ord s =
           Some (Inr (int (card {i. \<exists>u. tbl s i = Some u \<and> live u \<and> u_IsOnline u})))"
proof -
  let ?all = "filter live (range_values ord (tbl s))"
  have len: "length ?all \<le> 10000"
    using count_range_values [OF assms(2), of live] assms(3) by simp
  have "us_List st ord 0 10000 s = Some (Inr (?all, int (length ?all)))"
    using list [OF assms(1,2), of 0 10000] paginate_Some [of 0 10000 ?all] len by simp
  then show ?thesis
    using count_range_values [OF assms(2), of "\<lambda>u. live u \<and> u_IsOnline u"]
    by (simp add: GetOnlineCount_def count_online conj_commute)
qed

end


section \<open>Properties of the user service\<close>

text \<open>The service as the server wires it: over the in-memory store.\<close>

abbreviation store_api :: "(string \<Rightarrow> string) \<Rightarrow> MemoryStore user_Store" where
  "store_api lower \<equiv> MemoryStore_Store lower"

text \<open>
  C9: the credentials check decides exactly. \<open>VerifyCredentials\<close> returns a user just when
  the store holds an active user with that name and that password; it reports a disabled
  user just when a user with that name exists, is not deleted and is not active, whatever the
  password; in every other case it reports invalid credentials.
\<close>

theorem credentials_decided_exactly:
  assumes "store_inv s"
  shows "(VerifyCredentials (store_api lower) auth n p s = Inr u \<longleftrightarrow>
            (\<exists>i. ms_users s i = Some u \<and> u_Username u = n \<and> u_Status u = UserStatusActive \<and>
               u_PasswordHash u = p)) \<and>
         (VerifyCredentials (store_api lower) auth n p s = Inl ErrUserDisabled \<longleftrightarrow>
            (\<exists>i v. ms_users s i = Some v \<and> u_Username v = n \<and> u_Status v \<noteq> UserStatusDeleted \<and>
               u_Status v \<noteq> UserStatusActive)) \<and>
         (\<forall>e. VerifyCredentials (store_api lower) auth n p s = Inl e \<longrightarrow>
            e \<in> {ErrInvalidCredentials, ErrUserDisabled})"
proof (intro conjI allI impI)
  show "VerifyCredentials (store_api lower) auth n p s = Inl ErrUserDisabled \<longleftrightarrow>
      (\<exists>i v. ms_users s i = Some v \<and> u_Username v = n \<and> u_Status v \<noteq> UserStatusDeleted \<and>
         u_Status v \<noteq> UserStatusActive)"
    using mem.verify_disabled [OF assms, of lower auth n p] by (simp add: live_def conj_assoc)
qed (rule mem.verify_ok [OF assms], erule mem.verify_errors)

theorem credentials_decided_exactly_witness:
  "VerifyCredentials (store_api ascii_ToLower) sample_auth ''alice'' ''Alice@8888'' alice_store =
     Inr (stamp_new_user 0 alice)"
  using credentials_decided_exactly [OF alice_store_inv, of ascii_ToLower sample_auth "''alice''"
      "''Alice@8888''" "stamp_new_user 0 alice"]
  by (simp add: alice_store_eq [symmetric]) (simp add: alice_store_eq)

text \<open>
  A login is granted only for the password of an active user, and all it does to the
  store is to mark that user online and stamp the time: every other user, and every other
  field of this one, stays. A login that is refused leaves the store as it was.
\<close>

theorem login_effect_exact:
  assumes "store_inv s" and "Login (store_api lower) lib auth now now' now'' n p s = (r, s')"
  shows "case r of
      Inr resp \<Rightarrow> \<exists>i u. ms_users s i = Some u \<and> u_Username u = n \<and> u_PasswordHash u = p \<and>
         u_Status u = UserStatusActive \<and> lr_User resp = u\<lparr>u_IsOnline := True\<rparr> \<and>
         ms_users s' = (ms_users s)(i \<mapsto> u\<lparr>u_IsOnline := True, u_UpdatedAt := now\<rparr>) \<and>
         ms_byUsername s' = ms_byUsername s \<and> ms_byEmail s' = ms_byEmail s
    | Inl e \<Rightarrow> VerifyCredentials (store_api lower) auth n p s = Inl e \<longrightarrow> s' = s"
proof (cases r)
  case (Inl e)
  then show ?thesis
    using assms(2) by (cases "VerifyCredentials (store_api lower) auth n p s") (auto simp: Login_def)
next
  case (Inr resp)
  have idx: "ms_byUsername (snd (MemoryStore_Update now (zero_User\<lparr>u_ID := i, u_IsOnline := b\<rparr>) s)) = ms_byUsername s"
    "ms_byEmail (snd (MemoryStore_Update now (zero_User\<lparr>u_ID := i, u_IsOnline := b\<rparr>) s)) = ms_byEmail s" for i b
    by (simp_all add: MemoryStore_Update_eq split: sum.splits)
  from assms(2) Inr have "\<exists>i. s' = snd (MemoryStore_Update now (zero_User\<lparr>u_ID := i, u_IsOnline := True\<rparr>) s)"
    using mem.login_state [OF assms(1), of lower lib auth now now' now'' n p]
    by (auto simp: SetOnline_def Login_def split: sum.splits)
  with idx have "ms_byUsername s' = ms_byUsername s" "ms_byEmail s' = ms_byEmail s" by auto
  moreover have "Login (store_api lower) lib auth now now' now'' n p s = (Inr resp, s')"
    using assms(2) Inr by simp
  then obtain i u where "ms_users s i = Some u" "u_Username u = n" "u_Status u = UserStatusActive"
      "u_PasswordHash u = p" "ms_users s' = (ms_users s)(i \<mapsto> with_online now True u)"
      "lr_User resp = u\<lparr>u_IsOnline := True\<rparr>"
    by (rule mem.login_effect [OF assms(1)])
  ultimately show ?thesis using Inr by (auto simp: with_online_def)
qed

theorem login_effect_exact_witness:
  "ms_users (snd (Login (store_api ascii_ToLower) sample_jwt sample_auth 5 0 0 ''alice'' ''wrong'' alice_store)) =
     ms_users alice_store"
proof -
  have v: "VerifyCredentials (store_api ascii_ToLower) sample_auth ''alice'' ''wrong'' alice_store =
      Inl ErrInvalidCredentials"
    by (simp add: VerifyCredentials_def MemoryStore_GetByUsername_def MemoryStore_GetByID_def
        VerifyPassword_def alice_store_eq)
  obtain r s' where l: "Login (store_api ascii_ToLower) sample_jwt sample_auth 5 0 0 ''alice'' ''wrong'' alice_store = (r, s')"
    by force
  with v have "r = Inl ErrInvalidCredentials" by (simp add: Login_def)
  with login_effect_exact [OF alice_store_inv l] v l show ?thesis by simp
qed

text \<open>
  C4: a login's token authenticates. The token that a login returned is accepted at any time
  before the expiry returned with it, and its claims carry the id and the name of the user
  who logged in.
\<close>

theorem login_token_authenticates:
  assumes "store_inv s" and "Login (store_api lower) lib auth now now' now'' n p s = (Inr resp, s')"
    and "jwt_dates lib" and "jwt_round_trip lib" and "ascii (u_ID (lr_User resp))" and "ascii n"
    and "later < lr_Expires resp * time_Second"
  shows "\<exists>c. ValidateToken lib auth later (lr_Token resp) = Inr c \<and>
           c_UserID c = u_ID (lr_User resp) \<and> c_Username c = n \<and>
           ms_users s (c_UserID c) \<noteq> None"
proof -
  obtain i u where u: "ms_users s i = Some u" "u_ID u = i" "lr_User resp = u\<lparr>u_IsOnline := True\<rparr>"
    and gen: "GenerateToken lib auth now' now'' i n = Inr (lr_Token resp, lr_Expires resp)"
    by (rule mem.login_effect [OF assms(1,2)])
  have "ascii i" using u assms(5) by simp
  from ValidateToken_issued [OF assms(3,4) gen this assms(6,7)] u show ?thesis
    by (simp add: issued_claims_def)
qed

lemma alice_login:
  "Login (store_api lower) sample_jwt sample_auth 5 0 0 ''alice'' ''Alice@8888'' alice_store =
     (Inr \<lparr>lr_Token = ''tok'', lr_Expires = 86400, lr_User = (stamp_new_user 0 alice)\<lparr>u_IsOnline := True\<rparr>\<rparr>,
      snd (SetOnline (store_api lower) 5 ''u1'' True alice_store))"
  by (simp add: Login_def VerifyCredentials_def MemoryStore_GetByUsername_def MemoryStore_GetByID_def
      VerifyPassword_def SetOnline_def alice_store_eq sample_token MemoryStore_Update_eq tbl_get_def live_def)

theorem login_token_authenticates_witness:
  "\<exists>c. ValidateToken sample_jwt sample_auth 1000 ''tok'' = Inr c \<and> c_UserID c = ''u1''"
  using login_token_authenticates [OF alice_store_inv alice_login [of ascii_ToLower], of 1000]
  by (force simp: ascii_def time_Second_def)

text \<open>
  Who signs up can log in. After \<open>CreateUser\<close> succeeded, the credentials check accepts
  the password of the request for the name of the request, returns the created user, and
  refuses every other password; no password shorter than eight bytes is accepted.
\<close>

theorem signup_then_verify:
  assumes "store_inv s" and "ms_users s uuid = None"
    and "CreateUser (store_api lower) auth uuid now req s = (Inr w, s')"
  shows "VerifyCredentials (store_api lower) auth (cu_Username req) p s' =
           (if p = cu_Password req then Inr w else Inl ErrInvalidCredentials) \<and>
         8 \<le> length (cu_Password req) \<and> u_ID w = uuid \<and> u_Status w = UserStatusActive \<and> store_inv s'"
proof -
  have len: "8 \<le> length (cu_Password req)"
    using assms(3) by (auto simp: CreateUser_def HashPassword_def split: if_splits)
  have "store_inv s'"
    using mem.invar_create_user [OF assms(1,2), of lower auth now req] assms(3) by simp
  moreover have "u_ID w = uuid \<and> u_Status w = UserStatusActive"
    using assms(3) len by (auto simp: CreateUser_def HashPassword_def MemoryStore_Create_eq split: if_splits)
  ultimately show ?thesis using mem.create_then_verify [OF assms] len by blast
qed

definition carol_request :: CreateUserRequest where
  "carol_request = \<lparr>cu_Username = ''carol'', cu_Email = ''carol@example.com'',
     cu_Password = ''Carol@8888'', cu_DisplayName = ''Carol''\<rparr>"

theorem signup_then_verify_witness:
  "VerifyCredentials (store_api ascii_ToLower) sample_auth ''carol'' ''nope''
     (snd (CreateUser (store_api ascii_ToLower) sample_auth ''u9'' 3 carol_request alice_store)) =
   Inl ErrInvalidCredentials"
proof -
  obtain w s' where ok: "CreateUser (store_api ascii_ToLower) sample_auth ''u9'' 3 carol_request alice_store = (Inr w, s')"
    by (simp add: CreateUser_def HashPassword_def carol_request_def MemoryStore_Create_eq alice_store_eq)
  have "ms_users alice_store ''u9'' = None" by (simp add: alice_store_eq)
  from signup_then_verify [OF alice_store_inv this ok, of "''nope''"] ok show ?thesis
    by (simp add: carol_request_def)
qed

text \<open>
  The number of users online is exact while there are at most 10000 users. For every
  order of the listing, \<open>GetOnlineCount\<close> returns without panic the number of live users
  whose online flag is set.
\<close>

theorem online_count_exact:
  assumes "store_inv s" and "iter_order ord (ms_users s)"
    and "card {i. \<exists>u. ms_users s i = Some u \<and> live u} \<le> 10000"
  shows "GetOnlineCount (store_api lower) ord s =
           Some (Inr (int (card {i. \<exists>u. ms_users s i = Some u \<and> live u \<and> u_IsOnline u})))"
  using mem.online_count [OF assms] .

theorem online_count_exact_witness:
  "GetOnlineCount (store_api ascii_ToLower) [''u1''] alice_store =
     Some (Inr (int (card {i. \<exists>u. ms_users alice_store i = Some u \<and> live u \<and> u_IsOnline u})))"
proof (rule online_count_exact)
  show "iter_order [''u1''] (ms_users alice_store)" by (simp add: iter_order_def alice_store_eq)
  have "{i. \<exists>u. ms_users alice_store i = Some u \<and> live u} \<subseteq> {''u1''}"
    by (auto simp: alice_store_eq split: if_splits)
  then have "card {i. \<exists>u. ms_users alice_store i = Some u \<and> live u} \<le> card {''u1''}"
    by (intro card_mono) simp_all
  then show "card {i. \<exists>u. ms_users alice_store i = Some u \<and> live u} \<le> 10000" by simp
qed simp


section \<open>Two surprises in updating a user\<close>

text \<open>Updating a profile marks the user offline: the request carries no online flag, and the
  store copies the flag of the partial user it is given.\<close>

theorem profile_update_signs_user_off:
  assumes "UpdateUser (store_api lower) now i req s = (Inr v, s')"
  shows "\<not> u_IsOnline v"
  using assms
  by (auto simp: UpdateUser_def MemoryStore_Update_eq MemoryStore_GetByID_def merge_user_def Let_def tbl_get_Inr
      split: sum.splits if_splits)

text \<open>An update that sets the status to deleted is carried out and reported as not found.\<close>

theorem update_to_deleted_reports_not_found:
  assumes "store_inv s" and "ms_users s i = Some u" and "live u" and "uu_Status req = UserStatusDeleted" and "uu_Email req = []"
  shows "fst (UpdateUser (store_api lower) now i req s) = Inl ErrUserNotFound \<and>
         (\<exists>v. ms_users (snd (UpdateUser (store_api lower) now i req s)) i = Some v \<and> u_Status v = UserStatusDeleted)"
  using assms
  by (simp add: UpdateUser_def MemoryStore_Update_eq MemoryStore_GetByID_def merge_user_def Let_def tbl_get_def
      UserStatusDeleted_def)

end
