(* ===== verification/Membership.thy ===== *)
theory Membership
  imports Model
begin

text \<open>
  Both directory stores keep each membership twice: under the group (or organization) and
  under the user. This theory holds what the two stores share: the predicate \<open>mirror\<close>, which
  says that the two maps hold the same memberships, each pair of a group and a user at most
  once, and that the three ways of changing the maps keep it. \<open>own\<close> and \<open>mem\<close> read the
  group and the user of a membership.
\<close>

type_synonym 'r index = "string \<rightharpoonup> 'r list"

definition mirror :: "('r \<Rightarrow> string) \<Rightarrow> ('r \<Rightarrow> string) \<Rightarrow> 'r index \<Rightarrow> 'r index \<Rightarrow> bool" where
  "mirror own mem M U \<longleftrightarrow>
     (\<forall>g r. r \<in> set (slice_at M g) \<longleftrightarrow> own r = g \<and> r \<in> set (slice_at U (mem r))) \<and>
     (\<forall>u r. r \<in> set (slice_at U u) \<longrightarrow> mem r = u) \<and>
     (\<forall>g. distinct (map mem (slice_at M g))) \<and>
     (\<forall>u. distinct (map own (slice_at U u)))"

definition memberships :: "'r index \<Rightarrow> 'r set" where
  "memberships M = (\<Union>g. set (slice_at M g))"

lemma in_memberships: "r \<in> memberships M \<longleftrightarrow> (\<exists>g. r \<in> set (slice_at M g))"
  by (simp add: memberships_def)

lemma mirror_empty: "mirror own mem (\<lambda>_. None) (\<lambda>_. None)"
  by (simp add: mirror_def)

lemma mirrorD:
  assumes "mirror own mem M U"
  shows mirror_M: "r \<in> set (slice_at M g) \<longleftrightarrow> own r = g \<and> r \<in> set (slice_at U (mem r))"
    and mirror_U: "r \<in> set (slice_at U u) \<Longrightarrow> mem r = u"
    and mirror_distinct_M: "distinct (map mem (slice_at M g))"
    and mirror_distinct_U: "distinct (map own (slice_at U u))"
  using assms unfolding mirror_def by blast+

lemma mirrorI:
  assumes "\<And>g r. r \<in> set (slice_at M g) \<longleftrightarrow> own r = g \<and> r \<in> set (slice_at U (mem r))"
    and "\<And>u r. r \<in> set (slice_at U u) \<Longrightarrow> mem r = u"
    and "\<And>g. distinct (map mem (slice_at M g))"
    and "\<And>u. distinct (map own (slice_at U u))"
  shows "mirror own mem M U"
  using assms unfolding mirror_def by blast

lemma mirror_memberships:
  assumes "mirror own mem M U"
  shows "r \<in> memberships M \<longleftrightarrow> r \<in> set (slice_at M (own r))"
    and "r \<in> memberships M \<longleftrightarrow> r \<in> set (slice_at U (mem r))"
  by (auto simp: in_memberships mirror_M [OF assms])

text \<open>A pair of a group and a user has at most one membership.\<close>

lemma mirror_key:
  assumes mir: "mirror own mem M U" and "r \<in> memberships M" and "r' \<in> memberships M"
    and "own r = own r'" and "mem r = mem r'"
  shows "r = r'"
proof -
  have "r \<in> set (slice_at M (own r))" and "r' \<in> set (slice_at M (own r))"
    using assms(2-4) mirror_memberships(1) [OF mir] by metis+
  with assms(5) mirror_distinct_M [OF mir, of "own r"] show ?thesis
    by (auto simp: distinct_map dest: inj_onD)
qed

text \<open>Adding a membership to the end of both lists.\<close>

lemma mirror_add:
  assumes mir: "mirror own mem M U"
    and new: "mem r \<notin> mem ` set (slice_at M (own r))"
  shows "mirror own mem (M(own r \<mapsto> slice_at M (own r) @ [r])) (U(mem r \<mapsto> slice_at U (mem r) @ [r]))"
proof -
  have "own r \<notin> own ` set (slice_at U (mem r))"
  proof
    assume "own r \<in> own ` set (slice_at U (mem r))"
    then obtain r' where r': "r' \<in> set (slice_at U (mem r))" "own r' = own r" by auto
    then have "r' \<in> set (slice_at M (own r))" and "mem r' = mem r"
      using mirror_U [OF mir] mirror_M [OF mir] by auto
    with new show False by (metis image_eqI)
  qed
  with new mirrorD [OF mir] show ?thesis
    unfolding mirror_def by auto
qed

text \<open>Removing the membership of one user in one group.\<close>

lemma mirror_remove:
  assumes mir: "mirror own mem M U"
  shows "mirror own mem (M(g \<mapsto> filter (\<lambda>r. mem r \<noteq> u) (slice_at M g)))
                        (U(u \<mapsto> filter (\<lambda>r. own r \<noteq> g) (slice_at U u)))"
proof (rule mirrorI, goal_cases)
  case (1 h r)
  then show ?case by (auto simp: mirror_M [OF mir] mirror_U [OF mir])
next
  case (2 v r)
  then show ?case by (auto split: if_splits dest: mirror_U [OF mir])
qed (simp_all add: mirror_distinct_M [OF mir] mirror_distinct_U [OF mir] distinct_map_filter)

lemma memberships_remove:
  assumes mir: "mirror own mem M U"
  shows "memberships (M(g \<mapsto> filter (\<lambda>r. mem r \<noteq> u) (slice_at M g))) =
           {r \<in> memberships M. \<not> (own r = g \<and> mem r = u)}"
  by (auto simp: memberships_def mirror_M [OF mir] split: if_splits)

lemma memberships_add:
  "memberships (M(g \<mapsto> slice_at M g @ [r])) = insert r (memberships M)"
  by (auto simp: memberships_def split: if_splits)

text \<open>
  Removing a whole group: the loop over its memberships takes each one out of the list of
  its user.
\<close>

definition remove_from_user :: "('r \<Rightarrow> string) \<Rightarrow> string \<Rightarrow> string \<Rightarrow> 'r index \<Rightarrow> 'r index" where
  "remove_from_user own u g U = U(u \<mapsto> filter (\<lambda>r. own r \<noteq> g) (slice_at U u))"

lemma slice_at_remove_loop:
  "slice_at (fold (\<lambda>r. remove_from_user own (mem r) g) rs U) u =
     (if u \<in> mem ` set rs then filter (\<lambda>r. own r \<noteq> g) (slice_at U u) else slice_at U u)"
  by (induction rs arbitrary: U) (auto simp: remove_from_user_def)

lemma slice_at_remove_group:
  assumes mir: "mirror own mem M U"
  shows "slice_at (fold (\<lambda>r. remove_from_user own (mem r) g) (slice_at M g) U) u =
           filter (\<lambda>r. own r \<noteq> g) (slice_at U u)"
proof (cases "u \<in> mem ` set (slice_at M g)")
  case False
  have "own r \<noteq> g" if "r \<in> set (slice_at U u)" for r
  proof
    assume "own r = g"
    with that have "r \<in> set (slice_at M g)" and "mem r = u"
      using mirror_U [OF mir that] mirror_M [OF mir] by auto
    with False show False by auto
  qed
  then have "filter (\<lambda>r. own r \<noteq> g) (slice_at U u) = slice_at U u" by simp
  with False show ?thesis by (simp add: slice_at_remove_loop)
qed (simp add: slice_at_remove_loop)

lemma mirror_remove_group:
  assumes mir: "mirror own mem M U"
  shows "mirror own mem (M(g := None)) (fold (\<lambda>r. remove_from_user own (mem r) g) (slice_at M g) U)"
proof (rule mirrorI, goal_cases)
  case (1 h r)
  then show ?case by (auto simp: slice_at_remove_group [OF mir] mirror_M [OF mir])
next
  case (2 v r)
  then show ?case by (auto simp: slice_at_remove_group [OF mir] dest: mirror_U [OF mir])
qed (simp_all add: slice_at_remove_group [OF mir] mirror_distinct_M [OF mir]
    mirror_distinct_U [OF mir] distinct_map_filter)

lemma memberships_remove_group:
  assumes mir: "mirror own mem M U"
  shows "memberships (M(g := None)) = {r \<in> memberships M. own r \<noteq> g}"
  by (auto simp: memberships_def mirror_M [OF mir] split: if_splits)

end
