(* ===== verification/Org_Store.thy ===== *)
theory Org_Store
  imports Membership
begin

text \<open>
  The interface \<open>OrgStore\<close> and its implementation \<open>MemoryOrgStore\<close> of
  \<open>internal/directory\<close>. Every method holds the store's mutex from its first to its last
  statement, so each is one atomic step here. \<open>org_inv\<close> is the invariant of the store: ids
  match their keys, the two membership maps mirror each other and memberships belong to
  existing organizations. \<open>org_store_contract\<close> is what the directory service relies on.
\<close>

section \<open>The interface\<close>

record 's OrgStore =
  os_Create :: "time \<Rightarrow> Organization \<Rightarrow> 's \<Rightarrow> Organization result \<times> 's"
  os_GetByID :: "string \<Rightarrow> 's \<Rightarrow> Organization result"
  os_Update :: "time \<Rightarrow> Organization \<Rightarrow> 's \<Rightarrow> unit result \<times> 's"
  os_Delete :: "string \<Rightarrow> 's \<Rightarrow> unit result \<times> 's"
  os_List :: "string list \<Rightarrow> int \<Rightarrow> int \<Rightarrow> 's \<Rightarrow> (Organization list \<times> int) result option"
  os_ListChildren :: "string list \<Rightarrow> string \<Rightarrow> 's \<Rightarrow> Organization list result"
  os_AddMember :: "UserOrgRelation \<Rightarrow> 's \<Rightarrow> unit result \<times> 's"
  os_RemoveMember :: "string \<Rightarrow> string \<Rightarrow> 's \<Rightarrow> unit result \<times> 's"
  os_ListMembers :: "string \<Rightarrow> 's \<Rightarrow> UserOrgRelation list result"
  os_GetUserOrgs :: "string \<Rightarrow> 's \<Rightarrow> UserOrgRelation list result"


section \<open>MemoryOrgStore\<close>

record MemoryOrgStore =
  mo_orgs :: "string \<rightharpoonup> Organization"
  mo_members :: "UserOrgRelation index"
  mo_userOrgs :: "UserOrgRelation index"

definition NewMemoryOrgStore :: MemoryOrgStore where
  "NewMemoryOrgStore = \<lparr>mo_orgs = Map.empty, mo_members = Map.empty, mo_userOrgs = Map.empty\<rparr>"

definition MemoryOrgStore_Create ::
  "time \<Rightarrow> Organization \<Rightarrow> MemoryOrgStore \<Rightarrow> Organization result \<times> MemoryOrgStore" where
  "MemoryOrgStore_Create now org s =
     (if mo_orgs s (o_ID org) \<noteq> None then (Inl ErrOrgAlreadyExists, s)
      else let org = org\<lparr>o_CreatedAt := now, o_UpdatedAt := now\<rparr>
           in if o_ParentID org = []
              then let org = org\<lparr>o_Path := ''/'' @ o_ID org\<rparr>
                   in (Inr org, s\<lparr>mo_orgs := (mo_orgs s)(o_ID org \<mapsto> org)\<rparr>)
              else case mo_orgs s (o_ParentID org) of
                     None \<Rightarrow> (Inl (Errorf (''parent organization '' @ o_ParentID org @ '' not found'')), s)
                   | Some parent \<Rightarrow>
                       let org = org\<lparr>o_Path := o_Path parent @ ''/'' @ o_ID org\<rparr>
                       in (Inr org, s\<lparr>mo_orgs := (mo_orgs s)(o_ID org \<mapsto> org)\<rparr>))"

definition MemoryOrgStore_GetByID :: "string \<Rightarrow> MemoryOrgStore \<Rightarrow> Organization result" where
  "MemoryOrgStore_GetByID oid s =
     (case mo_orgs s oid of None \<Rightarrow> Inl ErrOrgNotFound | Some org \<Rightarrow> Inr org)"

definition merge_org :: "time \<Rightarrow> Organization \<Rightarrow> Organization \<Rightarrow> Organization" where
  "merge_org now org existing =
     (let existing = (if o_Name org \<noteq> [] then existing\<lparr>o_Name := o_Name org\<rparr> else existing);
          existing = (if o_ParentID org \<noteq> [] then existing\<lparr>o_ParentID := o_ParentID org\<rparr> else existing)
      in existing\<lparr>o_UpdatedAt := now\<rparr>)"

definition MemoryOrgStore_Update ::
  "time \<Rightarrow> Organization \<Rightarrow> MemoryOrgStore \<Rightarrow> unit result \<times> MemoryOrgStore" where
  "MemoryOrgStore_Update now org s =
     (case mo_orgs s (o_ID org) of
        None \<Rightarrow> (Inl ErrOrgNotFound, s)
      | Some existing \<Rightarrow>
          (Inr (), s\<lparr>mo_orgs := (mo_orgs s)(o_ID org \<mapsto> merge_org now org existing)\<rparr>))"

definition removeUserOrgRelation :: "string \<Rightarrow> string \<Rightarrow> MemoryOrgStore \<Rightarrow> MemoryOrgStore" where
  "removeUserOrgRelation userID orgID s =
     (let rels = slice_at (mo_userOrgs s) userID;
          kept = filter (\<lambda>r. r_OrgID r \<noteq> orgID) rels
      in s\<lparr>mo_userOrgs := (mo_userOrgs s)(userID \<mapsto> kept)\<rparr>)"

definition MemoryOrgStore_Delete :: "string \<Rightarrow> MemoryOrgStore \<Rightarrow> unit result \<times> MemoryOrgStore" where
  "MemoryOrgStore_Delete oid s =
     (if mo_orgs s oid = None then (Inl ErrOrgNotFound, s)
      else let s = fold (\<lambda>rel. removeUserOrgRelation (r_UserID rel) oid) (slice_at (mo_members s) oid) s
           in (Inr (), s\<lparr>mo_members := (mo_members s)(oid := None),
                         mo_orgs := (mo_orgs s)(oid := None)\<rparr>))"

definition MemoryOrgStore_List ::
  "string list \<Rightarrow> int \<Rightarrow> int \<Rightarrow> MemoryOrgStore \<Rightarrow> (Organization list \<times> int) result option" where
  "MemoryOrgStore_List ord offset limit s =
     map_option Inr (paginate offset limit (range_values ord (mo_orgs s)))"

definition MemoryOrgStore_ListChildren ::
  "string list \<Rightarrow> string \<Rightarrow> MemoryOrgStore \<Rightarrow> Organization list result" where
  "MemoryOrgStore_ListChildren ord parentID s =
     Inr (filter (\<lambda>org. o_ParentID org = parentID) (range_values ord (mo_orgs s)))"

definition MemoryOrgStore_AddMember ::
  "UserOrgRelation \<Rightarrow> MemoryOrgStore \<Rightarrow> unit result \<times> MemoryOrgStore" where
  "MemoryOrgStore_AddMember rel s =
     (if mo_orgs s (r_OrgID rel) = None then (Inl ErrOrgNotFound, s)
      else if list_ex (\<lambda>r. r_UserID r = r_UserID rel) (slice_at (mo_members s) (r_OrgID rel))
      then (Inl ErrMemberExists, s)
      else (Inr (), s\<lparr>mo_members := (mo_members s)
                        (r_OrgID rel \<mapsto> slice_at (mo_members s) (r_OrgID rel) @ [rel]),
                      mo_userOrgs := (mo_userOrgs s)
                        (r_UserID rel \<mapsto> slice_at (mo_userOrgs s) (r_UserID rel) @ [rel])\<rparr>))"

definition MemoryOrgStore_RemoveMember ::
  "string \<Rightarrow> string \<Rightarrow> MemoryOrgStore \<Rightarrow> unit result \<times> MemoryOrgStore" where
  "MemoryOrgStore_RemoveMember orgID userID s =
     (let rels = slice_at (mo_members s) orgID;
          kept = filter (\<lambda>r. r_UserID r \<noteq> userID) rels;
          found = list_ex (\<lambda>r. r_UserID r = userID) rels
      in if \<not> found then (Inl ErrMemberNotFound, s)
         else (Inr (), removeUserOrgRelation userID orgID
                         (s\<lparr>mo_members := (mo_members s)(orgID \<mapsto> kept)\<rparr>)))"

definition MemoryOrgStore_ListMembers :: "string \<Rightarrow> MemoryOrgStore \<Rightarrow> UserOrgRelation list result" where
  "MemoryOrgStore_ListMembers orgID s =
     (if mo_orgs s orgID = None then Inl ErrOrgNotFound
      else Inr (slice_at (mo_members s) orgID))"

definition MemoryOrgStore_GetUserOrgs :: "string \<Rightarrow> MemoryOrgStore \<Rightarrow> UserOrgRelation list result" where
  "MemoryOrgStore_GetUserOrgs userID s = Inr (slice_at (mo_userOrgs s) userID)"

definition MemoryOrgStore_Store :: "MemoryOrgStore OrgStore" where
  "MemoryOrgStore_Store = \<lparr>
     os_Create = MemoryOrgStore_Create,
     os_GetByID = MemoryOrgStore_GetByID,
     os_Update = MemoryOrgStore_Update,
     os_Delete = MemoryOrgStore_Delete,
     os_List = MemoryOrgStore_List,
     os_ListChildren = MemoryOrgStore_ListChildren,
     os_AddMember = MemoryOrgStore_AddMember,
     os_RemoveMember = MemoryOrgStore_RemoveMember,
     os_ListMembers = MemoryOrgStore_ListMembers,
     os_GetUserOrgs = MemoryOrgStore_GetUserOrgs\<rparr>"

lemma MemoryOrgStore_Store_simps [simp]:
  "os_Create MemoryOrgStore_Store = MemoryOrgStore_Create"
  "os_GetByID MemoryOrgStore_Store = MemoryOrgStore_GetByID"
  "os_Update MemoryOrgStore_Store = MemoryOrgStore_Update"
  "os_Delete MemoryOrgStore_Store = MemoryOrgStore_Delete"
  "os_List MemoryOrgStore_Store = MemoryOrgStore_List"
  "os_ListChildren MemoryOrgStore_Store = MemoryOrgStore_ListChildren"
  "os_AddMember MemoryOrgStore_Store = MemoryOrgStore_AddMember"
  "os_RemoveMember MemoryOrgStore_Store = MemoryOrgStore_RemoveMember"
  "os_ListMembers MemoryOrgStore_Store = MemoryOrgStore_ListMembers"
  "os_GetUserOrgs MemoryOrgStore_Store = MemoryOrgStore_GetUserOrgs"
  by (simp_all add: MemoryOrgStore_Store_def)

lemmas memory_org_store_defs [op_defs] =
  MemoryOrgStore_Create_def MemoryOrgStore_GetByID_def MemoryOrgStore_Update_def
  MemoryOrgStore_Delete_def MemoryOrgStore_List_def MemoryOrgStore_ListChildren_def
  MemoryOrgStore_AddMember_def MemoryOrgStore_RemoveMember_def
  MemoryOrgStore_ListMembers_def MemoryOrgStore_GetUserOrgs_def


section \<open>The invariant\<close>

definition org_inv :: "MemoryOrgStore \<Rightarrow> bool" where
  "org_inv s \<longleftrightarrow>
     (\<forall>i org. mo_orgs s i = Some org \<longrightarrow> o_ID org = i) \<and>
     mirror r_OrgID r_UserID (mo_members s) (mo_userOrgs s) \<and>
     (\<forall>i. mo_orgs s i = None \<longrightarrow> slice_at (mo_members s) i = [])"

lemma org_invD:
  assumes "org_inv s"
  shows org_inv_id: "mo_orgs s i = Some org \<Longrightarrow> o_ID org = i"
    and org_inv_mirror: "mirror r_OrgID r_UserID (mo_members s) (mo_userOrgs s)"
    and org_inv_owner: "r \<in> set (slice_at (mo_members s) i) \<Longrightarrow> \<exists>org. mo_orgs s i = Some org"
  using assms unfolding org_inv_def by auto

lemma merge_org_simps [simp]:
  "o_ID (merge_org now org old) = o_ID old"
  "o_Path (merge_org now org old) = o_Path old"
  "o_Name (merge_org now org old) = (if o_Name org = [] then o_Name old else o_Name org)"
  "o_ParentID (merge_org now org old) = (if o_ParentID org = [] then o_ParentID old else o_ParentID org)"
  "o_CreatedAt (merge_org now org old) = o_CreatedAt old"
  "o_UpdatedAt (merge_org now org old) = now"
  by (simp_all add: merge_org_def Let_def)

text \<open>The loop of \<open>Delete\<close> changes the users' lists only.\<close>

lemma removeUserOrgRelation_eq:
  "removeUserOrgRelation u g s = s\<lparr>mo_userOrgs := remove_from_user r_OrgID u g (mo_userOrgs s)\<rparr>"
  by (simp add: removeUserOrgRelation_def remove_from_user_def)

lemma fold_removeUserOrgRelation:
  "fold (\<lambda>rel. removeUserOrgRelation (r_UserID rel) g) rs s =
     s\<lparr>mo_userOrgs := fold (\<lambda>rel. remove_from_user r_OrgID (r_UserID rel) g) rs (mo_userOrgs s)\<rparr>"
  by (induction rs arbitrary: s) (simp_all add: removeUserOrgRelation_eq)

lemma org_inv_New [inv_preserved]: "org_inv NewMemoryOrgStore"
  by (simp add: org_inv_def NewMemoryOrgStore_def mirror_empty)

lemma org_inv_put:
  assumes "org_inv s" and "o_ID org = i"
  shows "org_inv (s\<lparr>mo_orgs := (mo_orgs s)(i \<mapsto> org)\<rparr>)"
  using assms unfolding org_inv_def by auto

lemma org_inv_Create [inv_preserved]: "org_inv s \<Longrightarrow> org_inv (snd (MemoryOrgStore_Create now org s))"
  by (auto simp: MemoryOrgStore_Create_def Let_def intro: org_inv_put split: option.split)

lemma org_inv_Update [inv_preserved]: "org_inv s \<Longrightarrow> org_inv (snd (MemoryOrgStore_Update now org s))"
  by (auto simp: MemoryOrgStore_Update_def intro!: org_inv_put dest: org_inv_id split: option.split)

lemma org_inv_Delete [inv_preserved]:
  assumes "org_inv s"
  shows "org_inv (snd (MemoryOrgStore_Delete g s))"
  using assms mirror_remove_group [OF org_inv_mirror [OF assms], of g]
  by (auto simp: MemoryOrgStore_Delete_def Let_def fold_removeUserOrgRelation org_inv_def)

lemma org_inv_AddMember [inv_preserved]:
  assumes "org_inv s"
  shows "org_inv (snd (MemoryOrgStore_AddMember rel s))"
proof (cases "mo_orgs s (r_OrgID rel) = None \<or>
    list_ex (\<lambda>r. r_UserID r = r_UserID rel) (slice_at (mo_members s) (r_OrgID rel))")
  case True
  with assms show ?thesis by (auto simp: MemoryOrgStore_AddMember_def)
next
  case False
  then have "r_UserID rel \<notin> r_UserID ` set (slice_at (mo_members s) (r_OrgID rel))"
    by (auto simp: list_ex_iff)
  from mirror_add [OF org_inv_mirror [OF assms] this] False assms show ?thesis
    by (auto simp: MemoryOrgStore_AddMember_def org_inv_def)
qed

lemma org_inv_RemoveMember [inv_preserved]:
  assumes "org_inv s"
  shows "org_inv (snd (MemoryOrgStore_RemoveMember g u s))"
  using assms mirror_remove [OF org_inv_mirror [OF assms], of g u]
  by (auto simp: MemoryOrgStore_RemoveMember_def Let_def removeUserOrgRelation_eq
      remove_from_user_def org_inv_def)



section \<open>The contract of an organization store\<close>

text \<open>
  The abstract store: the organizations by id, and the set of memberships, in which a pair
  of an organization and a user occurs at most once.
\<close>

locale org_store_contract =
  fixes st :: "'s OrgStore"
    and invar :: "'s \<Rightarrow> bool"
    and orgs :: "'s \<Rightarrow> (string \<rightharpoonup> Organization)"
    and rels :: "'s \<Rightarrow> UserOrgRelation set"
  assumes rels_key: "invar s \<Longrightarrow> r \<in> rels s \<Longrightarrow> r' \<in> rels s \<Longrightarrow>
           r_OrgID r = r_OrgID r' \<Longrightarrow> r_UserID r = r_UserID r' \<Longrightarrow> r = r'"
    and rels_org: "invar s \<Longrightarrow> r \<in> rels s \<Longrightarrow> orgs s (r_OrgID r) \<noteq> None"
    and org_ids: "invar s \<Longrightarrow> orgs s i = Some org \<Longrightarrow> o_ID org = i"
    and get_by_id: "os_GetByID st i s =
           (case orgs s i of None \<Rightarrow> Inl ErrOrgNotFound | Some org \<Rightarrow> Inr org)"
    and create_ok: "os_Create st now v s = (Inr org, s') \<Longrightarrow>
           orgs s (o_ID v) = None \<and> o_ID org = o_ID v \<and> o_Name org = o_Name v \<and>
           orgs s' = (orgs s)(o_ID v \<mapsto> org) \<and> rels s' = rels s"
    and create_err: "os_Create st now v s = (Inl err, s') \<Longrightarrow> s' = s"
    and update_ok: "os_Update st now v s = (Inr (), s') \<Longrightarrow> \<exists>old. orgs s (o_ID v) = Some old \<and>
           orgs s' = (orgs s)(o_ID v \<mapsto> merge_org now v old) \<and> rels s' = rels s"
    and update_err: "os_Update st now v s = (Inl err, s') \<Longrightarrow> err = ErrOrgNotFound \<and> orgs s (o_ID v) = None \<and> s' = s"
    and delete_ok: "invar s \<Longrightarrow> os_Delete st i s = (Inr (), s') \<Longrightarrow>
           orgs s i \<noteq> None \<and> orgs s' = (orgs s)(i := None) \<and> rels s' = {r \<in> rels s. r_OrgID r \<noteq> i}"
    and delete_err: "os_Delete st i s = (Inl err, s') \<Longrightarrow> err = ErrOrgNotFound \<and> orgs s i = None \<and> s' = s"
    and add_ok: "invar s \<Longrightarrow> os_AddMember st r s = (Inr (), s') \<Longrightarrow>
           orgs s (r_OrgID r) \<noteq> None \<and>
           (\<forall>r' \<in> rels s. \<not> (r_OrgID r' = r_OrgID r \<and> r_UserID r' = r_UserID r)) \<and>
           orgs s' = orgs s \<and> rels s' = insert r (rels s)"
    and add_err: "invar s \<Longrightarrow> os_AddMember st r s = (Inl err, s') \<Longrightarrow> s' = s \<and>
           (if orgs s (r_OrgID r) = None then err = ErrOrgNotFound
            else err = ErrMemberExists \<and>
              (\<exists>r' \<in> rels s. r_OrgID r' = r_OrgID r \<and> r_UserID r' = r_UserID r))"
    and remove_ok: "invar s \<Longrightarrow> os_RemoveMember st i u s = (Inr (), s') \<Longrightarrow>
           (\<exists>r \<in> rels s. r_OrgID r = i \<and> r_UserID r = u) \<and> orgs s' = orgs s \<and>
           rels s' = {r \<in> rels s. \<not> (r_OrgID r = i \<and> r_UserID r = u)}"
    and remove_err: "invar s \<Longrightarrow> os_RemoveMember st i u s = (Inl err, s') \<Longrightarrow>
           err = ErrMemberNotFound \<and> s' = s \<and> (\<forall>r \<in> rels s. \<not> (r_OrgID r = i \<and> r_UserID r = u))"
    and list_members: "invar s \<Longrightarrow> os_ListMembers st i s = Inr rs \<Longrightarrow>
           orgs s i \<noteq> None \<and> set rs = {r \<in> rels s. r_OrgID r = i} \<and> distinct (map r_UserID rs)"
    and list_members_err: "os_ListMembers st i s = Inl err \<Longrightarrow> err = ErrOrgNotFound \<and> orgs s i = None"
    and get_user_orgs: "invar s \<Longrightarrow> \<exists>rs. os_GetUserOrgs st u s = Inr rs \<and>
           set rs = {r \<in> rels s. r_UserID r = u} \<and> distinct (map r_OrgID rs)"
    and list: "os_List st ord offset limit s = map_option Inr (paginate offset limit (range_values ord (orgs s)))"
    and list_children: "os_ListChildren st ord i s =
           Inr (filter (\<lambda>org. o_ParentID org = i) (range_values ord (orgs s)))"
    and invar_create: "invar s \<Longrightarrow> invar (snd (os_Create st now v s))"
    and invar_update: "invar s \<Longrightarrow> invar (snd (os_Update st now v s))"
    and invar_delete: "invar s \<Longrightarrow> invar (snd (os_Delete st i s))"
    and invar_add: "invar s \<Longrightarrow> invar (snd (os_AddMember st r s))"
    and invar_remove: "invar s \<Longrightarrow> invar (snd (os_RemoveMember st i u s))"

abbreviation org_rels :: "MemoryOrgStore \<Rightarrow> UserOrgRelation set" where
  "org_rels s \<equiv> memberships (mo_members s)"

lemma org_rels_members:
  assumes "org_inv s"
  shows "r \<in> set (slice_at (mo_members s) i) \<longleftrightarrow> r \<in> org_rels s \<and> r_OrgID r = i"
  using org_inv_mirror [OF assms] by (auto simp: in_memberships mirror_M)

lemma org_rels_users:
  assumes "org_inv s"
  shows "r \<in> set (slice_at (mo_userOrgs s) u) \<longleftrightarrow> r \<in> org_rels s \<and> r_UserID r = u"
  using mirror_memberships(2) [OF org_inv_mirror [OF assms]] mirror_U [OF org_inv_mirror [OF assms]]
  by metis

lemma org_member_exists:
  assumes "org_inv s"
  shows "list_ex (\<lambda>r. r_UserID r = u) (slice_at (mo_members s) i) \<longleftrightarrow>
           (\<exists>r \<in> org_rels s. r_OrgID r = i \<and> r_UserID r = u)"
  by (auto simp: list_ex_iff org_rels_members [OF assms])

interpretation mem_org: org_store_contract MemoryOrgStore_Store org_inv mo_orgs org_rels
proof (unfold_locales, goal_cases)
  case 1
  then show ?case by (metis mirror_key org_inv_mirror)
next
  case (2 s r)
  then show ?case using org_rels_members org_inv_owner by fastforce
next
  case 3
  then show ?case by (rule org_inv_id)
next
  case 4
  then show ?case by (simp add: MemoryOrgStore_GetByID_def)
next
  case (5 now v s org s')
  then show ?case
    by (auto simp: MemoryOrgStore_Create_def Let_def split: if_splits option.splits)
next
  case 6
  then show ?case by (auto simp: MemoryOrgStore_Create_def Let_def split: if_splits option.splits)
next
  case 7
  then show ?case by (auto simp: MemoryOrgStore_Update_def split: option.splits)
next
  case 8
  then show ?case by (auto simp: MemoryOrgStore_Update_def split: option.splits)
next
  case (9 s i s')
  then show ?case
    by (auto simp: MemoryOrgStore_Delete_def Let_def fold_removeUserOrgRelation
        memberships_remove_group [OF org_inv_mirror] split: if_splits)
next
  case 10
  then show ?case by (auto simp: MemoryOrgStore_Delete_def Let_def split: if_splits)
next
  case 11
  then show ?case
    by (auto simp: MemoryOrgStore_AddMember_def org_member_exists memberships_add split: if_splits)
next
  case 12
  then show ?case by (auto simp: MemoryOrgStore_AddMember_def org_member_exists split: if_splits)
next
  case 13
  then show ?case
    by (auto simp: MemoryOrgStore_RemoveMember_def Let_def org_member_exists removeUserOrgRelation_eq
        memberships_remove [OF org_inv_mirror] split: if_splits)
next
  case 14
  then show ?case
    by (auto simp: MemoryOrgStore_RemoveMember_def Let_def org_member_exists split: if_splits)
next
  case (15 s i rs)
  then show ?case
    by (auto simp: MemoryOrgStore_ListMembers_def org_rels_members
        mirror_distinct_M [OF org_inv_mirror] split: if_splits)
next
  case 16
  then show ?case by (auto simp: MemoryOrgStore_ListMembers_def split: if_splits)
next
  case 17
  then show ?case
    by (auto simp: MemoryOrgStore_GetUserOrgs_def org_rels_users mirror_distinct_U [OF org_inv_mirror])
next
  case 18
  then show ?case by (simp add: MemoryOrgStore_List_def)
next
  case 19
  then show ?case by (simp add: MemoryOrgStore_ListChildren_def)
qed (simp_all add: inv_preserved)

end
