(* ===== verification/Group_Store.thy ===== *)
theory Group_Store
  imports Membership
begin

text \<open>
  The interface \<open>GroupStore\<close> and its implementation \<open>MemoryGroupStore\<close> of
  \<open>internal/directory\<close>: the methods run under the store's mutex, so each is one atomic
  step. The state, the invariant \<open>grp_inv\<close> and the contract have the shape of those of
  the organizations, without a hierarchy and with a time of joining.
\<close>

section \<open>The interface\<close>

record 's GroupStore =
  gs_Create :: "time \<Rightarrow> Group \<Rightarrow> 's \<Rightarrow> Group result \<times> 's"
  gs_GetByID :: "string \<Rightarrow> 's \<Rightarrow> Group result"
  gs_Update :: "time \<Rightarrow> Group \<Rightarrow> 's \<Rightarrow> unit result \<times> 's"
  gs_Delete :: "string \<Rightarrow> 's \<Rightarrow> unit result \<times> 's"
  gs_List :: "string list \<Rightarrow> int \<Rightarrow> int \<Rightarrow> 's \<Rightarrow> (Group list \<times> int) result option"
  gs_AddMember :: "time \<Rightarrow> GroupMember \<Rightarrow> 's \<Rightarrow> GroupMember result \<times> 's"
  gs_RemoveMember :: "string \<Rightarrow> string \<Rightarrow> 's \<Rightarrow> unit result \<times> 's"
  gs_ListMembers :: "string \<Rightarrow> 's \<Rightarrow> GroupMember list result"
  gs_GetUserGroups :: "string \<Rightarrow> 's \<Rightarrow> GroupMember list result"


section \<open>MemoryGroupStore\<close>

record MemoryGroupStore =
  mg_groups :: "string \<rightharpoonup> Group"
  mg_members :: "GroupMember index"
  mg_userGroups :: "GroupMember index"

definition NewMemoryGroupStore :: MemoryGroupStore where
  "NewMemoryGroupStore = \<lparr>mg_groups = Map.empty, mg_members = Map.empty, mg_userGroups = Map.empty\<rparr>"

definition MemoryGroupStore_Create ::
  "time \<Rightarrow> Group \<Rightarrow> MemoryGroupStore \<Rightarrow> Group result \<times> MemoryGroupStore" where
  "MemoryGroupStore_Create now grp s =
     (if mg_groups s (g_ID grp) \<noteq> None then (Inl (Errorf ''group already exists''), s)
      else let grp = grp\<lparr>g_CreatedAt := now, g_UpdatedAt := now\<rparr>
           in (Inr grp, s\<lparr>mg_groups := (mg_groups s)(g_ID grp \<mapsto> grp)\<rparr>))"

definition MemoryGroupStore_GetByID :: "string \<Rightarrow> MemoryGroupStore \<Rightarrow> Group result" where
  "MemoryGroupStore_GetByID gid s =
     (case mg_groups s gid of None \<Rightarrow> Inl ErrGroupNotFound | Some g \<Rightarrow> Inr g)"

definition merge_group :: "time \<Rightarrow> Group \<Rightarrow> Group \<Rightarrow> Group" where
  "merge_group now grp existing =
     (let existing = (if g_Name grp \<noteq> [] then existing\<lparr>g_Name := g_Name grp\<rparr> else existing);
          existing = (if g_Description grp \<noteq> []
                      then existing\<lparr>g_Description := g_Description grp\<rparr> else existing);
          existing = (if g_Type grp \<noteq> [] then existing\<lparr>g_Type := g_Type grp\<rparr> else existing)
      in existing\<lparr>g_UpdatedAt := now\<rparr>)"

definition MemoryGroupStore_Update ::
  "time \<Rightarrow> Group \<Rightarrow> MemoryGroupStore \<Rightarrow> unit result \<times> MemoryGroupStore" where
  "MemoryGroupStore_Update now grp s =
     (case mg_groups s (g_ID grp) of
        None \<Rightarrow> (Inl ErrGroupNotFound, s)
      | Some existing \<Rightarrow>
          (Inr (), s\<lparr>mg_groups := (mg_groups s)(g_ID grp \<mapsto> merge_group now grp existing)\<rparr>))"

definition removeUserGroupRelation :: "string \<Rightarrow> string \<Rightarrow> MemoryGroupStore \<Rightarrow> MemoryGroupStore" where
  "removeUserGroupRelation userID groupID s =
     (let members = slice_at (mg_userGroups s) userID;
          kept = filter (\<lambda>m. m_GroupID m \<noteq> groupID) members
      in s\<lparr>mg_userGroups := (mg_userGroups s)(userID \<mapsto> kept)\<rparr>)"

definition MemoryGroupStore_Delete :: "string \<Rightarrow> MemoryGroupStore \<Rightarrow> unit result \<times> MemoryGroupStore" where
  "MemoryGroupStore_Delete gid s =
     (if mg_groups s gid = None then (Inl ErrGroupNotFound, s)
      else let s = fold (\<lambda>m. removeUserGroupRelation (m_UserID m) gid) (slice_at (mg_members s) gid) s
           in (Inr (), s\<lparr>mg_members := (mg_members s)(gid := None),
                         mg_groups := (mg_groups s)(gid := None)\<rparr>))"

definition MemoryGroupStore_List ::
  "string list \<Rightarrow> int \<Rightarrow> int \<Rightarrow> MemoryGroupStore \<Rightarrow> (Group list \<times> int) result option" where
  "MemoryGroupStore_List ord offset limit s =
     map_option Inr (paginate offset limit (range_values ord (mg_groups s)))"

definition MemoryGroupStore_AddMember ::
  "time \<Rightarrow> GroupMember \<Rightarrow> MemoryGroupStore \<Rightarrow> GroupMember result \<times> MemoryGroupStore" where
  "MemoryGroupStore_AddMember now member s =
     (if mg_groups s (m_GroupID member) = None then (Inl ErrGroupNotFound, s)
      else if list_ex (\<lambda>m. m_UserID m = m_UserID member) (slice_at (mg_members s) (m_GroupID member))
      then (Inl ErrMemberExists, s)
      else let member = member\<lparr>m_JoinedAt := now\<rparr>
           in (Inr member, s\<lparr>mg_members := (mg_members s)
                        (m_GroupID member \<mapsto> slice_at (mg_members s) (m_GroupID member) @ [member]),
                      mg_userGroups := (mg_userGroups s)
                        (m_UserID member \<mapsto> slice_at (mg_userGroups s) (m_UserID member) @ [member])\<rparr>))"

definition MemoryGroupStore_RemoveMember ::
  "string \<Rightarrow> string \<Rightarrow> MemoryGroupStore \<Rightarrow> unit result \<times> MemoryGroupStore" where
  "MemoryGroupStore_RemoveMember groupID userID s =
     (let rels = slice_at (mg_members s) groupID;
          kept = filter (\<lambda>m. m_UserID m \<noteq> userID) rels;
          found = list_ex (\<lambda>m. m_UserID m = userID) rels
      in if \<not> found then (Inl ErrMemberNotFound, s)
         else (Inr (), removeUserGroupRelation userID groupID
                         (s\<lparr>mg_members := (mg_members s)(groupID \<mapsto> kept)\<rparr>)))"

definition MemoryGroupStore_ListMembers :: "string \<Rightarrow> MemoryGroupStore \<Rightarrow> GroupMember list result" where
  "MemoryGroupStore_ListMembers groupID s =
     (if mg_groups s groupID = None then Inl ErrGroupNotFound
      else Inr (slice_at (mg_members s) groupID))"

definition MemoryGroupStore_GetUserGroups :: "string \<Rightarrow> MemoryGroupStore \<Rightarrow> GroupMember list result" where
  "MemoryGroupStore_GetUserGroups userID s = Inr (slice_at (mg_userGroups s) userID)"

definition MemoryGroupStore_Store :: "MemoryGroupStore GroupStore" where
  "MemoryGroupStore_Store = \<lparr>
     gs_Create = MemoryGroupStore_Create,
     gs_GetByID = MemoryGroupStore_GetByID,
     gs_Update = MemoryGroupStore_Update,
     gs_Delete = MemoryGroupStore_Delete,
     gs_List = MemoryGroupStore_List,
     gs_AddMember = MemoryGroupStore_AddMember,
     gs_RemoveMember = MemoryGroupStore_RemoveMember,
     gs_ListMembers = MemoryGroupStore_ListMembers,
     gs_GetUserGroups = MemoryGroupStore_GetUserGroups\<rparr>"

lemma MemoryGroupStore_Store_simps [simp]:
  "gs_Create MemoryGroupStore_Store = MemoryGroupStore_Create"
  "gs_GetByID MemoryGroupStore_Store = MemoryGroupStore_GetByID"
  "gs_Update MemoryGroupStore_Store = MemoryGroupStore_Update"
  "gs_Delete MemoryGroupStore_Store = MemoryGroupStore_Delete"
  "gs_List MemoryGroupStore_Store = MemoryGroupStore_List"
  "gs_AddMember MemoryGroupStore_Store = MemoryGroupStore_AddMember"
  "gs_RemoveMember MemoryGroupStore_Store = MemoryGroupStore_RemoveMember"
  "gs_ListMembers MemoryGroupStore_Store = MemoryGroupStore_ListMembers"
  "gs_GetUserGroups MemoryGroupStore_Store = MemoryGroupStore_GetUserGroups"
  by (simp_all add: MemoryGroupStore_Store_def)

lemmas memory_group_store_defs [op_defs] =
  MemoryGroupStore_Create_def MemoryGroupStore_GetByID_def MemoryGroupStore_Update_def
  MemoryGroupStore_Delete_def MemoryGroupStore_List_def MemoryGroupStore_AddMember_def
  MemoryGroupStore_RemoveMember_def MemoryGroupStore_ListMembers_def
  MemoryGroupStore_GetUserGroups_def


section \<open>The invariant\<close>

definition grp_inv :: "MemoryGroupStore \<Rightarrow> bool" where
  "grp_inv s \<longleftrightarrow>
     (\<forall>i g. mg_groups s i = Some g \<longrightarrow> g_ID g = i) \<and>
     mirror m_GroupID m_UserID (mg_members s) (mg_userGroups s) \<and>
     (\<forall>i. mg_groups s i = None \<longrightarrow> slice_at (mg_members s) i = [])"

lemma grp_invD:
  assumes "grp_inv s"
  shows grp_inv_id: "mg_groups s i = Some g \<Longrightarrow> g_ID g = i"
    and grp_inv_mirror: "mirror m_GroupID m_UserID (mg_members s) (mg_userGroups s)"
    and grp_inv_owner: "m \<in> set (slice_at (mg_members s) i) \<Longrightarrow> \<exists>g. mg_groups s i = Some g"
  using assms unfolding grp_inv_def by auto

lemma merge_group_simps [simp]:
  "g_ID (merge_group now g old) = g_ID old"
  "g_Name (merge_group now g old) = (if g_Name g = [] then g_Name old else g_Name g)"
  "g_Description (merge_group now g old) = (if g_Description g = [] then g_Description old else g_Description g)"
  "g_Type (merge_group now g old) = (if g_Type g = [] then g_Type old else g_Type g)"
  "g_CreatedAt (merge_group now g old) = g_CreatedAt old"
  "g_UpdatedAt (merge_group now g old) = now"
  by (simp_all add: merge_group_def Let_def)

lemma removeUserGroupRelation_eq:
  "removeUserGroupRelation u g s = s\<lparr>mg_userGroups := remove_from_user m_GroupID u g (mg_userGroups s)\<rparr>"
  by (simp add: removeUserGroupRelation_def remove_from_user_def)

lemma fold_removeUserGroupRelation:
  "fold (\<lambda>m. removeUserGroupRelation (m_UserID m) g) ms s =
     s\<lparr>mg_userGroups := fold (\<lambda>m. remove_from_user m_GroupID (m_UserID m) g) ms (mg_userGroups s)\<rparr>"
  by (induction ms arbitrary: s) (simp_all add: removeUserGroupRelation_eq)

lemma grp_inv_New [inv_preserved]: "grp_inv NewMemoryGroupStore"
  by (simp add: grp_inv_def NewMemoryGroupStore_def mirror_empty)

lemma grp_inv_put:
  assumes "grp_inv s" and "g_ID g = i"
  shows "grp_inv (s\<lparr>mg_groups := (mg_groups s)(i \<mapsto> g)\<rparr>)"
  using assms unfolding grp_inv_def by auto

lemma grp_inv_Create [inv_preserved]: "grp_inv s \<Longrightarrow> grp_inv (snd (MemoryGroupStore_Create now g s))"
  by (auto simp: MemoryGroupStore_Create_def Let_def intro: grp_inv_put)

lemma grp_inv_Update [inv_preserved]: "grp_inv s \<Longrightarrow> grp_inv (snd (MemoryGroupStore_Update now g s))"
  by (auto simp: MemoryGroupStore_Update_def intro!: grp_inv_put dest: grp_inv_id split: option.split)

lemma grp_inv_Delete [inv_preserved]:
  assumes "grp_inv s"
  shows "grp_inv (snd (MemoryGroupStore_Delete g s))"
  using assms mirror_remove_group [OF grp_inv_mirror [OF assms], of g]
  by (auto simp: MemoryGroupStore_Delete_def Let_def fold_removeUserGroupRelation grp_inv_def)

lemma grp_inv_AddMember [inv_preserved]:
  assumes "grp_inv s"
  shows "grp_inv (snd (MemoryGroupStore_AddMember now m s))"
proof (cases "mg_groups s (m_GroupID m) = None \<or>
    list_ex (\<lambda>m'. m_UserID m' = m_UserID m) (slice_at (mg_members s) (m_GroupID m))")
  case True
  with assms show ?thesis by (auto simp: MemoryGroupStore_AddMember_def)
next
  case False
  let ?m = "m\<lparr>m_JoinedAt := now\<rparr>"
  have "m_UserID ?m \<notin> m_UserID ` set (slice_at (mg_members s) (m_GroupID ?m))"
    using False by (auto simp: list_ex_iff)
  from mirror_add [OF grp_inv_mirror [OF assms] this] False assms show ?thesis
    by (auto simp: MemoryGroupStore_AddMember_def Let_def grp_inv_def)
qed

lemma grp_inv_RemoveMember [inv_preserved]:
  assumes "grp_inv s"
  shows "grp_inv (snd (MemoryGroupStore_RemoveMember g u s))"
  using assms mirror_remove [OF grp_inv_mirror [OF assms], of g u]
  by (auto simp: MemoryGroupStore_RemoveMember_def Let_def removeUserGroupRelation_eq
      remove_from_user_def grp_inv_def)


section \<open>The contract of a group store\<close>

locale group_store_contract =
  fixes st :: "'s GroupStore"
    and invar :: "'s \<Rightarrow> bool"
    and groups :: "'s \<Rightarrow> (string \<rightharpoonup> Group)"
    and rels :: "'s \<Rightarrow> GroupMember set"
  assumes rels_key: "invar s \<Longrightarrow> m \<in> rels s \<Longrightarrow> m' \<in> rels s \<Longrightarrow>
           m_GroupID m = m_GroupID m' \<Longrightarrow> m_UserID m = m_UserID m' \<Longrightarrow> m = m'"
    and rels_group: "invar s \<Longrightarrow> m \<in> rels s \<Longrightarrow> groups s (m_GroupID m) \<noteq> None"
    and group_ids: "invar s \<Longrightarrow> groups s i = Some g \<Longrightarrow> g_ID g = i"
    and get_by_id: "gs_GetByID st i s =
           (case groups s i of None \<Rightarrow> Inl ErrGroupNotFound | Some g \<Rightarrow> Inr g)"
    and create_ok: "gs_Create st now v s = (Inr g, s') \<Longrightarrow>
           groups s (g_ID v) = None \<and> g_ID g = g_ID v \<and> g_Name g = g_Name v \<and>
           groups s' = (groups s)(g_ID v \<mapsto> g) \<and> rels s' = rels s"
    and create_err: "gs_Create st now v s = (Inl err, s') \<Longrightarrow> s' = s"
    and update_ok: "gs_Update st now v s = (Inr (), s') \<Longrightarrow> \<exists>old. groups s (g_ID v) = Some old \<and>
           groups s' = (groups s)(g_ID v \<mapsto> merge_group now v old) \<and> rels s' = rels s"
    and update_err: "gs_Update st now v s = (Inl err, s') \<Longrightarrow> err = ErrGroupNotFound \<and> groups s (g_ID v) = None \<and> s' = s"
    and delete_ok: "invar s \<Longrightarrow> gs_Delete st i s = (Inr (), s') \<Longrightarrow>
           groups s i \<noteq> None \<and> groups s' = (groups s)(i := None) \<and> rels s' = {m \<in> rels s. m_GroupID m \<noteq> i}"
    and delete_err: "gs_Delete st i s = (Inl err, s') \<Longrightarrow> err = ErrGroupNotFound \<and> groups s i = None \<and> s' = s"
    and add_ok: "invar s \<Longrightarrow> gs_AddMember st now w s = (Inr m, s') \<Longrightarrow>
           m = w\<lparr>m_JoinedAt := now\<rparr> \<and> groups s (m_GroupID w) \<noteq> None \<and>
           (\<forall>m' \<in> rels s. \<not> (m_GroupID m' = m_GroupID w \<and> m_UserID m' = m_UserID w)) \<and>
           groups s' = groups s \<and> rels s' = insert m (rels s)"
    and add_err: "invar s \<Longrightarrow> gs_AddMember st now w s = (Inl err, s') \<Longrightarrow> s' = s \<and>
           (if groups s (m_GroupID w) = None then err = ErrGroupNotFound
            else err = ErrMemberExists \<and>
              (\<exists>m' \<in> rels s. m_GroupID m' = m_GroupID w \<and> m_UserID m' = m_UserID w))"
    and remove_ok: "invar s \<Longrightarrow> gs_RemoveMember st i u s = (Inr (), s') \<Longrightarrow>
           (\<exists>m \<in> rels s. m_GroupID m = i \<and> m_UserID m = u) \<and> groups s' = groups s \<and>
           rels s' = {m \<in> rels s. \<not> (m_GroupID m = i \<and> m_UserID m = u)}"
    and remove_err: "invar s \<Longrightarrow> gs_RemoveMember st i u s = (Inl err, s') \<Longrightarrow>
           err = ErrMemberNotFound \<and> s' = s \<and> (\<forall>m \<in> rels s. \<not> (m_GroupID m = i \<and> m_UserID m = u))"
    and list_members: "invar s \<Longrightarrow> gs_ListMembers st i s = Inr ms \<Longrightarrow>
           groups s i \<noteq> None \<and> set ms = {m \<in> rels s. m_GroupID m = i} \<and> distinct (map m_UserID ms)"
    and list_members_err: "gs_ListMembers st i s = Inl err \<Longrightarrow> err = ErrGroupNotFound \<and> groups s i = None"
    and get_user_groups: "invar s \<Longrightarrow> \<exists>ms. gs_GetUserGroups st u s = Inr ms \<and>
           set ms = {m \<in> rels s. m_UserID m = u} \<and> distinct (map m_GroupID ms)"
    and list: "gs_List st ord offset limit s = map_option Inr (paginate offset limit (range_values ord (groups s)))"
    and invar_create: "invar s \<Longrightarrow> invar (snd (gs_Create st now v s))"
    and invar_update: "invar s \<Longrightarrow> invar (snd (gs_Update st now v s))"
    and invar_delete: "invar s \<Longrightarrow> invar (snd (gs_Delete st i s))"
    and invar_add: "invar s \<Longrightarrow> invar (snd (gs_AddMember st now m s))"
    and invar_remove: "invar s \<Longrightarrow> invar (snd (gs_RemoveMember st i u s))"

abbreviation grp_rels :: "MemoryGroupStore \<Rightarrow> GroupMember set" where
  "grp_rels s \<equiv> memberships (mg_members s)"

lemma grp_rels_members:
  assumes "grp_inv s"
  shows "m \<in> set (slice_at (mg_members s) i) \<longleftrightarrow> m \<in> grp_rels s \<and> m_GroupID m = i"
  using grp_inv_mirror [OF assms] by (auto simp: in_memberships mirror_M)

lemma grp_rels_users:
  assumes "grp_inv s"
  shows "m \<in> set (slice_at (mg_userGroups s) u) \<longleftrightarrow> m \<in> grp_rels s \<and> m_UserID m = u"
  using mirror_memberships(2) [OF grp_inv_mirror [OF assms]] mirror_U [OF grp_inv_mirror [OF assms]]
  by metis

lemma grp_member_exists:
  assumes "grp_inv s"
  shows "list_ex (\<lambda>m. m_UserID m = u) (slice_at (mg_members s) i) \<longleftrightarrow>
           (\<exists>m \<in> grp_rels s. m_GroupID m = i \<and> m_UserID m = u)"
  by (auto simp: list_ex_iff grp_rels_members [OF assms])

interpretation mem_grp: group_store_contract MemoryGroupStore_Store grp_inv mg_groups grp_rels
proof (unfold_locales, goal_cases)
  case 1
  then show ?case by (metis mirror_key grp_inv_mirror)
next
  case (2 s m)
  then show ?case using grp_rels_members grp_inv_owner by fastforce
next
  case 3
  then show ?case by (rule grp_inv_id)
next
  case 4
  then show ?case by (simp add: MemoryGroupStore_GetByID_def)
next
  case 5
  then show ?case by (auto simp: MemoryGroupStore_Create_def Let_def split: if_splits)
next
  case 6
  then show ?case by (auto simp: MemoryGroupStore_Create_def Let_def split: if_splits)
next
  case 7
  then show ?case by (auto simp: MemoryGroupStore_Update_def split: option.splits)
next
  case 8
  then show ?case by (auto simp: MemoryGroupStore_Update_def split: option.splits)
next
  case 9
  then show ?case
    by (auto simp: MemoryGroupStore_Delete_def Let_def fold_removeUserGroupRelation
        memberships_remove_group [OF grp_inv_mirror] split: if_splits)
next
  case 10
  then show ?case by (auto simp: MemoryGroupStore_Delete_def Let_def split: if_splits)
next
  case (11 s now v m s')
  then show ?case
    using memberships_add [of "mg_members s" "m_GroupID v" "v\<lparr>m_JoinedAt := now\<rparr>"]
    by (auto simp: MemoryGroupStore_AddMember_def Let_def grp_member_exists split: if_splits)
next
  case 12
  then show ?case
    by (auto simp: MemoryGroupStore_AddMember_def Let_def grp_member_exists split: if_splits)
next
  case 13
  then show ?case
    by (auto simp: MemoryGroupStore_RemoveMember_def Let_def grp_member_exists
        removeUserGroupRelation_eq memberships_remove [OF grp_inv_mirror] split: if_splits)
next
  case 14
  then show ?case
    by (auto simp: MemoryGroupStore_RemoveMember_def Let_def grp_member_exists split: if_splits)
next
  case 15
  then show ?case
    by (auto simp: MemoryGroupStore_ListMembers_def grp_rels_members
        mirror_distinct_M [OF grp_inv_mirror] split: if_splits)
next
  case 16
  then show ?case by (auto simp: MemoryGroupStore_ListMembers_def split: if_splits)
next
  case 17
  then show ?case
    by (auto simp: MemoryGroupStore_GetUserGroups_def grp_rels_users
        mirror_distinct_U [OF grp_inv_mirror])
next
  case 18
  then show ?case by (simp add: MemoryGroupStore_List_def)
qed (simp_all add: inv_preserved)

end
