(* ===== verification/Directory_Service.thy ===== *)
theory Directory_Service
  imports User_Service Org_Store Group_Store
begin

text \<open>
  The service \<open>DirectoryService\<close> of \<open>internal/service/directory.go\<close>. Its struct holds an
  organization store, a group store and a user store; each method takes the ones it uses
  (\<open>os\<close>, \<open>gs\<close>, \<open>us\<close>) and their states. The locale \<open>directory_contract\<close> puts the
  contracts of the three stores together, and the lemmas about the methods are proved in it.
\<close>

section \<open>Organizations\<close>

definition CreateOrg ::
  "'o OrgStore \<Rightarrow> string \<Rightarrow> time \<Rightarrow> CreateOrgRequest \<Rightarrow> 'o \<Rightarrow> Organization result \<times> 'o" where
  "CreateOrg os uuid now req s =
     os_Create os now
       (zero_Organization\<lparr>o_ID := uuid, o_Name := co_Name req, o_ParentID := co_ParentID req,
          o_ExternalID := co_ExternalID req, o_SourceSystem := co_SourceSystem req\<rparr>) s"

definition GetOrg :: "'o OrgStore \<Rightarrow> string \<Rightarrow> 'o \<Rightarrow> Organization result" where
  "GetOrg os oid s = os_GetByID os oid s"

definition UpdateOrg ::
  "'o OrgStore \<Rightarrow> time \<Rightarrow> string \<Rightarrow> UpdateOrgRequest \<Rightarrow> 'o \<Rightarrow> Organization result \<times> 'o" where
  "UpdateOrg os now oid req s =
     (case os_Update os now
             (zero_Organization\<lparr>o_ID := oid, o_Name := uo_Name req, o_ParentID := uo_ParentID req\<rparr>) s of
        (Inl err, s) \<Rightarrow> (Inl err, s)
      | (Inr _, s) \<Rightarrow> (os_GetByID os oid s, s))"

definition DeleteOrg :: "'o OrgStore \<Rightarrow> string \<Rightarrow> 'o \<Rightarrow> unit result \<times> 'o" where
  "DeleteOrg os oid s = os_Delete os oid s"

definition ListOrgs ::
  "'o OrgStore \<Rightarrow> string list \<Rightarrow> int \<Rightarrow> int \<Rightarrow> 'o \<Rightarrow> (Organization list \<times> int) result option" where
  "ListOrgs os ord offset limit s =
     (let limit = (if limit \<le> 0 \<or> limit > 100 then 20 else limit)
      in os_List os ord offset limit s)"

definition ListOrgChildren ::
  "'o OrgStore \<Rightarrow> string list \<Rightarrow> string \<Rightarrow> 'o \<Rightarrow> Organization list result" where
  "ListOrgChildren os ord parentID s = os_ListChildren os ord parentID s"

definition AddOrgMember ::
  "'o OrgStore \<Rightarrow> 'u user_Store \<Rightarrow> string \<Rightarrow> AddOrgMemberRequest \<Rightarrow> 'u \<Rightarrow> 'o
    \<Rightarrow> UserOrgRelation result \<times> 'o" where
  "AddOrgMember os us orgID req u s =
     (case us_GetByID us (ao_UserID req) u of
        Inl _ \<Rightarrow> (Inl ErrUserNotFound, s)
      | Inr _ \<Rightarrow>
          let role = (if ao_Role req = [] then ''member'' else ao_Role req);
              rel = \<lparr>r_UserID = ao_UserID req, r_OrgID = orgID, r_Role = role,
                     r_IsPrimary = ao_IsPrimary req\<rparr>
          in case os_AddMember os rel s of
               (Inl err, s) \<Rightarrow> (Inl err, s)
             | (Inr _, s) \<Rightarrow> (Inr rel, s))"

definition RemoveOrgMember :: "'o OrgStore \<Rightarrow> string \<Rightarrow> string \<Rightarrow> 'o \<Rightarrow> unit result \<times> 'o" where
  "RemoveOrgMember os orgID userID s = os_RemoveMember os orgID userID s"

text \<open>One turn of the loop of \<open>ListOrgMembers\<close>: a user who is gone leaves the fields empty.\<close>

definition org_member_detail :: "'u user_Store \<Rightarrow> 'u \<Rightarrow> UserOrgRelation \<Rightarrow> OrgMemberDetail" where
  "org_member_detail us u rel =
     (let detail = \<lparr>r_UserID = r_UserID rel, r_OrgID = r_OrgID rel, r_Role = r_Role rel,
                    r_IsPrimary = r_IsPrimary rel,
                    od_Username = [], od_Email = [], od_DisplayName = [], od_Status = []\<rparr>
      in case us_GetByID us (r_UserID rel) u of
           Inl _ \<Rightarrow> detail
         | Inr v \<Rightarrow> detail\<lparr>od_Username := u_Username v, od_Email := u_Email v,
                        od_DisplayName := u_DisplayName v, od_Status := u_Status v\<rparr>)"

definition ListOrgMembers ::
  "'o OrgStore \<Rightarrow> 'u user_Store \<Rightarrow> string \<Rightarrow> 'u \<Rightarrow> 'o \<Rightarrow> OrgMemberDetail list result" where
  "ListOrgMembers os us orgID u s =
     (case os_ListMembers os orgID s of
        Inl err \<Rightarrow> Inl err
      | Inr rels \<Rightarrow> Inr (map (org_member_detail us u) rels))"

definition GetUserOrgs :: "'o OrgStore \<Rightarrow> string \<Rightarrow> 'o \<Rightarrow> UserOrgRelation list result" where
  "GetUserOrgs os userID s = os_GetUserOrgs os userID s"


section \<open>Groups\<close>

definition CreateGroup ::
  "'g GroupStore \<Rightarrow> string \<Rightarrow> time \<Rightarrow> CreateGroupRequest \<Rightarrow> 'g \<Rightarrow> Group result \<times> 'g" where
  "CreateGroup gs uuid now req s =
     gs_Create gs now
       (zero_Group\<lparr>g_ID := uuid, g_Name := cg_Name req, g_Description := cg_Description req,
          g_Type := cg_Type req\<rparr>) s"

definition GetGroup :: "'g GroupStore \<Rightarrow> string \<Rightarrow> 'g \<Rightarrow> Group result" where
  "GetGroup gs gid s = gs_GetByID gs gid s"

definition UpdateGroup ::
  "'g GroupStore \<Rightarrow> time \<Rightarrow> string \<Rightarrow> UpdateGroupRequest \<Rightarrow> 'g \<Rightarrow> Group result \<times> 'g" where
  "UpdateGroup gs now gid req s =
     (case gs_Update gs now
             (zero_Group\<lparr>g_ID := gid, g_Name := ug_Name req, g_Description := ug_Description req,
                g_Type := ug_Type req\<rparr>) s of
        (Inl err, s) \<Rightarrow> (Inl err, s)
      | (Inr _, s) \<Rightarrow> (gs_GetByID gs gid s, s))"

definition DeleteGroup :: "'g GroupStore \<Rightarrow> string \<Rightarrow> 'g \<Rightarrow> unit result \<times> 'g" where
  "DeleteGroup gs gid s = gs_Delete gs gid s"

definition ListGroups ::
  "'g GroupStore \<Rightarrow> string list \<Rightarrow> int \<Rightarrow> int \<Rightarrow> 'g \<Rightarrow> (Group list \<times> int) result option" where
  "ListGroups gs ord offset limit s =
     (let limit = (if limit \<le> 0 \<or> limit > 100 then 20 else limit)
      in gs_List gs ord offset limit s)"

definition AddGroupMember ::
  "'g GroupStore \<Rightarrow> 'u user_Store \<Rightarrow> time \<Rightarrow> string \<Rightarrow> AddGroupMemberRequest \<Rightarrow> 'u \<Rightarrow> 'g
    \<Rightarrow> GroupMember result \<times> 'g" where
  "AddGroupMember gs us now groupID req u s =
     (case us_GetByID us (ag_UserID req) u of
        Inl _ \<Rightarrow> (Inl ErrUserNotFound, s)
      | Inr _ \<Rightarrow>
          let role = (if ag_Role req = [] then ''member'' else ag_Role req);
              member = \<lparr>m_GroupID = groupID, m_UserID = ag_UserID req, m_Role = role,
                        m_JoinedAt = zero_time\<rparr>
          in gs_AddMember gs now member s)"

definition RemoveGroupMember :: "'g GroupStore \<Rightarrow> string \<Rightarrow> string \<Rightarrow> 'g \<Rightarrow> unit result \<times> 'g" where
  "RemoveGroupMember gs groupID userID s = gs_RemoveMember gs groupID userID s"

definition group_member_detail :: "'u user_Store \<Rightarrow> 'u \<Rightarrow> GroupMember \<Rightarrow> GroupMemberDetail" where
  "group_member_detail us u m =
     (let detail = \<lparr>m_GroupID = m_GroupID m, m_UserID = m_UserID m, m_Role = m_Role m,
                    m_JoinedAt = m_JoinedAt m,
                    gd_Username = [], gd_Email = [], gd_DisplayName = [], gd_Status = []\<rparr>
      in case us_GetByID us (m_UserID m) u of
           Inl _ \<Rightarrow> detail
         | Inr v \<Rightarrow> detail\<lparr>gd_Username := u_Username v, gd_Email := u_Email v,
                        gd_DisplayName := u_DisplayName v, gd_Status := u_Status v\<rparr>)"

definition ListGroupMembers ::
  "'g GroupStore \<Rightarrow> 'u user_Store \<Rightarrow> string \<Rightarrow> 'u \<Rightarrow> 'g \<Rightarrow> GroupMemberDetail list result" where
  "ListGroupMembers gs us groupID u s =
     (case gs_ListMembers gs groupID s of
        Inl err \<Rightarrow> Inl err
      | Inr members \<Rightarrow> Inr (map (group_member_detail us u) members))"

definition GetUserGroups :: "'g GroupStore \<Rightarrow> string \<Rightarrow> 'g \<Rightarrow> GroupMember list result" where
  "GetUserGroups gs userID s = gs_GetUserGroups gs userID s"

lemmas directory_service_defs [svc_defs] =
  CreateOrg_def GetOrg_def UpdateOrg_def DeleteOrg_def ListOrgs_def ListOrgChildren_def
  AddOrgMember_def RemoveOrgMember_def ListOrgMembers_def GetUserOrgs_def
  CreateGroup_def GetGroup_def UpdateGroup_def DeleteGroup_def ListGroups_def
  AddGroupMember_def RemoveGroupMember_def ListGroupMembers_def GetUserGroups_def


lemma org_member_detail_simps [simp]:
  "r_UserID (org_member_detail us u rel) = r_UserID rel"
  "r_OrgID (org_member_detail us u rel) = r_OrgID rel"
  "r_Role (org_member_detail us u rel) = r_Role rel"
  by (simp_all add: org_member_detail_def Let_def split: sum.split)

lemma group_member_detail_simps [simp]:
  "m_UserID (group_member_detail us u m) = m_UserID m"
  "m_GroupID (group_member_detail us u m) = m_GroupID m"
  "m_Role (group_member_detail us u m) = m_Role m"
  "m_JoinedAt (group_member_detail us u m) = m_JoinedAt m"
  by (simp_all add: group_member_detail_def Let_def split: sum.split)


section \<open>The methods over any stores that keep their contracts\<close>

locale directory_contract =
  ust: user_store_contract us uinv tbl +
  ost: org_store_contract os oinv orgs orels +
  gst: group_store_contract gs ginv groups grels
  for us :: "'u user_Store" and uinv tbl
    and os :: "'o OrgStore" and oinv orgs orels
    and gs :: "'g GroupStore" and ginv groups grels
begin

text \<open>
  Adding a member: every request is answered by exactly one of four outcomes, checked in
  the order user, organization, existing membership.
\<close>

lemma add_org_member:
  assumes "uinv u" and "oinv s"
  shows "AddOrgMember os us g req u s = (r, s') \<Longrightarrow>
    (case tbl_get (ao_UserID req) (tbl u) of
       Inl _ \<Rightarrow> r = Inl ErrUserNotFound \<and> s' = s
     | Inr _ \<Rightarrow>
         if orgs s g = None then r = Inl ErrOrgNotFound \<and> s' = s
         else if \<exists>x \<in> orels s. r_OrgID x = g \<and> r_UserID x = ao_UserID req
         then r = Inl ErrMemberExists \<and> s' = s
         else \<exists>rel. r = Inr rel \<and> r_UserID rel = ao_UserID req \<and> r_OrgID rel = g \<and>
                r_Role rel = (if ao_Role req = [] then ''member'' else ao_Role req) \<and>
                r_IsPrimary rel = ao_IsPrimary req \<and>
                orgs s' = orgs s \<and> orels s' = insert rel (orels s) \<and> oinv s')"
proof (cases "tbl_get (ao_UserID req) (tbl u)")
  case (Inl e)
  assume "AddOrgMember os us g req u s = (r, s')"
  with Inl show ?thesis by (simp add: AddOrgMember_def ust.get_by_id [OF assms(1)])
next
  case (Inr v)
  assume call: "AddOrgMember os us g req u s = (r, s')"
  let ?rel = "\<lparr>r_UserID = ao_UserID req, r_OrgID = g,
      r_Role = (if ao_Role req = [] then ''member'' else ao_Role req), r_IsPrimary = ao_IsPrimary req\<rparr>"
  obtain x t where add: "os_AddMember os ?rel s = (x, t)" by force
  show ?thesis
  proof (cases x)
    case (Inl err)
    with call add Inr have "r = Inl err" and "s' = t"
      by (simp_all add: AddOrgMember_def ust.get_by_id [OF assms(1)] Let_def)
    with Inr ost.add_err [OF assms(2) add [unfolded Inl]] show ?thesis by (auto split: if_splits)
  next
    case Inr': (Inr y)
    with call add Inr have "r = Inr ?rel" and "s' = t"
      by (simp_all add: AddOrgMember_def ust.get_by_id [OF assms(1)] Let_def)
    moreover have "os_AddMember os ?rel s = (Inr (), t)" using add Inr' by simp
    moreover have "oinv t" using ost.invar_add [OF assms(2), of ?rel] add by simp
    ultimately show ?thesis using Inr ost.add_ok [OF assms(2), of ?rel t] by auto
  qed
qed

lemma add_group_member:
  assumes "uinv u" and "ginv s"
  shows "AddGroupMember gs us now g req u s = (r, s') \<Longrightarrow>
    (case tbl_get (ag_UserID req) (tbl u) of
       Inl _ \<Rightarrow> r = Inl ErrUserNotFound \<and> s' = s
     | Inr _ \<Rightarrow>
         if groups s g = None then r = Inl ErrGroupNotFound \<and> s' = s
         else if \<exists>x \<in> grels s. m_GroupID x = g \<and> m_UserID x = ag_UserID req
         then r = Inl ErrMemberExists \<and> s' = s
         else \<exists>m. r = Inr m \<and> m_UserID m = ag_UserID req \<and> m_GroupID m = g \<and>
                m_Role m = (if ag_Role req = [] then ''member'' else ag_Role req) \<and>
                m_JoinedAt m = now \<and>
                groups s' = groups s \<and> grels s' = insert m (grels s) \<and> ginv s')"
proof (cases "tbl_get (ag_UserID req) (tbl u)")
  case (Inl e)
  assume "AddGroupMember gs us now g req u s = (r, s')"
  with Inl show ?thesis by (simp add: AddGroupMember_def ust.get_by_id [OF assms(1)])
next
  case (Inr v)
  assume call: "AddGroupMember gs us now g req u s = (r, s')"
  let ?m = "\<lparr>m_GroupID = g, m_UserID = ag_UserID req,
      m_Role = (if ag_Role req = [] then ''member'' else ag_Role req), m_JoinedAt = zero_time\<rparr>"
  have add: "gs_AddMember gs now ?m s = (r, s')"
    using call Inr by (simp add: AddGroupMember_def ust.get_by_id [OF assms(1)] Let_def)
  show ?thesis
  proof (cases r)
    case (Inl err)
    with Inr Inl gst.add_err [OF assms(2) add [unfolded Inl]] show ?thesis by (auto split: if_splits)
  next
    case Inr': (Inr m)
    have "ginv s'" using gst.invar_add [OF assms(2), of now ?m] add by simp
    with Inr Inr' gst.add_ok [OF assms(2) add [unfolded Inr']] show ?thesis by auto
  qed
qed

text \<open>The listing of an organization shows the live users with their current data.\<close>

lemma org_member_detail_user:
  assumes "uinv u"
  shows "od_Username (org_member_detail us u rel) =
           (case tbl_get (r_UserID rel) (tbl u) of Inl _ \<Rightarrow> [] | Inr v \<Rightarrow> u_Username v)"
    and "od_Status (org_member_detail us u rel) =
           (case tbl_get (r_UserID rel) (tbl u) of Inl _ \<Rightarrow> [] | Inr v \<Rightarrow> u_Status v)"
  by (simp_all add: org_member_detail_def Let_def ust.get_by_id [OF assms] split: sum.split)

text \<open>The members of an organization and the organizations of its members agree.\<close>

lemma org_views_agree:
  assumes "oinv s" and "ListOrgMembers os us g u s = Inr ds"
  shows "x \<in> r_UserID ` set ds \<longleftrightarrow> (\<exists>rs. GetUserOrgs os x s = Inr rs \<and> g \<in> r_OrgID ` set rs)"
proof -
  obtain rs where rs: "os_ListMembers os g s = Inr rs" and ds: "ds = map (org_member_detail us u) rs"
    using assms(2) by (auto simp: ListOrgMembers_def split: sum.splits)
  have "r_UserID ` set ds = r_UserID ` set rs"
    by (simp add: ds image_image)
  with ost.list_members [OF assms(1) rs] ost.get_user_orgs [OF assms(1), of x] show ?thesis
    by (auto simp: GetUserOrgs_def)
qed

text \<open>Removing the membership just added brings the memberships back.\<close>

lemma add_then_remove:
  assumes "uinv u" and "oinv s" and "AddOrgMember os us g req u s = (Inr rel, s')"
  shows "\<exists>s''. RemoveOrgMember os g (ao_UserID req) s' = (Inr (), s'') \<and> orels s'' = orels s \<and> orgs s'' = orgs s"
proof -
  have new: "orels s' = insert rel (orels s)" and key: "r_OrgID rel = g" "r_UserID rel = ao_UserID req"
    and none: "\<forall>x \<in> orels s. \<not> (r_OrgID x = g \<and> r_UserID x = ao_UserID req)"
    and inv: "oinv s'" and same: "orgs s' = orgs s"
    using add_org_member [OF assms] by (auto split: sum.splits if_splits)
  obtain y t where rem: "os_RemoveMember os g (ao_UserID req) s' = (y, t)" by force
  have "y = Inr ()"
  proof (cases y)
    case (Inl err)
    with ost.remove_err [OF inv rem [unfolded Inl]] new key show ?thesis by auto
  qed simp
  with ost.remove_ok [OF inv, of g "ao_UserID req" t] rem new key none same show ?thesis
    by (auto simp: RemoveOrgMember_def)
qed

end

interpretation mem_dir: directory_contract
  "MemoryStore_Store lower" store_inv ms_users
  MemoryOrgStore_Store org_inv mo_orgs org_rels
  MemoryGroupStore_Store grp_inv mg_groups grp_rels for lower
  by unfold_locales

end
