(* ===== verification/Directory_History.thy ===== *)
theory Directory_History
  imports Directory_Service
begin

text \<open>
  The directory over time. \<open>org_reach\<close> generates the states the organization store can be
  in after any sequence of calls of the directory service, and the properties below say what
  holds in all of them: the two views of the memberships agree, a membership can be added
  and removed again, deleting an organization takes its memberships along, and, as long as
  no update moves an organization, the parents form a forest whose paths are spelled out in
  \<open>Path\<close>. The last sections show what a moving update and an unstable map order break.
\<close>

section \<open>Reachable states of the organization store\<close>

text \<open>
  \<open>I\<close> collects the identifiers that \<open>uuid.New()\<close> has given out: it never gives one out
  twice, and never an empty one. \<open>moves\<close> tells whether updates may set a new parent.
\<close>

inductive org_reach :: "bool \<Rightarrow> string set \<Rightarrow> MemoryOrgStore \<Rightarrow> bool" for moves :: bool where
  start: "org_reach moves {} NewMemoryOrgStore"
| create: "org_reach moves I s \<Longrightarrow> uuid \<notin> I \<Longrightarrow> uuid \<noteq> [] \<Longrightarrow>
     CreateOrg MemoryOrgStore_Store uuid now req s = (r, s') \<Longrightarrow> org_reach moves (insert uuid I) s'"
| update: "org_reach moves I s \<Longrightarrow> moves \<or> uo_ParentID req = [] \<Longrightarrow>
     UpdateOrg MemoryOrgStore_Store now i req s = (r, s') \<Longrightarrow> org_reach moves I s'"
| delete: "org_reach moves I s \<Longrightarrow>
     DeleteOrg MemoryOrgStore_Store i s = (d, s') \<Longrightarrow> org_reach moves I s'"
| add: "org_reach moves I s \<Longrightarrow>
     AddOrgMember MemoryOrgStore_Store (MemoryStore_Store lower) i areq u s = (a, s') \<Longrightarrow> org_reach moves I s'"
| remove: "org_reach moves I s \<Longrightarrow>
     RemoveOrgMember MemoryOrgStore_Store i j s = (d, s') \<Longrightarrow> org_reach moves I s'"

text \<open>Each method leaves the organizations as the store operation it calls does.\<close>

lemma UpdateOrg_store:
  "snd (UpdateOrg MemoryOrgStore_Store now i req s) =
     snd (MemoryOrgStore_Update now
            (zero_Organization\<lparr>o_ID := i, o_Name := uo_Name req, o_ParentID := uo_ParentID req\<rparr>) s)"
  by (simp add: UpdateOrg_def split: prod.split sum.split)

lemma AddOrgMember_store:
  "snd (AddOrgMember MemoryOrgStore_Store us i req u s) = s \<or>
   (\<exists>rel. snd (AddOrgMember MemoryOrgStore_Store us i req u s) = snd (MemoryOrgStore_AddMember rel s))"
  by (auto simp: AddOrgMember_def Let_def split: prod.split sum.split) (metis snd_conv)+

lemma org_inv_reachable: "org_reach moves I s \<Longrightarrow> org_inv s"
proof (induction rule: org_reach.induct)
  case start
  then show ?case by (rule org_inv_New)
next
  case create
  then show ?case by (metis CreateOrg_def MemoryOrgStore_Store_simps(1) org_inv_Create snd_conv)
next
  case update
  then show ?case by (metis UpdateOrg_store org_inv_Update snd_conv)
next
  case delete
  then show ?case by (metis DeleteOrg_def mem_org.invar_delete snd_conv)
next
  case (add I s lower i areq u a s')
  then show ?case
    using AddOrgMember_store [of "MemoryStore_Store lower" i areq u s] org_inv_AddMember [of s] by auto
next
  case remove
  then show ?case by (metis RemoveOrgMember_def mem_org.invar_remove snd_conv)
qed


section \<open>The hierarchy\<close>

definition parent_of :: "MemoryOrgStore \<Rightarrow> (string \<times> string) set" where
  "parent_of s = {(i, p). \<exists>org parent. mo_orgs s i = Some org \<and> o_ParentID org = p \<and> mo_orgs s p = Some parent}"

text \<open>
  \<open>path_ok\<close>: a path ends in the organization's own id, and what precedes it is nothing for
  a root and the path of the parent for an organization whose parent still exists.
\<close>

definition path_ok :: "(string \<rightharpoonup> Organization) \<Rightarrow> Organization \<Rightarrow> bool" where
  "path_ok m org \<longleftrightarrow>
     (\<exists>pre. o_Path org = pre @ ''/'' @ o_ID org \<and>
        (o_ParentID org = [] \<longrightarrow> pre = []) \<and>
        (\<forall>parent. o_ParentID org \<noteq> [] \<longrightarrow> m (o_ParentID org) = Some parent \<longrightarrow> pre = o_Path parent))"

definition tree_inv :: "string set \<Rightarrow> MemoryOrgStore \<Rightarrow> bool" where
  "tree_inv I s \<longleftrightarrow> [] \<notin> I \<and> dom (mo_orgs s) \<subseteq> I \<and>
     (\<forall>i org. mo_orgs s i = Some org \<longrightarrow>
        o_ID org = i \<and> (o_ParentID org = [] \<or> o_ParentID org \<in> I) \<and> path_ok (mo_orgs s) org)"

lemma tree_invD:
  assumes "tree_inv I s" and "mo_orgs s i = Some org"
  shows "i \<in> I" and "o_ID org = i" and "o_ParentID org = [] \<or> o_ParentID org \<in> I"
    and "path_ok (mo_orgs s) org"
  using assms unfolding tree_inv_def by auto

lemma tree_inv_same_orgs: "tree_inv I s \<Longrightarrow> mo_orgs s' = mo_orgs s \<Longrightarrow> tree_inv I s'"
  by (simp add: tree_inv_def)

lemma tree_inv_create:
  assumes tree: "tree_inv I s" and new: "uuid \<notin> I" "uuid \<noteq> []"
    and call: "CreateOrg MemoryOrgStore_Store uuid now req s = (r, s')"
  shows "tree_inv (insert uuid I) s'"
proof (cases r)
  case (Inl e)
  with call have "s' = s" unfolding CreateOrg_def by (metis mem_org.create_err)
  with tree new show ?thesis unfolding tree_inv_def by auto
next
  case (Inr org)
  have put: "mo_orgs s' = (mo_orgs s)(uuid \<mapsto> org)" and oid: "o_ID org = uuid"
    and par: "o_ParentID org = [] \<and> o_Path org = ''/'' @ uuid \<or>
      (\<exists>p. mo_orgs s (o_ParentID org) = Some p \<and> o_Path org = o_Path p @ ''/'' @ uuid)"
    using call Inr
    by (auto simp: CreateOrg_def MemoryOrgStore_Create_def Let_def split: if_splits option.splits)
  have fresh: "mo_orgs s uuid = None" using tree new unfolding tree_inv_def by auto
  have old: "path_ok ((mo_orgs s)(uuid \<mapsto> org)) x" if "mo_orgs s i = Some x" for i x
  proof -
    from tree_invD(3) [OF tree that] new have "o_ParentID x \<noteq> uuid" by auto
    with tree_invD(4) [OF tree that] show ?thesis by (simp add: path_ok_def)
  qed
  have "path_ok ((mo_orgs s)(uuid \<mapsto> org)) org"
  proof (cases "o_ParentID org = []")
    case True
    moreover have "mo_orgs s [] = None" using tree unfolding tree_inv_def by auto
    ultimately show ?thesis using par oid by (simp add: path_ok_def)
  next
    case False
    with par fresh oid show ?thesis by (auto simp: path_ok_def)
  qed
  moreover have "o_ParentID org = [] \<or> o_ParentID org \<in> insert uuid I"
    using par tree_invD(1) [OF tree] by auto
  ultimately show ?thesis
    using tree new put oid old unfolding tree_inv_def by auto
qed

lemma path_ok_merge:
  assumes "path_ok m org" and "m i = Some old" and "uo = zero_Organization\<lparr>o_ID := i, o_Name := n\<rparr>"
  shows "path_ok (m(i \<mapsto> merge_org now uo old)) org"
  using assms by (auto simp: path_ok_def)

lemma tree_inv_rename:
  assumes tree: "tree_inv I s" and stay: "uo_ParentID req = []"
    and call: "UpdateOrg MemoryOrgStore_Store now i req s = (r, s')"
  shows "tree_inv I s'"
proof (cases "mo_orgs s i")
  case None
  with call have "s' = s" by (simp add: UpdateOrg_def MemoryOrgStore_Update_def)
  with tree show ?thesis by simp
next
  case (Some old)
  let ?uo = "zero_Organization\<lparr>o_ID := i, o_Name := uo_Name req\<rparr>"
  let ?new = "merge_org now ?uo old"
  have [simp]: "zero_Organization\<lparr>o_ID := i, o_Name := n, o_ParentID := []\<rparr> =
      zero_Organization\<lparr>o_ID := i, o_Name := n\<rparr>" for n
    by (simp add: zero_Organization_def)
  have put: "mo_orgs s' = (mo_orgs s)(i \<mapsto> ?new)"
    using call Some stay by (auto simp: UpdateOrg_def MemoryOrgStore_Update_def)
  have "path_ok (mo_orgs s) ?new"
    using tree_invD(4) [OF tree Some] by (simp add: path_ok_def)
  then have "path_ok ((mo_orgs s)(i \<mapsto> ?new)) ?new" using Some by (rule path_ok_merge) simp
  moreover have "path_ok ((mo_orgs s)(i \<mapsto> ?new)) x" if "mo_orgs s j = Some x" for j x
    using tree_invD(4) [OF tree that] Some by (rule path_ok_merge) simp
  ultimately show ?thesis
    using tree tree_invD(1-3) [OF tree Some] put unfolding tree_inv_def by auto
qed

lemma path_ok_delete: "path_ok m org \<Longrightarrow> path_ok (m(i := None)) org"
  unfolding path_ok_def by (metis fun_upd_apply option.distinct(1))

lemma tree_inv_delete:
  assumes tree: "tree_inv I s" and inv: "org_inv s"
    and call: "DeleteOrg MemoryOrgStore_Store i s = (r, s')"
  shows "tree_inv I s'"
proof (cases r)
  case (Inl e)
  with call have "s' = s" unfolding DeleteOrg_def by (metis mem_org.delete_err)
  with tree show ?thesis by simp
next
  case (Inr u)
  with call mem_org.delete_ok [OF inv, of i s'] have "mo_orgs s' = (mo_orgs s)(i := None)"
    by (simp add: DeleteOrg_def)
  with tree show ?thesis unfolding tree_inv_def by (auto split: if_splits intro: path_ok_delete)
qed

lemma AddOrgMember_orgs:
  "mo_orgs (snd (AddOrgMember MemoryOrgStore_Store us i req u s)) = mo_orgs s"
  by (auto simp: AddOrgMember_def MemoryOrgStore_AddMember_def Let_def split: sum.split)

lemma RemoveOrgMember_orgs:
  "mo_orgs (snd (RemoveOrgMember MemoryOrgStore_Store i j s)) = mo_orgs s"
  by (simp add: RemoveOrgMember_def MemoryOrgStore_RemoveMember_def removeUserOrgRelation_def Let_def)

lemma tree_inv_reachable:
  assumes "org_reach moves I s" and "\<not> moves"
  shows "tree_inv I s"
  using assms
proof (induction rule: org_reach.induct)
  case start
  then show ?case by (simp add: tree_inv_def NewMemoryOrgStore_def)
next
  case create
  then show ?case by (blast intro: tree_inv_create)
next
  case update
  then show ?case by (blast intro: tree_inv_rename)
next
  case delete
  then show ?case by (blast intro: tree_inv_delete org_inv_reachable)
next
  case add
  then show ?case by (metis AddOrgMember_orgs tree_inv_same_orgs snd_conv)
next
  case remove
  then show ?case by (metis RemoveOrgMember_orgs tree_inv_same_orgs snd_conv)
qed

text \<open>The path of a parent is shorter than the path of its child, so there is no cycle.\<close>

lemma tree_inv_acyclic:
  assumes tree: "tree_inv I s"
  shows "acyclic (parent_of s)"
proof -
  let ?len = "\<lambda>i. case mo_orgs s i of None \<Rightarrow> 0 | Some org \<Rightarrow> length (o_Path org)"
  have "?len p < ?len i" if edge: "(i, p) \<in> parent_of s" for i p
  proof -
    from edge obtain org parent where
      o: "mo_orgs s i = Some org" "o_ParentID org = p" "mo_orgs s p = Some parent"
      by (auto simp: parent_of_def)
    have "p \<noteq> []" using tree_invD(1) [OF tree o(3)] tree by (auto simp: tree_inv_def)
    with tree_invD(4) [OF tree o(1)] o show ?thesis by (auto simp: path_ok_def)
  qed
  then have "(parent_of s)\<inverse> \<subseteq> measure ?len" by auto
  then have "wf ((parent_of s)\<inverse>)" by (rule wf_subset [OF wf_measure])
  then show ?thesis using wf_acyclic acyclic_converse by blast
qed


section \<open>A sample directory\<close>

text \<open>Two root organizations and one below the first; alice is a member of the latter.\<close>

definition org_request :: "string \<Rightarrow> string \<Rightarrow> CreateOrgRequest" where
  "org_request name parent =
     \<lparr>co_Name = name, co_ParentID = parent, co_ExternalID = [], co_SourceSystem = []\<rparr>"

definition stored_org :: "string \<Rightarrow> string \<Rightarrow> string \<Rightarrow> string \<Rightarrow> Organization" where
  "stored_org i name parent path =
     zero_Organization\<lparr>o_ID := i, o_Name := name, o_ParentID := parent, o_Path := path,
       o_CreatedAt := 0, o_UpdatedAt := 0\<rparr>"

definition sample_orgs :: MemoryOrgStore where
  "sample_orgs =
     (let s = snd (CreateOrg MemoryOrgStore_Store ''o1'' 0 (org_request ''Acme'' []) NewMemoryOrgStore);
          s = snd (CreateOrg MemoryOrgStore_Store ''o2'' 0 (org_request ''Sales'' ''o1'') s)
      in snd (CreateOrg MemoryOrgStore_Store ''o3'' 0 (org_request ''Other'' []) s))"

definition join_sales :: AddOrgMemberRequest where
  "join_sales = \<lparr>ao_UserID = ''u1'', ao_Role = [], ao_IsPrimary = True\<rparr>"

definition sales_member :: UserOrgRelation where
  "sales_member = \<lparr>r_UserID = ''u1'', r_OrgID = ''o2'', r_Role = ''member'', r_IsPrimary = True\<rparr>"

definition sample_members :: MemoryOrgStore where
  "sample_members = sample_orgs\<lparr>mo_members := [''o2'' \<mapsto> [sales_member]],
     mo_userOrgs := [''u1'' \<mapsto> [sales_member]]\<rparr>"

lemma sample_orgs_eq:
  "sample_orgs = \<lparr>mo_orgs = [''o1'' \<mapsto> stored_org ''o1'' ''Acme'' [] ''/o1'',
     ''o2'' \<mapsto> stored_org ''o2'' ''Sales'' ''o1'' ''/o1/o2'',
     ''o3'' \<mapsto> stored_org ''o3'' ''Other'' [] ''/o3''],
     mo_members = Map.empty, mo_userOrgs = Map.empty\<rparr>"
  by (simp add: sample_orgs_def CreateOrg_def MemoryOrgStore_Create_def NewMemoryOrgStore_def
      stored_org_def org_request_def zero_Organization_def Let_def)

lemma sample_orgs_reach: "org_reach moves {''o1'', ''o2'', ''o3''} sample_orgs"
proof -
  let ?s1 = "snd (CreateOrg MemoryOrgStore_Store ''o1'' 0 (org_request ''Acme'' []) NewMemoryOrgStore)"
  let ?s2 = "snd (CreateOrg MemoryOrgStore_Store ''o2'' 0 (org_request ''Sales'' ''o1'') ?s1)"
  have "org_reach moves {''o1''} ?s1"
    by (rule org_reach.create [OF org_reach.start]) (simp_all add: prod_eq_iff)
  then have "org_reach moves {''o2'', ''o1''} ?s2"
    by (rule org_reach.create) (simp_all add: prod_eq_iff)
  then have "org_reach moves {''o3'', ''o2'', ''o1''} sample_orgs"
    by (rule org_reach.create) (simp_all add: prod_eq_iff sample_orgs_def Let_def)
  moreover have "{''o3'', ''o2'', ''o1''} = {''o1'', ''o2'', ''o3''}" by auto
  ultimately show ?thesis by simp
qed

lemma join_sales_eq:
  "AddOrgMember MemoryOrgStore_Store (MemoryStore_Store lower) ''o2'' join_sales alice_store sample_orgs =
     (Inr sales_member, sample_members)"
  by (simp add: AddOrgMember_def join_sales_def sales_member_def sample_members_def sample_orgs_eq
      alice_store_eq MemoryStore_GetByID_def MemoryOrgStore_AddMember_def Let_def)

lemma sample_members_reach: "org_reach moves {''o1'', ''o2'', ''o3''} sample_members"
  by (rule org_reach.add [OF sample_orgs_reach join_sales_eq])


section \<open>Properties of the organizations\<close>

text \<open>
  C16: after any sequence of calls of the directory service, the members an organization
  lists are exactly the users whose own list of organizations contains it, each of them is
  listed once, and every organization that a user's list names exists.
\<close>

theorem membership_views_agree:
  assumes "org_reach moves I s"
    and "ListOrgMembers MemoryOrgStore_Store us g u s = Inr ds"
  shows "(\<forall>x. x \<in> r_UserID ` set ds \<longleftrightarrow>
            (\<exists>rs. GetUserOrgs MemoryOrgStore_Store x s = Inr rs \<and> g \<in> r_OrgID ` set rs)) \<and>
         distinct (map r_UserID ds) \<and>
         (\<forall>x rs r. GetUserOrgs MemoryOrgStore_Store x s = Inr rs \<and> r \<in> set rs \<longrightarrow>
            is_ok (GetOrg MemoryOrgStore_Store (r_OrgID r) s))"
proof -
  have inv: "org_inv s" using assms(1) by (rule org_inv_reachable)
  obtain rs where rs: "MemoryOrgStore_ListMembers g s = Inr rs" and ds: "ds = map (org_member_detail us u) rs"
    using assms(2) by (auto simp: ListOrgMembers_def split: sum.splits)
  have "distinct (map r_UserID ds)"
    using mem_org.list_members [OF inv, of g rs] rs by (simp add: ds comp_def)
  moreover have "is_ok (GetOrg MemoryOrgStore_Store (r_OrgID r) s)"
    if "GetUserOrgs MemoryOrgStore_Store x s = Inr rs'" and "r \<in> set rs'" for x rs' r
  proof -
    have "r \<in> org_rels s"
      using that by (auto simp: GetUserOrgs_def MemoryOrgStore_GetUserOrgs_def org_rels_users [OF inv])
    then show ?thesis
      using mem_org.rels_org [OF inv] by (auto simp: GetOrg_def MemoryOrgStore_GetByID_def split: option.split)
  qed
  moreover have "x \<in> r_UserID ` set ds \<longleftrightarrow>
      (\<exists>rs. GetUserOrgs MemoryOrgStore_Store x s = Inr rs \<and> g \<in> r_OrgID ` set rs)" for x
    using rs mem_org.list_members [OF inv, of g rs] mem_org.get_user_orgs [OF inv, of x]
    by (auto simp: ds GetUserOrgs_def image_image)
  ultimately show ?thesis by blast
qed

theorem membership_views_agree_witness:
  "\<exists>rs. GetUserOrgs MemoryOrgStore_Store ''u1'' sample_members = Inr rs \<and> ''o2'' \<in> r_OrgID ` set rs"
proof -
  let ?us = "MemoryStore_Store ascii_ToLower"
  have "ListOrgMembers MemoryOrgStore_Store ?us ''o2'' alice_store sample_members =
      Inr [org_member_detail ?us alice_store sales_member]"
    by (simp add: ListOrgMembers_def MemoryOrgStore_ListMembers_def sample_members_def sample_orgs_eq slice_at_def)
  from membership_views_agree [OF sample_members_reach [of False] this] show ?thesis
    by (simp add: sales_member_def) blast
qed

text \<open>
  A request to add a member has exactly one of four outcomes, tried in this order: the
  user does not exist or is deleted, the organization does not exist, the user is a member
  already (in these three the store is unchanged), or the membership is recorded with the
  role of the request, \<open>member\<close> when it names none.
\<close>

theorem add_org_member_outcomes:
  assumes "store_inv u" and "org_reach moves I s"
    and "AddOrgMember MemoryOrgStore_Store (MemoryStore_Store lower) g req u s = (r, s')"
  shows "case tbl_get (ao_UserID req) (ms_users u) of
       Inl _ \<Rightarrow> r = Inl ErrUserNotFound \<and> s' = s
     | Inr _ \<Rightarrow>
         if mo_orgs s g = None then r = Inl ErrOrgNotFound \<and> s' = s
         else if \<exists>x \<in> org_rels s. r_OrgID x = g \<and> r_UserID x = ao_UserID req
         then r = Inl ErrMemberExists \<and> s' = s
         else \<exists>rel. r = Inr rel \<and> r_UserID rel = ao_UserID req \<and> r_OrgID rel = g \<and>
                r_Role rel = (if ao_Role req = [] then ''member'' else ao_Role req) \<and>
                r_IsPrimary rel = ao_IsPrimary req \<and>
                mo_orgs s' = mo_orgs s \<and> org_rels s' = insert rel (org_rels s) \<and> org_inv s'"
  by (rule mem_dir.add_org_member [OF assms(1) org_inv_reachable [OF assms(2)] assms(3)])

theorem add_org_member_outcomes_witness:
  "org_rels sample_members = insert sales_member (org_rels sample_orgs)"
proof -
  have "tbl_get ''u1'' (ms_users alice_store) = Inr (stamp_new_user 0 alice)"
    by (simp add: alice_store_eq tbl_get_def live_def)
  moreover have "org_rels sample_orgs = {}" by (simp add: sample_orgs_eq memberships_def)
  ultimately show ?thesis
    using add_org_member_outcomes [OF alice_store_inv sample_orgs_reach [of False] join_sales_eq]
    by (simp add: join_sales_def sample_orgs_eq)
qed

text \<open>
  Removing the membership that was just added brings back exactly the memberships and
  organizations there were before.
\<close>

theorem add_then_remove_member:
  assumes "store_inv u" and "org_reach moves I s"
    and "AddOrgMember MemoryOrgStore_Store (MemoryStore_Store lower) g req u s = (Inr rel, s')"
  shows "\<exists>s''. RemoveOrgMember MemoryOrgStore_Store g (ao_UserID req) s' = (Inr (), s'') \<and>
           org_rels s'' = org_rels s \<and> mo_orgs s'' = mo_orgs s"
  by (rule mem_dir.add_then_remove [OF assms(1) org_inv_reachable [OF assms(2)] assms(3)])

theorem add_then_remove_member_witness:
  "\<exists>s. RemoveOrgMember MemoryOrgStore_Store ''o2'' ''u1'' sample_members = (Inr (), s) \<and>
       org_rels s = org_rels sample_orgs \<and> mo_orgs s = mo_orgs sample_orgs"
  using add_then_remove_member [OF alice_store_inv sample_orgs_reach [of False] join_sales_eq]
  by (simp add: join_sales_def)

text \<open>
  Deleting an organization succeeds exactly when it exists; afterwards it is not found,
  no user lists it, and all other organizations and memberships are as before, so that an
  organization below it keeps the id of a parent that is gone.
\<close>

theorem delete_org_cascade:
  assumes "org_reach moves I s" and "DeleteOrg MemoryOrgStore_Store g s = (r, s')"
  shows "if mo_orgs s g = None then r = Inl ErrOrgNotFound \<and> s' = s
         else r = Inr () \<and> GetOrg MemoryOrgStore_Store g s' = Inl ErrOrgNotFound \<and>
           (\<forall>u rs. GetUserOrgs MemoryOrgStore_Store u s' = Inr rs \<longrightarrow> g \<notin> r_OrgID ` set rs) \<and>
           (\<forall>i. i \<noteq> g \<longrightarrow> mo_orgs s' i = mo_orgs s i) \<and>
           org_rels s' = {rel \<in> org_rels s. r_OrgID rel \<noteq> g}"
proof -
  have inv: "org_inv s" using assms(1) by (rule org_inv_reachable)
  have inv': "org_inv s'" using org_inv_Delete [OF inv, of g] assms(2) by (simp add: DeleteOrg_def)
  show ?thesis
  proof (cases r)
    case (Inl e)
    with mem_org.delete_err [of g s e s'] assms(2) show ?thesis by (simp add: DeleteOrg_def)
  next
    case (Inr x)
    have d: "os_Delete MemoryOrgStore_Store g s = (Inr (), s')"
      using assms(2) Inr by (simp add: DeleteOrg_def)
    have "g \<notin> r_OrgID ` set rs" if "GetUserOrgs MemoryOrgStore_Store u s' = Inr rs" for u rs
      using that mem_org.get_user_orgs [OF inv', of u] mem_org.delete_ok [OF inv d]
      by (auto simp: GetUserOrgs_def)
    with mem_org.delete_ok [OF inv d] Inr show ?thesis
      by (simp add: GetOrg_def mem_org.get_by_id [simplified])
  qed
qed

theorem delete_org_cascade_witness:
  "fst (DeleteOrg MemoryOrgStore_Store ''o1'' sample_orgs) = Inr () \<and>
   mo_orgs (snd (DeleteOrg MemoryOrgStore_Store ''o1'' sample_orgs)) ''o2'' =
     Some (stored_org ''o2'' ''Sales'' ''o1'' ''/o1/o2'')"
  using delete_org_cascade [OF sample_orgs_reach [of False], of "''o1''"
      "fst (DeleteOrg MemoryOrgStore_Store ''o1'' sample_orgs)"
      "snd (DeleteOrg MemoryOrgStore_Store ''o1'' sample_orgs)"]
  by (simp add: sample_orgs_eq [THEN arg_cong [where f = mo_orgs]])

text \<open>
  C17: as long as no update names a new parent, the organizations form a forest in every
  reachable state: following parents never comes back to where it started, and the path of
  an organization is the path of its parent followed by its own id.
\<close>

theorem organizations_form_a_forest:
  assumes "org_reach False I s"
  shows "acyclic (parent_of s) \<and>
    (\<forall>i org. mo_orgs s i = Some org \<longrightarrow>
       (o_ParentID org = [] \<longrightarrow> o_Path org = ''/'' @ i) \<and>
       (\<forall>parent. mo_orgs s (o_ParentID org) = Some parent \<longrightarrow> o_Path org = o_Path parent @ ''/'' @ i))"
proof -
  have tree: "tree_inv I s" using tree_inv_reachable [OF assms] by simp
  have "(o_ParentID org = [] \<longrightarrow> o_Path org = ''/'' @ i) \<and>
      (\<forall>parent. mo_orgs s (o_ParentID org) = Some parent \<longrightarrow> o_Path org = o_Path parent @ ''/'' @ i)"
    if org: "mo_orgs s i = Some org" for i org
  proof -
    have "mo_orgs s [] = None" using tree unfolding tree_inv_def by auto
    then have "o_ParentID org \<noteq> []" if "mo_orgs s (o_ParentID org) = Some parent" for parent
      using that by auto
    with tree_invD(2,4) [OF tree org] show ?thesis by (auto simp: path_ok_def)
  qed
  with tree_inv_acyclic [OF tree] show ?thesis by blast
qed

theorem organizations_form_a_forest_witness:
  "acyclic (parent_of sample_members) \<and> (''o2'', ''o1'') \<in> parent_of sample_members"
  using organizations_form_a_forest [OF sample_members_reach]
  by (simp add: parent_of_def sample_members_def sample_orgs_eq stored_org_def)

text \<open>
  An update may put an organization below its own child: the store takes any parent id,
  does not look where that organization lies, and leaves the path as it was. Then following
  the parents runs in a circle, and the path of a root organization stands beside a parent.
\<close>

theorem moving_update_breaks_hierarchy:
  "\<exists>I s org. org_reach True I s \<and> mo_orgs s ''o1'' = Some org \<and>
     o_ParentID org = ''o2'' \<and> o_Path org = ''/o1'' \<and> \<not> acyclic (parent_of s)"
proof -
  let ?req = "\<lparr>uo_Name = [], uo_ParentID = ''o2''\<rparr>"
  obtain r s where call: "UpdateOrg MemoryOrgStore_Store 0 ''o1'' ?req sample_orgs = (r, s)" by force
  have reach: "org_reach True {''o1'', ''o2'', ''o3''} s"
    by (rule org_reach.update [OF sample_orgs_reach _ call]) simp
  have o1: "mo_orgs s ''o1'' = Some (stored_org ''o1'' ''Acme'' ''o2'' ''/o1'')"
    and o2: "mo_orgs s ''o2'' = Some (stored_org ''o2'' ''Sales'' ''o1'' ''/o1/o2'')"
    using call by (auto simp: UpdateOrg_def MemoryOrgStore_Update_def sample_orgs_eq
        merge_org_def Let_def stored_org_def zero_Organization_def)
  then have "(''o1'', ''o2'') \<in> parent_of s" and "(''o2'', ''o1'') \<in> parent_of s"
    by (simp_all add: parent_of_def stored_org_def)
  then have "\<not> acyclic (parent_of s)" unfolding acyclic_def by (meson trancl.simps)
  moreover have "o_ParentID (stored_org ''o1'' ''Acme'' ''o2'' ''/o1'') = ''o2''"
    and "o_Path (stored_org ''o1'' ''Acme'' ''o2'' ''/o1'') = ''/o1''"
    by (simp_all add: stored_org_def)
  ultimately show ?thesis using reach o1 by blast
qed

text \<open>
  Two requests for consecutive pages may together miss an organization and show another
  one twice, although nothing changes between them, because each ranges over the map in an
  order of its own.
\<close>

theorem pages_of_organizations_can_overlap:
  "\<exists>ord1 ord2 a b. iter_order ord1 (mo_orgs sample_orgs) \<and> iter_order ord2 (mo_orgs sample_orgs) \<and>
     ListOrgs MemoryOrgStore_Store ord1 0 2 sample_orgs = Some (Inr (a, 3)) \<and>
     ListOrgs MemoryOrgStore_Store ord2 2 2 sample_orgs = Some (Inr (b, 3)) \<and>
     ''o1'' \<in> o_ID ` set a \<and> ''o1'' \<in> o_ID ` set b \<and> ''o3'' \<notin> o_ID ` (set a \<union> set b)"
proof -
  let ?ord1 = "[''o1'', ''o2'', ''o3'']" and ?ord2 = "[''o3'', ''o2'', ''o1'']"
  let ?o1 = "stored_org ''o1'' ''Acme'' [] ''/o1''" and ?o2 = "stored_org ''o2'' ''Sales'' ''o1'' ''/o1/o2''"
  have "iter_order ?ord1 (mo_orgs sample_orgs)" and "iter_order ?ord2 (mo_orgs sample_orgs)"
    by (auto simp: iter_order_def sample_orgs_eq)
  moreover have "ListOrgs MemoryOrgStore_Store ?ord1 0 2 sample_orgs = Some (Inr ([?o1, ?o2], 3))"
    and "ListOrgs MemoryOrgStore_Store ?ord2 2 2 sample_orgs = Some (Inr ([?o1], 3))"
    by (simp_all add: ListOrgs_def MemoryOrgStore_List_def sample_orgs_eq paginate_Some numeral_2_eq_2)
  moreover have "''o1'' \<in> o_ID ` set [?o1, ?o2]" and "''o1'' \<in> o_ID ` set [?o1]"
    and "''o3'' \<notin> o_ID ` (set [?o1, ?o2] \<union> set [?o1])"
    by (simp_all add: stored_org_def)
  ultimately show ?thesis by blast
qed

end
