(* ===== verification/Services.thy ===== *)
theory Services
  imports Directory_History
begin

text \<open>
  The services put together, as \<open>cmd/main.go\<close> does: a \<open>services\<close> value holds the stores
  and the authentication service that both services share, a \<open>world\<close> value the state of all
  four stores, and an \<open>env\<close> value what one request takes from its surroundings: the readings
  of the clock, the identifier from \<open>uuid.New()\<close> and the order in which a map is ranged over.
\<close>

record ('u, 'j, 'o, 'g) services =
  sv_users :: "'u user_Store"
  sv_jobs :: "'j SyncJobStore"
  sv_orgs :: "'o OrgStore"
  sv_groups :: "'g GroupStore"
  sv_auth :: auth_Service

record ('u, 'j, 'o, 'g) world =
  w_users :: 'u
  w_jobs :: 'j
  w_orgs :: 'o
  w_groups :: 'g

record env =
  ev_now :: time
  ev_now' :: time
  ev_now'' :: time
  ev_uuid :: string
  ev_order :: "string list"

type_synonym memory_services = "(MemoryStore, MemorySyncJobStore, MemoryOrgStore, MemoryGroupStore) services"

type_synonym memory_world = "(MemoryStore, MemorySyncJobStore, MemoryOrgStore, MemoryGroupStore) world"

text \<open>The in-memory stores of \<open>main\<close>, and their initial state.\<close>

definition memory_services_of :: "(string \<Rightarrow> string) \<Rightarrow> auth_Service \<Rightarrow> memory_services" where
  "memory_services_of lower auth =
     \<lparr>sv_users = MemoryStore_Store lower, sv_jobs = MemorySyncJobStore_Store,
      sv_orgs = MemoryOrgStore_Store, sv_groups = MemoryGroupStore_Store, sv_auth = auth\<rparr>"

definition empty_world :: memory_world where
  "empty_world = \<lparr>w_users = NewMemoryStore, w_jobs = NewMemorySyncJobStore,
     w_orgs = NewMemoryOrgStore, w_groups = NewMemoryGroupStore\<rparr>"

lemma memory_services_simps [simp]:
  "sv_users (memory_services_of lower auth) = MemoryStore_Store lower"
  "sv_jobs (memory_services_of lower auth) = MemorySyncJobStore_Store"
  "sv_orgs (memory_services_of lower auth) = MemoryOrgStore_Store"
  "sv_groups (memory_services_of lower auth) = MemoryGroupStore_Store"
  "sv_auth (memory_services_of lower auth) = auth"
  by (simp_all add: memory_services_of_def)

text \<open>The invariant of the whole state.\<close>

definition world_inv :: "memory_world \<Rightarrow> bool" where
  "world_inv w \<longleftrightarrow> store_inv (w_users w) \<and> org_inv (w_orgs w) \<and> grp_inv (w_groups w)"

lemma world_inv_empty: "world_inv empty_world"
  by (simp add: world_inv_def empty_world_def store_inv_NewMemoryStore org_inv_New grp_inv_New)


section \<open>Every method keeps the invariant of its store\<close>

lemma org_methods_inv:
  assumes "org_inv s"
  shows "CreateOrg MemoryOrgStore_Store uuid now creq s = (r, s') \<Longrightarrow> org_inv s'"
    and "UpdateOrg MemoryOrgStore_Store now i ureq s = (r, s') \<Longrightarrow> org_inv s'"
    and "DeleteOrg MemoryOrgStore_Store i s = (d, s') \<Longrightarrow> org_inv s'"
    and "AddOrgMember MemoryOrgStore_Store us i areq u s = (a, s') \<Longrightarrow> org_inv s'"
    and "RemoveOrgMember MemoryOrgStore_Store i j s = (d, s') \<Longrightarrow> org_inv s'"
proof -
  show "CreateOrg MemoryOrgStore_Store uuid now creq s = (r, s') \<Longrightarrow> org_inv s'"
    using mem_org.invar_create [OF assms] by (metis CreateOrg_def snd_conv)
  show "UpdateOrg MemoryOrgStore_Store now i ureq s = (r, s') \<Longrightarrow> org_inv s'"
    using UpdateOrg_store org_inv_Update [OF assms] by (metis snd_conv)
  show "DeleteOrg MemoryOrgStore_Store i s = (d, s') \<Longrightarrow> org_inv s'"
    using mem_org.invar_delete [OF assms] by (metis DeleteOrg_def snd_conv)
  show "AddOrgMember MemoryOrgStore_Store us i areq u s = (a, s') \<Longrightarrow> org_inv s'"
    using AddOrgMember_store [of us i areq u s] org_inv_AddMember [OF assms] assms by auto
  show "RemoveOrgMember MemoryOrgStore_Store i j s = (d, s') \<Longrightarrow> org_inv s'"
    using mem_org.invar_remove [OF assms] by (metis RemoveOrgMember_def snd_conv)
qed

lemma user_methods_inv:
  assumes "store_inv s"
  shows "ms_users s uuid = None \<Longrightarrow> CreateUser (MemoryStore_Store lower) auth uuid now creq s = (r, s') \<Longrightarrow> store_inv s'"
    and "UpdateUser (MemoryStore_Store lower) now i ureq s = (r, s') \<Longrightarrow> store_inv s'"
    and "DeleteUser (MemoryStore_Store lower) now i s = (d, s') \<Longrightarrow> store_inv s'"
    and "Login (MemoryStore_Store lower) lib auth now now' now'' n p s = (l, s') \<Longrightarrow> store_inv s'"
    and "SetOnline (MemoryStore_Store lower) now i b s = (d, s') \<Longrightarrow> store_inv s'"
    and "Logout (MemoryStore_Store lower) now i s = (d, s') \<Longrightarrow> store_inv s'"
proof -
  note upd = mem.update [OF assms, of lower, THEN conjunct1]
  show "ms_users s uuid = None \<Longrightarrow> CreateUser (MemoryStore_Store lower) auth uuid now creq s = (r, s') \<Longrightarrow> store_inv s'"
    using mem.invar_create_user [OF assms] by (metis snd_conv)
  show "UpdateUser (MemoryStore_Store lower) now i ureq s = (r, s') \<Longrightarrow> store_inv s'"
    using upd by (auto simp: UpdateUser_def split: prod.splits sum.splits) (metis snd_conv)+
  show "DeleteUser (MemoryStore_Store lower) now i s = (d, s') \<Longrightarrow> store_inv s'"
    using mem.delete [OF assms, of lower now i] by (simp add: DeleteUser_def)
  show "Login (MemoryStore_Store lower) lib auth now now' now'' n p s = (l, s') \<Longrightarrow> store_inv s'"
    using mem.invar_login [OF assms] by (metis snd_conv)
  show "SetOnline (MemoryStore_Store lower) now i b s = (d, s') \<Longrightarrow> store_inv s'"
    and "Logout (MemoryStore_Store lower) now i s = (d, s') \<Longrightarrow> store_inv s'"
    using upd by (metis SetOnline_def snd_conv, metis Logout_def snd_conv)
qed

lemma UpdateGroup_store:
  "snd (UpdateGroup MemoryGroupStore_Store now i req s) =
     snd (MemoryGroupStore_Update now (zero_Group\<lparr>g_ID := i, g_Name := ug_Name req,
            g_Description := ug_Description req, g_Type := ug_Type req\<rparr>) s)"
  by (simp add: UpdateGroup_def split: prod.split sum.split)

lemma AddGroupMember_store:
  "snd (AddGroupMember MemoryGroupStore_Store us now i req u s) = s \<or>
   (\<exists>m. snd (AddGroupMember MemoryGroupStore_Store us now i req u s) = snd (MemoryGroupStore_AddMember now m s))"
  by (auto simp: AddGroupMember_def Let_def split: sum.split)

lemma group_methods_inv:
  assumes "grp_inv s"
  shows "CreateGroup MemoryGroupStore_Store uuid now creq s = (r, s') \<Longrightarrow> grp_inv s'"
    and "UpdateGroup MemoryGroupStore_Store now i ureq s = (r, s') \<Longrightarrow> grp_inv s'"
    and "DeleteGroup MemoryGroupStore_Store i s = (d, s') \<Longrightarrow> grp_inv s'"
    and "AddGroupMember MemoryGroupStore_Store us now i areq u s = (a, s') \<Longrightarrow> grp_inv s'"
    and "RemoveGroupMember MemoryGroupStore_Store i j s = (d, s') \<Longrightarrow> grp_inv s'"
proof -
  show "CreateGroup MemoryGroupStore_Store uuid now creq s = (r, s') \<Longrightarrow> grp_inv s'"
    using mem_grp.invar_create [OF assms] by (metis CreateGroup_def snd_conv)
  show "UpdateGroup MemoryGroupStore_Store now i ureq s = (r, s') \<Longrightarrow> grp_inv s'"
    using UpdateGroup_store grp_inv_Update [OF assms] by (metis snd_conv)
  show "DeleteGroup MemoryGroupStore_Store i s = (d, s') \<Longrightarrow> grp_inv s'"
    using mem_grp.invar_delete [OF assms] by (metis DeleteGroup_def snd_conv)
  show "AddGroupMember MemoryGroupStore_Store us now i areq u s = (a, s') \<Longrightarrow> grp_inv s'"
    using AddGroupMember_store [of us now i areq u s] grp_inv_AddMember [OF assms] assms by auto
  show "RemoveGroupMember MemoryGroupStore_Store i j s = (d, s') \<Longrightarrow> grp_inv s'"
    using mem_grp.invar_remove [OF assms] by (metis RemoveGroupMember_def snd_conv)
qed


section \<open>Panics\<close>

text \<open>A listing panics exactly when it starts before the first entry.\<close>

lemma length_range_values_le: "length (range_values ord m) \<le> length ord"
  by (induction ord) (auto split: option.split)

lemma paginate_crash:
  assumes "length ord < 2 ^ 62"
  shows "paginate offset (clamp_limit limit) (range_values ord m) = None \<longleftrightarrow> offset < 0"
proof (cases "offset < 0")
  case True
  then show ?thesis by (simp add: paginate_negative)
next
  case False
  have "int (length (range_values ord m)) < 2 ^ 62"
    using assms length_range_values_le [of ord m] by simp
  with False show ?thesis by (simp add: paginate_clamped)
qed

lemma ListOrgs_crash:
  "length ord < 2 ^ 62 \<Longrightarrow> ListOrgs MemoryOrgStore_Store ord offset limit s = None \<longleftrightarrow> offset < 0"
  using paginate_crash [of ord offset limit "mo_orgs s"]
  by (simp add: ListOrgs_def clamp_limit_def MemoryOrgStore_List_def)

lemma ListGroups_crash:
  "length ord < 2 ^ 62 \<Longrightarrow> ListGroups MemoryGroupStore_Store ord offset limit s = None \<longleftrightarrow> offset < 0"
  using paginate_crash [of ord offset limit "mg_groups s"]
  by (simp add: ListGroups_def clamp_limit_def MemoryGroupStore_List_def)

lemma ListUsers_crash:
  assumes "length ord < 2 ^ 62"
  shows "ListUsers (MemoryStore_Store lower) ord q offset limit s = None \<longleftrightarrow> offset < 0"
proof -
  have "paginate offset (clamp_limit limit) (filter P (range_values ord (ms_users s))) = None \<longleftrightarrow> offset < 0" for P
  proof (cases "offset < 0")
    case False
    have "int (length (filter P (range_values ord (ms_users s)))) < 2 ^ 62"
      using le_trans [OF length_filter_le length_range_values_le, of P ord "ms_users s"] assms by simp
    with False show ?thesis by (simp add: paginate_clamped)
  qed (simp add: paginate_negative)
  then show ?thesis
    by (simp add: ListUsers_def MemoryStore_List_def MemoryStore_Search_def Let_def)
qed

end
