(* ===== verification/Api.thy ===== *)
theory Api
  imports Services
begin

text \<open>
  The REST interface of \<open>internal/api\<close>: the handlers of \<open>handler.go\<close> and
  \<open>directory_handler.go\<close>, the token middleware and the route table of \<open>router.go\<close>. The
  web framework \<open>gin\<close> is not part of the repository. \<open>gin_lib\<close> holds what the code takes
  from it: the binding of a JSON body to each request struct with its \<open>binding\<close> tags
  checked, the search for the route of a request, the pages of the standard library's profiler,
  and the response of the \<open>Recovery\<close> middleware to a panic. A handler that panics returns \<^term>\<open>None\<close>.
\<close>

section \<open>Requests, responses and the framework\<close>

text \<open>\<open>rq_query\<close> holds the parameters of the query, \<open>rq_auth\<close> the header \<open>Authorization\<close>.\<close>

record http_request =
  rq_method :: string
  rq_path :: string
  rq_query :: "string \<rightharpoonup> string"
  rq_auth :: string
  rq_body :: string

text \<open>The bodies the handlers write, before they are turned into JSON.\<close>

datatype http_body =
    NoBody
  | ErrorBody string
  | MessageBody string
  | OnlineBody string
  | StatusBody string
  | CountBody int
  | UserBody User
  | UsersBody int int int "User list"
  | LoginBody LoginResponse
  | JobBody SyncJob
  | OrgBody Organization
  | OrgsBody int int int "Organization list"
  | OrgChildrenBody "Organization list"
  | OrgRelationBody UserOrgRelation
  | OrgMembersBody "OrgMemberDetail list"
  | UserOrgsBody "UserOrgRelation list"
  | GroupBody Group
  | GroupsBody int int int "Group list"
  | GroupMemberBody GroupMember
  | GroupMembersBody "GroupMemberDetail list"
  | UserGroupsBody "GroupMember list"

record http_response =
  ht_status :: nat
  ht_body :: http_body

definition c_JSON :: "nat \<Rightarrow> http_body \<Rightarrow> http_response" where
  "c_JSON status body = \<lparr>ht_status = status, ht_body = body\<rparr>"

text \<open>The endpoints: one for each handler that a route names; \<open>EpPprof\<close> carries the name of a profile.\<close>

datatype endpoint =
    EpHealth | EpPprof string | EpLogin | EpLogout | EpOnline
  | EpCreateUser | EpListUsers | EpGetOnlineCount | EpGetUser | EpUpdateUser | EpDeleteUser
  | EpGetUserOrgs | EpGetUserGroups
  | EpCreateOrg | EpListOrgs | EpGetOrg | EpUpdateOrg | EpDeleteOrg | EpListOrgChildren
  | EpAddOrgMember | EpListOrgMembers | EpRemoveOrgMember
  | EpCreateGroup | EpListGroups | EpGetGroup | EpUpdateGroup | EpDeleteGroup
  | EpAddGroupMember | EpListGroupMembers | EpRemoveGroupMember
  | EpCreateSyncJob | EpGetSyncJob

text \<open>A route: method, path pattern, whether the token middleware is in front, and handler.\<close>

type_synonym route = "string \<times> string \<times> bool \<times> endpoint"

record gin_lib =
  gl_CreateUser :: "string \<Rightarrow> CreateUserRequest result"
  gl_UpdateUser :: "string \<Rightarrow> UpdateUserRequest result"
  gl_Login :: "string \<Rightarrow> LoginRequest result"
  gl_CreateSyncJob :: "string \<Rightarrow> CreateSyncJobRequest result"
  gl_CreateOrg :: "string \<Rightarrow> CreateOrgRequest result"
  gl_UpdateOrg :: "string \<Rightarrow> UpdateOrgRequest result"
  gl_AddOrgMember :: "string \<Rightarrow> AddOrgMemberRequest result"
  gl_CreateGroup :: "string \<Rightarrow> CreateGroupRequest result"
  gl_UpdateGroup :: "string \<Rightarrow> UpdateGroupRequest result"
  gl_AddGroupMember :: "string \<Rightarrow> AddGroupMemberRequest result"
  gl_find :: "route list \<Rightarrow> string \<Rightarrow> string \<Rightarrow> (route \<times> (string \<Rightarrow> string)) option"
  gl_pprof :: "string \<Rightarrow> http_response"
  gl_not_found :: http_response
  gl_recovered :: http_response

text \<open>Documented behaviour: only a route of the table is found, for its own method.\<close>

definition gin_routes :: "gin_lib \<Rightarrow> bool" where
  "gin_routes gin \<longleftrightarrow> (\<forall>table m path r params. gl_find gin table m path = Some (r, params) \<longrightarrow>
     r \<in> set table \<and> fst r = m)"

text \<open>What a handler sees besides the request: the path parameters and the values that the
  middleware has set.\<close>

record gin_Context =
  cx_param :: "string \<Rightarrow> string"
  cx_claims :: "Claims option"

definition GetString_user_id :: "gin_Context \<Rightarrow> string" where
  "GetString_user_id c = (case cx_claims c of None \<Rightarrow> [] | Some claims \<Rightarrow> c_UserID claims)"

definition DefaultQuery :: "http_request \<Rightarrow> string \<Rightarrow> string \<Rightarrow> string" where
  "DefaultQuery rq key dflt = (case rq_query rq key of None \<Rightarrow> dflt | Some v \<Rightarrow> v)"

type_synonym ('u, 'j, 'o, 'g) http_handler =
  "gin_lib \<Rightarrow> jwt_lib \<Rightarrow> ('u, 'j, 'o, 'g) services \<Rightarrow> env \<Rightarrow> http_request \<Rightarrow> gin_Context \<Rightarrow> ('u, 'j, 'o, 'g) world
    \<Rightarrow> (http_response \<times> ('u, 'j, 'o, 'g) world) option"


section \<open>Users, sessions and jobs\<close>

definition Handler_CreateUser :: "('u, 'j, 'o, 'g) http_handler" where
  "Handler_CreateUser gin lib sv env rq c w =
     (case gl_CreateUser gin (rq_body rq) of
        Inl err \<Rightarrow> Some (c_JSON 400 (ErrorBody (error_text err)), w)
      | Inr req \<Rightarrow>
          (case CreateUser (sv_users sv) (sv_auth sv) (ev_uuid env) (ev_now env) req (w_users w) of
             (Inl err, s) \<Rightarrow>
               Some (if err = ErrUserAlreadyExists then c_JSON 409 (ErrorBody ''user already exists'')
                     else c_JSON 400 (ErrorBody (error_text err)), w\<lparr>w_users := s\<rparr>)
           | (Inr x, s) \<Rightarrow> Some (c_JSON 201 (UserBody x), w\<lparr>w_users := s\<rparr>)))"

definition Handler_GetUser :: "('u, 'j, 'o, 'g) http_handler" where
  "Handler_GetUser gin lib sv env rq c w =
     (case GetUser (sv_users sv) (cx_param c ''id'') (w_users w) of
        Inl err \<Rightarrow>
          Some (if err = ErrUserNotFound then c_JSON 404 (ErrorBody ''user not found'')
                else c_JSON 500 (ErrorBody ''failed to get user''), w)
      | Inr x \<Rightarrow> Some (c_JSON 200 (UserBody x), w))"

definition Handler_UpdateUser :: "('u, 'j, 'o, 'g) http_handler" where
  "Handler_UpdateUser gin lib sv env rq c w =
     (case gl_UpdateUser gin (rq_body rq) of
        Inl err \<Rightarrow> Some (c_JSON 400 (ErrorBody (error_text err)), w)
      | Inr req \<Rightarrow>
          (case UpdateUser (sv_users sv) (ev_now env) (cx_param c ''id'') req (w_users w) of
             (Inl err, s) \<Rightarrow>
               Some (if err = ErrUserNotFound then c_JSON 404 (ErrorBody ''user not found'')
                     else c_JSON 500 (ErrorBody ''failed to update user''), w\<lparr>w_users := s\<rparr>)
           | (Inr x, s) \<Rightarrow> Some (c_JSON 200 (UserBody x), w\<lparr>w_users := s\<rparr>)))"

definition Handler_DeleteUser :: "('u, 'j, 'o, 'g) http_handler" where
  "Handler_DeleteUser gin lib sv env rq c w =
     (case DeleteUser (sv_users sv) (ev_now env) (cx_param c ''id'') (w_users w) of
        (Inl err, s) \<Rightarrow>
          Some (if err = ErrUserNotFound then c_JSON 404 (ErrorBody ''user not found'')
                else c_JSON 500 (ErrorBody ''failed to delete user''), w\<lparr>w_users := s\<rparr>)
      | (Inr x, s) \<Rightarrow> Some (c_JSON 204 NoBody, w\<lparr>w_users := s\<rparr>))"

definition Handler_ListUsers :: "('u, 'j, 'o, 'g) http_handler" where
  "Handler_ListUsers gin lib sv env rq c w =
     (let offset = strconv_Atoi (DefaultQuery rq ''offset'' ''0'');
          limit = strconv_Atoi (DefaultQuery rq ''limit'' ''20'')
      in case ListUsers (sv_users sv) (ev_order env) (DefaultQuery rq ''q'' []) offset limit (w_users w) of
           None \<Rightarrow> None
         | Some (Inl err) \<Rightarrow> Some (c_JSON 500 (ErrorBody ''failed to list users''), w)
         | Some (Inr (items, total_count)) \<Rightarrow>
             Some (c_JSON 200 (UsersBody total_count offset limit items), w))"

definition Handler_Login :: "('u, 'j, 'o, 'g) http_handler" where
  "Handler_Login gin lib sv env rq c w =
     (case gl_Login gin (rq_body rq) of
        Inl err \<Rightarrow> Some (c_JSON 400 (ErrorBody (error_text err)), w)
      | Inr req \<Rightarrow>
          (case Login (sv_users sv) lib (sv_auth sv) (ev_now env) (ev_now' env) (ev_now'' env)
                  (lg_Username req) (lg_Password req) (w_users w) of
             (Inl err, s) \<Rightarrow>
               Some (c_JSON 401 (ErrorBody (error_text err)), w\<lparr>w_users := s\<rparr>)
           | (Inr x, s) \<Rightarrow> Some (c_JSON 200 (LoginBody x), w\<lparr>w_users := s\<rparr>)))"

definition Handler_CreateSyncJob :: "('u, 'j, 'o, 'g) http_handler" where
  "Handler_CreateSyncJob gin lib sv env rq c w =
     (case gl_CreateSyncJob gin (rq_body rq) of
        Inl err \<Rightarrow> Some (c_JSON 400 (ErrorBody (error_text err)), w)
      | Inr req \<Rightarrow>
          (case CreateSyncJob (sv_jobs sv) (ev_uuid env) (ev_now env) (ev_now' env) req (w_jobs w) of
             (Inl err, s) \<Rightarrow>
               Some (c_JSON 500 (ErrorBody ''failed to create sync job''), w\<lparr>w_jobs := s\<rparr>)
           | (Inr x, s) \<Rightarrow> Some (c_JSON 201 (JobBody x), w\<lparr>w_jobs := s\<rparr>)))"

definition Handler_GetSyncJob :: "('u, 'j, 'o, 'g) http_handler" where
  "Handler_GetSyncJob gin lib sv env rq c w =
     (case GetSyncJob (sv_jobs sv) (cx_param c ''id'') (w_jobs w) of
        Inl err \<Rightarrow>
          Some (c_JSON 404 (ErrorBody ''sync job not found''), w)
      | Inr x \<Rightarrow> Some (c_JSON 200 (JobBody x), w))"

definition Handler_GetOnlineCount :: "('u, 'j, 'o, 'g) http_handler" where
  "Handler_GetOnlineCount gin lib sv env rq c w =
     (case GetOnlineCount (sv_users sv) (ev_order env) (w_users w) of
        None \<Rightarrow> None
      | Some (Inl err) \<Rightarrow> Some (c_JSON 500 (ErrorBody ''failed to get online count''), w)
      | Some (Inr count) \<Rightarrow> Some (c_JSON 200 (CountBody count), w))"

definition Handler_Logout :: "('u, 'j, 'o, 'g) http_handler" where
  "Handler_Logout gin lib sv env rq c w =
     (let userID = GetString_user_id c
      in if userID = [] then Some (c_JSON 401 (ErrorBody ''unauthorized''), w)
         else case Logout (sv_users sv) (ev_now env) userID (w_users w) of
                (Inl err, s) \<Rightarrow> Some (c_JSON 500 (ErrorBody ''logout failed''), w\<lparr>w_users := s\<rparr>)
              | (Inr _, s) \<Rightarrow> Some (c_JSON 200 (MessageBody ''logged out successfully''), w\<lparr>w_users := s\<rparr>))"

definition Handler_Online :: "('u, 'j, 'o, 'g) http_handler" where
  "Handler_Online gin lib sv env rq c w =
     (let userID = GetString_user_id c
      in if userID = [] then Some (c_JSON 401 (ErrorBody ''unauthorized''), w)
         else case SetOnline (sv_users sv) (ev_now env) userID True (w_users w) of
                (Inl err, s) \<Rightarrow> Some (c_JSON 500 (ErrorBody ''failed to set online''), w\<lparr>w_users := s\<rparr>)
              | (Inr _, s) \<Rightarrow> Some (c_JSON 200 (OnlineBody userID), w\<lparr>w_users := s\<rparr>))"

definition Health :: "('u, 'j, 'o, 'g) http_handler" where
  "Health gin lib sv env rq c w = Some (c_JSON 200 (StatusBody ''ok''), w)"

definition Pprof :: "string \<Rightarrow> ('u, 'j, 'o, 'g) http_handler" where
  "Pprof name gin lib sv env rq c w = Some (gl_pprof gin name, w)"


section \<open>Organizations\<close>

definition DirectoryHandler_CreateOrg :: "('u, 'j, 'o, 'g) http_handler" where
  "DirectoryHandler_CreateOrg gin lib sv env rq c w =
     (case gl_CreateOrg gin (rq_body rq) of
        Inl err \<Rightarrow> Some (c_JSON 400 (ErrorBody (error_text err)), w)
      | Inr req \<Rightarrow>
          (case CreateOrg (sv_orgs sv) (ev_uuid env) (ev_now env) req (w_orgs w) of
             (Inl err, s) \<Rightarrow>
               Some (c_JSON 400 (ErrorBody (error_text err)), w\<lparr>w_orgs := s\<rparr>)
           | (Inr x, s) \<Rightarrow> Some (c_JSON 201 (OrgBody x), w\<lparr>w_orgs := s\<rparr>)))"

definition DirectoryHandler_GetOrg :: "('u, 'j, 'o, 'g) http_handler" where
  "DirectoryHandler_GetOrg gin lib sv env rq c w =
     (case GetOrg (sv_orgs sv) (cx_param c ''id'') (w_orgs w) of
        Inl err \<Rightarrow>
          Some (if err = ErrOrgNotFound then c_JSON 404 (ErrorBody ''organization not found'')
                else c_JSON 500 (ErrorBody (error_text err)), w)
      | Inr x \<Rightarrow> Some (c_JSON 200 (OrgBody x), w))"

definition DirectoryHandler_UpdateOrg :: "('u, 'j, 'o, 'g) http_handler" where
  "DirectoryHandler_UpdateOrg gin lib sv env rq c w =
     (case gl_UpdateOrg gin (rq_body rq) of
        Inl err \<Rightarrow> Some (c_JSON 400 (ErrorBody (error_text err)), w)
      | Inr req \<Rightarrow>
          (case UpdateOrg (sv_orgs sv) (ev_now env) (cx_param c ''id'') req (w_orgs w) of
             (Inl err, s) \<Rightarrow>
               Some (if err = ErrOrgNotFound then c_JSON 404 (ErrorBody ''organization not found'')
                     else c_JSON 500 (ErrorBody (error_text err)), w\<lparr>w_orgs := s\<rparr>)
           | (Inr x, s) \<Rightarrow> Some (c_JSON 200 (OrgBody x), w\<lparr>w_orgs := s\<rparr>)))"

definition DirectoryHandler_DeleteOrg :: "('u, 'j, 'o, 'g) http_handler" where
  "DirectoryHandler_DeleteOrg gin lib sv env rq c w =
     (case DeleteOrg (sv_orgs sv) (cx_param c ''id'') (w_orgs w) of
        (Inl err, s) \<Rightarrow>
          Some (if err = ErrOrgNotFound then c_JSON 404 (ErrorBody ''organization not found'')
                else c_JSON 500 (ErrorBody (error_text err)), w\<lparr>w_orgs := s\<rparr>)
      | (Inr x, s) \<Rightarrow> Some (c_JSON 204 NoBody, w\<lparr>w_orgs := s\<rparr>))"

definition DirectoryHandler_ListOrgs :: "('u, 'j, 'o, 'g) http_handler" where
  "DirectoryHandler_ListOrgs gin lib sv env rq c w =
     (let offset = strconv_Atoi (DefaultQuery rq ''offset'' ''0'');
          limit = strconv_Atoi (DefaultQuery rq ''limit'' ''20'')
      in case ListOrgs (sv_orgs sv) (ev_order env) offset limit (w_orgs w) of
           None \<Rightarrow> None
         | Some (Inl err) \<Rightarrow> Some (c_JSON 500 (ErrorBody (error_text err)), w)
         | Some (Inr (items, total_count)) \<Rightarrow>
             Some (c_JSON 200 (OrgsBody total_count offset limit items), w))"

definition DirectoryHandler_ListOrgChildren :: "('u, 'j, 'o, 'g) http_handler" where
  "DirectoryHandler_ListOrgChildren gin lib sv env rq c w =
     (case ListOrgChildren (sv_orgs sv) (ev_order env) (cx_param c ''id'') (w_orgs w) of
        Inl err \<Rightarrow>
          Some (c_JSON 500 (ErrorBody (error_text err)), w)
      | Inr x \<Rightarrow> Some (c_JSON 200 (OrgChildrenBody x), w))"

definition DirectoryHandler_AddOrgMember :: "('u, 'j, 'o, 'g) http_handler" where
  "DirectoryHandler_AddOrgMember gin lib sv env rq c w =
     (case gl_AddOrgMember gin (rq_body rq) of
        Inl err \<Rightarrow> Some (c_JSON 400 (ErrorBody (error_text err)), w)
      | Inr req \<Rightarrow>
          (case AddOrgMember (sv_orgs sv) (sv_users sv) (cx_param c ''id'') req (w_users w) (w_orgs w) of
             (Inl err, s) \<Rightarrow>
               Some (if err = ErrUserNotFound then c_JSON 404 (ErrorBody ''user not found'')
                     else if err = ErrOrgNotFound then c_JSON 404 (ErrorBody ''organization not found'')
                     else if err = ErrMemberExists then c_JSON 409 (ErrorBody ''user is already a member'')
                     else c_JSON 500 (ErrorBody (error_text err)), w\<lparr>w_orgs := s\<rparr>)
           | (Inr x, s) \<Rightarrow> Some (c_JSON 201 (OrgRelationBody x), w\<lparr>w_orgs := s\<rparr>)))"

definition DirectoryHandler_RemoveOrgMember :: "('u, 'j, 'o, 'g) http_handler" where
  "DirectoryHandler_RemoveOrgMember gin lib sv env rq c w =
     (case RemoveOrgMember (sv_orgs sv) (cx_param c ''id'') (cx_param c ''userId'') (w_orgs w) of
        (Inl err, s) \<Rightarrow>
          Some (if err = ErrMemberNotFound then c_JSON 404 (ErrorBody ''member not found'')
                else c_JSON 500 (ErrorBody (error_text err)), w\<lparr>w_orgs := s\<rparr>)
      | (Inr x, s) \<Rightarrow> Some (c_JSON 204 NoBody, w\<lparr>w_orgs := s\<rparr>))"

definition DirectoryHandler_ListOrgMembers :: "('u, 'j, 'o, 'g) http_handler" where
  "DirectoryHandler_ListOrgMembers gin lib sv env rq c w =
     (case ListOrgMembers (sv_orgs sv) (sv_users sv) (cx_param c ''id'') (w_users w) (w_orgs w) of
        Inl err \<Rightarrow>
          Some (if err = ErrOrgNotFound then c_JSON 404 (ErrorBody ''organization not found'')
                else c_JSON 500 (ErrorBody (error_text err)), w)
      | Inr x \<Rightarrow> Some (c_JSON 200 (OrgMembersBody x), w))"

definition DirectoryHandler_GetUserOrgs :: "('u, 'j, 'o, 'g) http_handler" where
  "DirectoryHandler_GetUserOrgs gin lib sv env rq c w =
     (case GetUserOrgs (sv_orgs sv) (cx_param c ''id'') (w_orgs w) of
        Inl err \<Rightarrow>
          Some (c_JSON 500 (ErrorBody (error_text err)), w)
      | Inr x \<Rightarrow> Some (c_JSON 200 (UserOrgsBody x), w))"


section \<open>Groups\<close>

definition DirectoryHandler_CreateGroup :: "('u, 'j, 'o, 'g) http_handler" where
  "DirectoryHandler_CreateGroup gin lib sv env rq c w =
     (case gl_CreateGroup gin (rq_body rq) of
        Inl err \<Rightarrow> Some (c_JSON 400 (ErrorBody (error_text err)), w)
      | Inr req \<Rightarrow>
          (case CreateGroup (sv_groups sv) (ev_uuid env) (ev_now env) req (w_groups w) of
             (Inl err, s) \<Rightarrow>
               Some (c_JSON 500 (ErrorBody (error_text err)), w\<lparr>w_groups := s\<rparr>)
           | (Inr x, s) \<Rightarrow> Some (c_JSON 201 (GroupBody x), w\<lparr>w_groups := s\<rparr>)))"

definition DirectoryHandler_GetGroup :: "('u, 'j, 'o, 'g) http_handler" where
  "DirectoryHandler_GetGroup gin lib sv env rq c w =
     (case GetGroup (sv_groups sv) (cx_param c ''id'') (w_groups w) of
        Inl err \<Rightarrow>
          Some (if err = ErrGroupNotFound then c_JSON 404 (ErrorBody ''group not found'')
                else c_JSON 500 (ErrorBody (error_text err)), w)
      | Inr x \<Rightarrow> Some (c_JSON 200 (GroupBody x), w))"

definition DirectoryHandler_UpdateGroup :: "('u, 'j, 'o, 'g) http_handler" where
  "DirectoryHandler_UpdateGroup gin lib sv env rq c w =
     (case gl_UpdateGroup gin (rq_body rq) of
        Inl err \<Rightarrow> Some (c_JSON 400 (ErrorBody (error_text err)), w)
      | Inr req \<Rightarrow>
          (case UpdateGroup (sv_groups sv) (ev_now env) (cx_param c ''id'') req (w_groups w) of
             (Inl err, s) \<Rightarrow>
               Some (if err = ErrGroupNotFound then c_JSON 404 (ErrorBody ''group not found'')
                     else c_JSON 500 (ErrorBody (error_text err)), w\<lparr>w_groups := s\<rparr>)
           | (Inr x, s) \<Rightarrow> Some (c_JSON 200 (GroupBody x), w\<lparr>w_groups := s\<rparr>)))"

definition DirectoryHandler_DeleteGroup :: "('u, 'j, 'o, 'g) http_handler" where
  "DirectoryHandler_DeleteGroup gin lib sv env rq c w =
     (case DeleteGroup (sv_groups sv) (cx_param c ''id'') (w_groups w) of
        (Inl err, s) \<Rightarrow>
          Some (if err = ErrGroupNotFound then c_JSON 404 (ErrorBody ''group not found'')
                else c_JSON 500 (ErrorBody (error_text err)), w\<lparr>w_groups := s\<rparr>)
      | (Inr x, s) \<Rightarrow> Some (c_JSON 204 NoBody, w\<lparr>w_groups := s\<rparr>))"

definition DirectoryHandler_ListGroups :: "('u, 'j, 'o, 'g) http_handler" where
  "DirectoryHandler_ListGroups gin lib sv env rq c w =
     (let offset = strconv_Atoi (DefaultQuery rq ''offset'' ''0'');
          limit = strconv_Atoi (DefaultQuery rq ''limit'' ''20'')
      in case ListGroups (sv_groups sv) (ev_order env) offset limit (w_groups w) of
           None \<Rightarrow> None
         | Some (Inl err) \<Rightarrow> Some (c_JSON 500 (ErrorBody (error_text err)), w)
         | Some (Inr (items, total_count)) \<Rightarrow>
             Some (c_JSON 200 (GroupsBody total_count offset limit items), w))"

definition DirectoryHandler_AddGroupMember :: "('u, 'j, 'o, 'g) http_handler" where
  "DirectoryHandler_AddGroupMember gin lib sv env rq c w =
     (case gl_AddGroupMember gin (rq_body rq) of
        Inl err \<Rightarrow> Some (c_JSON 400 (ErrorBody (error_text err)), w)
      | Inr req \<Rightarrow>
          (case AddGroupMember (sv_groups sv) (sv_users sv) (ev_now env) (cx_param c ''id'') req (w_users w) (w_groups w) of
             (Inl err, s) \<Rightarrow>
               Some (if err = ErrUserNotFound then c_JSON 404 (ErrorBody ''user not found'')
                     else if err = ErrGroupNotFound then c_JSON 404 (ErrorBody ''group not found'')
                     else if err = ErrMemberExists then c_JSON 409 (ErrorBody ''user is already a member'')
                     else c_JSON 500 (ErrorBody (error_text err)), w\<lparr>w_groups := s\<rparr>)
           | (Inr x, s) \<Rightarrow> Some (c_JSON 201 (GroupMemberBody x), w\<lparr>w_groups := s\<rparr>)))"

definition DirectoryHandler_RemoveGroupMember :: "('u, 'j, 'o, 'g) http_handler" where
  "DirectoryHandler_RemoveGroupMember gin lib sv env rq c w =
     (case RemoveGroupMember (sv_groups sv) (cx_param c ''id'') (cx_param c ''userId'') (w_groups w) of
        (Inl err, s) \<Rightarrow>
          Some (if err = ErrMemberNotFound then c_JSON 404 (ErrorBody ''member not found'')
                else c_JSON 500 (ErrorBody (error_text err)), w\<lparr>w_groups := s\<rparr>)
      | (Inr x, s) \<Rightarrow> Some (c_JSON 204 NoBody, w\<lparr>w_groups := s\<rparr>))"

definition DirectoryHandler_ListGroupMembers :: "('u, 'j, 'o, 'g) http_handler" where
  "DirectoryHandler_ListGroupMembers gin lib sv env rq c w =
     (case ListGroupMembers (sv_groups sv) (sv_users sv) (cx_param c ''id'') (w_users w) (w_groups w) of
        Inl err \<Rightarrow>
          Some (if err = ErrGroupNotFound then c_JSON 404 (ErrorBody ''group not found'')
                else c_JSON 500 (ErrorBody (error_text err)), w)
      | Inr x \<Rightarrow> Some (c_JSON 200 (GroupMembersBody x), w))"

definition DirectoryHandler_GetUserGroups :: "('u, 'j, 'o, 'g) http_handler" where
  "DirectoryHandler_GetUserGroups gin lib sv env rq c w =
     (case GetUserGroups (sv_groups sv) (cx_param c ''id'') (w_groups w) of
        Inl err \<Rightarrow>
          Some (c_JSON 500 (ErrorBody (error_text err)), w)
      | Inr x \<Rightarrow> Some (c_JSON 200 (UserGroupsBody x), w))"


section \<open>The token middleware\<close>

text \<open>
  The header may carry the token with or without the word \<open>Bearer\<close>. The middleware either
  ends the request with a response or lets it pass with the claims.
\<close>

definition JWTMiddleware :: "jwt_lib \<Rightarrow> auth_Service \<Rightarrow> time \<Rightarrow> http_request \<Rightarrow> http_response + Claims" where
  "JWTMiddleware lib auth now rq =
     (let tokenStr = rq_auth rq;
          tokenStr = (if length tokenStr > 7 \<and> take 7 tokenStr = ''Bearer '' then drop 7 tokenStr else tokenStr)
      in if tokenStr = [] then Inl (c_JSON 401 (ErrorBody ''missing authorization token''))
         else case ValidateToken lib auth now tokenStr of
                Inl err \<Rightarrow> Inl (c_JSON 401 (ErrorBody ''invalid token''))
              | Inr claims \<Rightarrow> Inr claims)"


section \<open>The router\<close>

text \<open>The profiling endpoints, which the environment variable \<open>ENABLE_PPROF\<close> switches on, and
  the routes in the order of \<open>SetupRouter\<close>.\<close>

definition pprof_routes :: "route list" where
  "pprof_routes =
     [(''GET'', ''/debug/pprof/'', False, EpPprof ''index''),
      (''GET'', ''/debug/pprof/cmdline'', False, EpPprof ''cmdline''),
      (''GET'', ''/debug/pprof/profile'', False, EpPprof ''profile''),
      (''GET'', ''/debug/pprof/symbol'', False, EpPprof ''symbol''),
      (''GET'', ''/debug/pprof/trace'', False, EpPprof ''trace''),
      (''GET'', ''/debug/pprof/allocs'', False, EpPprof ''allocs''),
      (''GET'', ''/debug/pprof/heap'', False, EpPprof ''heap''),
      (''GET'', ''/debug/pprof/goroutine'', False, EpPprof ''goroutine''),
      (''GET'', ''/debug/pprof/block'', False, EpPprof ''block''),
      (''GET'', ''/debug/pprof/mutex'', False, EpPprof ''mutex'')]"

definition SetupRouter :: "string \<Rightarrow> route list" where
  "SetupRouter enable_pprof =
     [(''GET'', ''/health'', False, EpHealth)] @
     (if enable_pprof = ''true'' then pprof_routes else []) @
     [(''POST'', ''/api/v1/auth/login'', False, EpLogin),
      (''POST'', ''/api/v1/auth/logout'', True, EpLogout),
      (''POST'', ''/api/v1/auth/online'', True, EpOnline),
      (''POST'', ''/api/v1/users'', True, EpCreateUser),
      (''GET'', ''/api/v1/users'', True, EpListUsers),
      (''GET'', ''/api/v1/users/online/count'', True, EpGetOnlineCount),
      (''GET'', ''/api/v1/users/:id'', True, EpGetUser),
      (''PUT'', ''/api/v1/users/:id'', True, EpUpdateUser),
      (''DELETE'', ''/api/v1/users/:id'', True, EpDeleteUser),
      (''GET'', ''/api/v1/users/:id/orgs'', True, EpGetUserOrgs),
      (''GET'', ''/api/v1/users/:id/groups'', True, EpGetUserGroups),
      (''POST'', ''/api/v1/orgs'', True, EpCreateOrg),
      (''GET'', ''/api/v1/orgs'', True, EpListOrgs),
      (''GET'', ''/api/v1/orgs/:id'', True, EpGetOrg),
      (''PUT'', ''/api/v1/orgs/:id'', True, EpUpdateOrg),
      (''DELETE'', ''/api/v1/orgs/:id'', True, EpDeleteOrg),
      (''GET'', ''/api/v1/orgs/:id/children'', True, EpListOrgChildren),
      (''POST'', ''/api/v1/orgs/:id/members'', True, EpAddOrgMember),
      (''GET'', ''/api/v1/orgs/:id/members'', True, EpListOrgMembers),
      (''DELETE'', ''/api/v1/orgs/:id/members/:userId'', True, EpRemoveOrgMember),
      (''POST'', ''/api/v1/groups'', True, EpCreateGroup),
      (''GET'', ''/api/v1/groups'', True, EpListGroups),
      (''GET'', ''/api/v1/groups/:id'', True, EpGetGroup),
      (''PUT'', ''/api/v1/groups/:id'', True, EpUpdateGroup),
      (''DELETE'', ''/api/v1/groups/:id'', True, EpDeleteGroup),
      (''POST'', ''/api/v1/groups/:id/members'', True, EpAddGroupMember),
      (''GET'', ''/api/v1/groups/:id/members'', True, EpListGroupMembers),
      (''DELETE'', ''/api/v1/groups/:id/members/:userId'', True, EpRemoveGroupMember),
      (''POST'', ''/api/v1/sync/jobs'', True, EpCreateSyncJob),
      (''GET'', ''/api/v1/sync/jobs/:id'', True, EpGetSyncJob),
      (''GET'', ''/scim/v2/Users'', True, EpListUsers),
      (''POST'', ''/scim/v2/Users'', True, EpCreateUser),
      (''GET'', ''/scim/v2/Users/:id'', True, EpGetUser),
      (''PUT'', ''/scim/v2/Users/:id'', True, EpUpdateUser),
      (''DELETE'', ''/scim/v2/Users/:id'', True, EpDeleteUser)]"

fun endpoint_handler :: "endpoint \<Rightarrow> ('u, 'j, 'o, 'g) http_handler" where
  "endpoint_handler EpHealth = Health"
| "endpoint_handler (EpPprof name) = Pprof name"
| "endpoint_handler EpLogin = Handler_Login"
| "endpoint_handler EpLogout = Handler_Logout"
| "endpoint_handler EpOnline = Handler_Online"
| "endpoint_handler EpCreateUser = Handler_CreateUser"
| "endpoint_handler EpListUsers = Handler_ListUsers"
| "endpoint_handler EpGetOnlineCount = Handler_GetOnlineCount"
| "endpoint_handler EpGetUser = Handler_GetUser"
| "endpoint_handler EpUpdateUser = Handler_UpdateUser"
| "endpoint_handler EpDeleteUser = Handler_DeleteUser"
| "endpoint_handler EpGetUserOrgs = DirectoryHandler_GetUserOrgs"
| "endpoint_handler EpGetUserGroups = DirectoryHandler_GetUserGroups"
| "endpoint_handler EpCreateOrg = DirectoryHandler_CreateOrg"
| "endpoint_handler EpListOrgs = DirectoryHandler_ListOrgs"
| "endpoint_handler EpGetOrg = DirectoryHandler_GetOrg"
| "endpoint_handler EpUpdateOrg = DirectoryHandler_UpdateOrg"
| "endpoint_handler EpDeleteOrg = DirectoryHandler_DeleteOrg"
| "endpoint_handler EpListOrgChildren = DirectoryHandler_ListOrgChildren"
| "endpoint_handler EpAddOrgMember = DirectoryHandler_AddOrgMember"
| "endpoint_handler EpListOrgMembers = DirectoryHandler_ListOrgMembers"
| "endpoint_handler EpRemoveOrgMember = DirectoryHandler_RemoveOrgMember"
| "endpoint_handler EpCreateGroup = DirectoryHandler_CreateGroup"
| "endpoint_handler EpListGroups = DirectoryHandler_ListGroups"
| "endpoint_handler EpGetGroup = DirectoryHandler_GetGroup"
| "endpoint_handler EpUpdateGroup = DirectoryHandler_UpdateGroup"
| "endpoint_handler EpDeleteGroup = DirectoryHandler_DeleteGroup"
| "endpoint_handler EpAddGroupMember = DirectoryHandler_AddGroupMember"
| "endpoint_handler EpListGroupMembers = DirectoryHandler_ListGroupMembers"
| "endpoint_handler EpRemoveGroupMember = DirectoryHandler_RemoveGroupMember"
| "endpoint_handler EpCreateSyncJob = Handler_CreateSyncJob"
| "endpoint_handler EpGetSyncJob = Handler_GetSyncJob"

text \<open>
  One request through the router, which holds the routes of \<open>SetupRouter\<close>. \<open>tnow\<close> is the time at which the token is checked. The
  \<open>Recovery\<close> middleware answers a panic and the server goes on; the handlers that can panic
  change nothing before they do.
\<close>

definition serve_http ::
  "gin_lib \<Rightarrow> jwt_lib \<Rightarrow> ('u, 'j, 'o, 'g) services \<Rightarrow> route list \<Rightarrow> time \<Rightarrow> env \<Rightarrow> http_request \<Rightarrow> ('u, 'j, 'o, 'g) world
    \<Rightarrow> http_response \<times> ('u, 'j, 'o, 'g) world" where
  "serve_http gin lib sv router tnow env rq w =
     (case gl_find gin router (rq_method rq) (rq_path rq) of
        None \<Rightarrow> (gl_not_found gin, w)
      | Some ((_, _, protected, ep), params) \<Rightarrow>
          let result =
            (if protected then
               (case JWTMiddleware lib (sv_auth sv) tnow rq of
                  Inl resp \<Rightarrow> Some (resp, w)
                | Inr claims \<Rightarrow>
                    endpoint_handler ep gin lib sv env rq \<lparr>cx_param = params, cx_claims = Some claims\<rparr> w)
             else endpoint_handler ep gin lib sv env rq \<lparr>cx_param = params, cx_claims = None\<rparr> w)
          in case result of
               None \<Rightarrow> (gl_recovered gin, w)
             | Some (resp, w) \<Rightarrow> (resp, w))"


lemmas user_endpoint_defs =
  Handler_CreateUser_def Handler_GetUser_def Handler_UpdateUser_def Handler_DeleteUser_def
  Handler_ListUsers_def Handler_Login_def Handler_CreateSyncJob_def Handler_GetSyncJob_def
  Handler_GetOnlineCount_def Handler_Logout_def Handler_Online_def Health_def Pprof_def

lemmas org_endpoint_defs =
  DirectoryHandler_CreateOrg_def DirectoryHandler_GetOrg_def DirectoryHandler_UpdateOrg_def
  DirectoryHandler_DeleteOrg_def DirectoryHandler_ListOrgs_def DirectoryHandler_ListOrgChildren_def
  DirectoryHandler_AddOrgMember_def DirectoryHandler_RemoveOrgMember_def
  DirectoryHandler_ListOrgMembers_def DirectoryHandler_GetUserOrgs_def

lemmas group_endpoint_defs =
  DirectoryHandler_CreateGroup_def DirectoryHandler_GetGroup_def DirectoryHandler_UpdateGroup_def
  DirectoryHandler_DeleteGroup_def DirectoryHandler_ListGroups_def
  DirectoryHandler_AddGroupMember_def DirectoryHandler_RemoveGroupMember_def
  DirectoryHandler_ListGroupMembers_def DirectoryHandler_GetUserGroups_def

lemmas endpoint_splits = prod.splits sum.splits option.splits if_splits


section \<open>Every endpoint keeps the invariants\<close>

text \<open>\<open>uuid.New()\<close> returns an identifier that no user has.\<close>

definition fresh_uuid :: "env \<Rightarrow> memory_world \<Rightarrow> bool" where
  "fresh_uuid env w \<longleftrightarrow> ms_users (w_users w) (ev_uuid env) = None"

definition sound_endpoint :: "(MemoryStore, MemorySyncJobStore, MemoryOrgStore, MemoryGroupStore) http_handler \<Rightarrow> bool" where
  "sound_endpoint h \<longleftrightarrow> (\<forall>gin lib lower auth env rq c w resp w'. world_inv w \<longrightarrow> fresh_uuid env w \<longrightarrow>
     h gin lib (memory_services_of lower auth) env rq c w = Some (resp, w') \<longrightarrow> world_inv w')"

lemma sound_endpointI:
  assumes "\<And>gin lib lower auth env rq c w resp w'. world_inv w \<Longrightarrow> fresh_uuid env w \<Longrightarrow>
     h gin lib (memory_services_of lower auth) env rq c w = Some (resp, w') \<Longrightarrow> world_inv w'"
  shows "sound_endpoint h"
  using assms unfolding sound_endpoint_def by blast

lemma sound_user_endpoints:
  "sound_endpoint Handler_CreateUser" "sound_endpoint Handler_GetUser" "sound_endpoint Handler_UpdateUser"
  "sound_endpoint Handler_DeleteUser" "sound_endpoint Handler_ListUsers" "sound_endpoint Handler_Login"
  "sound_endpoint Handler_CreateSyncJob" "sound_endpoint Handler_GetSyncJob"
  "sound_endpoint Handler_GetOnlineCount" "sound_endpoint Handler_Logout" "sound_endpoint Handler_Online"
  "sound_endpoint Health" "sound_endpoint (Pprof name)"
  by (rule sound_endpointI; auto simp: user_endpoint_defs Let_def world_inv_def fresh_uuid_def
      split: endpoint_splits dest: user_methods_inv)+

lemma sound_org_endpoints:
  "sound_endpoint DirectoryHandler_CreateOrg" "sound_endpoint DirectoryHandler_GetOrg"
  "sound_endpoint DirectoryHandler_UpdateOrg" "sound_endpoint DirectoryHandler_DeleteOrg"
  "sound_endpoint DirectoryHandler_ListOrgs" "sound_endpoint DirectoryHandler_ListOrgChildren"
  "sound_endpoint DirectoryHandler_AddOrgMember" "sound_endpoint DirectoryHandler_RemoveOrgMember"
  "sound_endpoint DirectoryHandler_ListOrgMembers" "sound_endpoint DirectoryHandler_GetUserOrgs"
  by (rule sound_endpointI; auto simp: org_endpoint_defs Let_def world_inv_def
      split: endpoint_splits dest: org_methods_inv)+

lemma sound_group_endpoints:
  "sound_endpoint DirectoryHandler_CreateGroup" "sound_endpoint DirectoryHandler_GetGroup"
  "sound_endpoint DirectoryHandler_UpdateGroup" "sound_endpoint DirectoryHandler_DeleteGroup"
  "sound_endpoint DirectoryHandler_ListGroups" "sound_endpoint DirectoryHandler_AddGroupMember"
  "sound_endpoint DirectoryHandler_RemoveGroupMember" "sound_endpoint DirectoryHandler_ListGroupMembers"
  "sound_endpoint DirectoryHandler_GetUserGroups"
  by (rule sound_endpointI; auto simp: group_endpoint_defs Let_def world_inv_def
      split: endpoint_splits dest: group_methods_inv)+

lemma sound_endpoints: "sound_endpoint (endpoint_handler ep)"
  by (cases ep) (simp_all add: sound_user_endpoints sound_org_endpoints sound_group_endpoints)

lemma serve_http_inv:
  assumes "world_inv w" and "fresh_uuid env w"
    and "serve_http gin lib (memory_services_of lower auth) router tnow env rq w = (resp, w')"
  shows "world_inv w'"
proof -
  have "world_inv w'" if "endpoint_handler ep gin lib (memory_services_of lower auth) env rq c w = Some (resp, w')"
    for ep c
    using sound_endpoints [of ep] assms(1,2) that unfolding sound_endpoint_def by blast
  with assms show ?thesis
    by (auto simp: serve_http_def Let_def split: option.splits prod.splits sum.splits if_splits)
qed


section \<open>Which errors become a server error\<close>

text \<open>The errors that the methods on the in-memory stores return.\<close>

lemma user_method_errors:
  "GetUser (MemoryStore_Store lower) i s = Inl err \<Longrightarrow> err = ErrUserNotFound"
  "DeleteUser (MemoryStore_Store lower) now i s = (Inl err, s') \<Longrightarrow> err = ErrUserNotFound"
  by (auto simp: GetUser_def DeleteUser_def ListUsers_def GetOnlineCount_def MemoryStore_GetByID_def
      MemoryStore_Delete_def MemoryStore_List_def MemoryStore_Search_def Let_def
      split: option.splits if_splits sum.splits)

lemma org_method_errors:
  "GetOrg MemoryOrgStore_Store i s = Inl err \<Longrightarrow> err = ErrOrgNotFound"
  "UpdateOrg MemoryOrgStore_Store now i ureq s = (Inl err, s') \<Longrightarrow> err = ErrOrgNotFound"
  "DeleteOrg MemoryOrgStore_Store i s = (Inl err, s') \<Longrightarrow> err = ErrOrgNotFound"
  "AddOrgMember MemoryOrgStore_Store us i areq u s = (Inl err, s') \<Longrightarrow>
     err \<in> {ErrUserNotFound, ErrOrgNotFound, ErrMemberExists}"
  "RemoveOrgMember MemoryOrgStore_Store i j s = (Inl err, s') \<Longrightarrow> err = ErrMemberNotFound"
  "ListOrgMembers MemoryOrgStore_Store us i u s = Inl err \<Longrightarrow> err = ErrOrgNotFound"
  by (auto simp: directory_service_defs memory_org_store_defs Let_def
      split: option.splits if_splits sum.splits prod.splits)

lemma group_method_errors:
  "GetGroup MemoryGroupStore_Store i s = Inl err \<Longrightarrow> err = ErrGroupNotFound"
  "UpdateGroup MemoryGroupStore_Store now i ureq s = (Inl err, s') \<Longrightarrow> err = ErrGroupNotFound"
  "DeleteGroup MemoryGroupStore_Store i s = (Inl err, s') \<Longrightarrow> err = ErrGroupNotFound"
  "AddGroupMember MemoryGroupStore_Store us now i areq u s = (Inl err, s') \<Longrightarrow>
     err \<in> {ErrUserNotFound, ErrGroupNotFound, ErrMemberExists}"
  "RemoveGroupMember MemoryGroupStore_Store i j s = (Inl err, s') \<Longrightarrow> err = ErrMemberNotFound"
  "ListGroupMembers MemoryGroupStore_Store us i u s = Inl err \<Longrightarrow> err = ErrGroupNotFound"
  by (auto simp: directory_service_defs memory_group_store_defs Let_def
      split: option.splits if_splits sum.splits prod.splits)

lemma CreateSyncJob_ok: "CreateSyncJob MemorySyncJobStore_Store uuid now now' req j \<noteq> (Inl err, j')"
  by (simp add: CreateSyncJob_def MemorySyncJobStore_Store_def MemorySyncJobStore_Create_def Let_def)

lemma CreateGroup_error:
  "CreateGroup MemoryGroupStore_Store uuid now req s = (Inl err, s') \<Longrightarrow> s' = s \<and> mg_groups s uuid \<noteq> None"
  by (auto simp: CreateGroup_def MemoryGroupStore_Create_def Let_def split: if_splits)

lemma listing_never_errs [simp]:
  "ListUsers (MemoryStore_Store lower) ord q offset limit s \<noteq> Some (Inl err)"
  "GetOnlineCount (MemoryStore_Store lower) ord s \<noteq> Some (Inl err)"
  "ListOrgs MemoryOrgStore_Store ord offset limit os \<noteq> Some (Inl err)"
  "ListGroups MemoryGroupStore_Store ord offset limit gs \<noteq> Some (Inl err)"
  by (auto simp: ListUsers_def GetOnlineCount_def ListOrgs_def ListGroups_def MemoryStore_List_def
      MemoryStore_Search_def MemoryOrgStore_List_def MemoryGroupStore_List_def Let_def
      split: option.splits if_splits sum.splits)

end
