(* ===== verification/Rest_Properties.thy ===== *)
theory Rest_Properties
  imports Api
begin

text \<open>
  What the REST interface of \<open>internal/api\<close> promises: requests without a valid token reach
  nothing, a session runs from login to logout over it, and a server error has one of a few
  known causes. A small router with path parameters stands for \<open>gin\<close> in the witnesses.
\<close>

section \<open>A router for the witnesses\<close>

fun split_path :: "string \<Rightarrow> string \<Rightarrow> string list" where
  "split_path acc [] = [rev acc]"
| "split_path acc (ch # cs) = (if ch = CHR ''/'' then rev acc # split_path [] cs else split_path (ch # acc) cs)"

fun match_segments :: "string list \<Rightarrow> string list \<Rightarrow> (string \<times> string) list option" where
  "match_segments [] [] = Some []"
| "match_segments (p # ps) (s # ss) =
     (if p \<noteq> [] \<and> hd p = CHR '':'' then map_option ((#) (List.tl p, s)) (match_segments ps ss)
      else if p = s then match_segments ps ss else None)"
| "match_segments _ _ = None"

fun find_route :: "route list \<Rightarrow> string \<Rightarrow> string \<Rightarrow> (route \<times> (string \<Rightarrow> string)) option" where
  "find_route [] m path = None"
| "find_route (r # rs) m path =
     (if fst r \<noteq> m then find_route rs m path
      else case match_segments (split_path [] (fst (snd r))) (split_path [] path) of
             None \<Rightarrow> find_route rs m path
           | Some ps \<Rightarrow> Some (r, \<lambda>k. case map_of ps k of None \<Rightarrow> [] | Some v \<Rightarrow> v))"

lemma find_route_sound:
  "find_route table m path = Some (r, params) \<Longrightarrow> r \<in> set table \<and> fst r = m"
  by (induction table) (auto split: if_splits option.splits)

definition sample_gin :: gin_lib where
  "sample_gin = \<lparr>
     gl_CreateUser = (\<lambda>_. Inl ErrJSON), gl_UpdateUser = (\<lambda>_. Inl ErrJSON),
     gl_Login = (\<lambda>_. Inr \<lparr>lg_Username = ''alice'', lg_Password = ''Alice@8888''\<rparr>),
     gl_CreateSyncJob = (\<lambda>_. Inl ErrJSON), gl_CreateOrg = (\<lambda>_. Inl ErrJSON),
     gl_UpdateOrg = (\<lambda>_. Inl ErrJSON), gl_AddOrgMember = (\<lambda>_. Inl ErrJSON),
     gl_CreateGroup = (\<lambda>_. Inl ErrJSON), gl_UpdateGroup = (\<lambda>_. Inl ErrJSON),
     gl_AddGroupMember = (\<lambda>_. Inl ErrJSON), gl_find = find_route,
     gl_pprof = (\<lambda>_. c_JSON 200 NoBody),
     gl_not_found = c_JSON 404 NoBody, gl_recovered = c_JSON 500 NoBody\<rparr>"

lemma sample_gin_routes [simp]: "gin_routes sample_gin"
  by (auto simp: gin_routes_def sample_gin_def dest: find_route_sound)

definition sample_env :: env where
  "sample_env = \<lparr>ev_now = 5, ev_now' = 0, ev_now'' = 0, ev_uuid = ''u9'', ev_order = [''u1'']\<rparr>"

definition sample_world :: memory_world where
  "sample_world = empty_world\<lparr>w_users := alice_store\<rparr>"

lemma sample_world_inv: "world_inv sample_world"
  using world_inv_empty by (simp add: sample_world_def world_inv_def)

definition sample_http_request :: "string \<Rightarrow> string \<Rightarrow> string \<Rightarrow> http_request" where
  "sample_http_request m path header =
     \<lparr>rq_method = m, rq_path = path, rq_query = Map.empty, rq_auth = header, rq_body = []\<rparr>"


section \<open>Properties of the REST interface\<close>

lemma unprotected_routes:
  "(m, path, False, ep) \<in> set (SetupRouter pprof) \<Longrightarrow>
     ep = EpHealth \<or> ep = EpLogin \<or> (pprof = ''true'' \<and> (\<exists>name. ep = EpPprof name))"
  by (auto simp: SetupRouter_def pprof_routes_def split: if_splits)

lemma JWTMiddleware_refused:
  assumes "\<nexists>t claims. (rq_auth rq = t \<or> rq_auth rq = ''Bearer '' @ t) \<and> ValidateToken lib auth now t = Inr claims"
  shows "\<exists>msg. JWTMiddleware lib auth now rq = Inl (c_JSON 401 (ErrorBody msg))"
proof -
  have "rq_auth rq = ''Bearer '' @ drop 7 (rq_auth rq)" if "take 7 (rq_auth rq) = ''Bearer ''"
    using that append_take_drop_id [of 7 "rq_auth rq"] by simp
  with assms show ?thesis
    by (auto simp: JWTMiddleware_def Let_def split: sum.splits)
qed

text \<open>
  C3: no data without a token. When the header carries no token that \<open>ValidateToken\<close> accepts,
  with or without the word \<open>Bearer\<close>, the request leaves users, jobs, organizations and groups
  as they were and is answered with 401 or with the router's page for unknown paths; the only
  endpoints that run are the health check, the login, and the profiler if it is switched on.
\<close>

theorem no_access_without_token:
  assumes "gin_routes gin"
    and "\<nexists>t claims. (rq_auth rq = t \<or> rq_auth rq = ''Bearer '' @ t) \<and>
           ValidateToken lib (sv_auth sv) tnow t = Inr claims"
    and "serve_http gin lib sv (SetupRouter pprof) tnow env rq w = (resp, w')"
  shows "(w' = w \<and> (resp = gl_not_found gin \<or> (\<exists>msg. resp = c_JSON 401 (ErrorBody msg)))) \<or>
         (\<exists>path ep params. gl_find gin (SetupRouter pprof) (rq_method rq) (rq_path rq) =
            Some ((rq_method rq, path, False, ep), params) \<and>
            (ep = EpHealth \<or> ep = EpLogin \<or> (pprof = ''true'' \<and> (\<exists>name. ep = EpPprof name))))"
proof (cases "gl_find gin (SetupRouter pprof) (rq_method rq) (rq_path rq)")
  case None
  with assms(3) show ?thesis by (simp add: serve_http_def)
next
  case (Some found)
  then obtain m path protected ep params where f: "found = ((m, path, protected, ep), params)"
    by (metis prod.exhaust)
  with Some assms(1) have "(m, path, protected, ep) \<in> set (SetupRouter pprof)" "m = rq_method rq"
    unfolding gin_routes_def by fastforce+
  moreover obtain msg where "JWTMiddleware lib (sv_auth sv) tnow rq = Inl (c_JSON 401 (ErrorBody msg))"
    using JWTMiddleware_refused [OF assms(2)] by blast
  ultimately show ?thesis
    using Some f assms(3) unprotected_routes
    by (cases protected) (auto simp: serve_http_def Let_def)
qed

theorem no_access_without_token_witness:
  "snd (serve_http sample_gin sample_jwt (memory_services_of ascii_ToLower sample_auth) (SetupRouter [])
     1000 sample_env (sample_http_request ''DELETE'' ''/api/v1/users/u1'' ''Bearer forged'') sample_world) = sample_world"
proof -
  let ?rq = "sample_http_request ''DELETE'' ''/api/v1/users/u1'' ''Bearer forged''"
  let ?sv = "memory_services_of ascii_ToLower sample_auth"
  obtain resp w' where s: "serve_http sample_gin sample_jwt ?sv (SetupRouter []) 1000 sample_env ?rq sample_world = (resp, w')"
    by force
  have bad: "\<nexists>t claims. (rq_auth ?rq = t \<or> rq_auth ?rq = ''Bearer '' @ t) \<and>
      ValidateToken sample_jwt (sv_auth ?sv) 1000 t = Inr claims"
    by (auto simp: sample_http_request_def ValidateToken_def sample_jwt_def)
  have "\<exists>params. gl_find sample_gin (SetupRouter []) ''DELETE'' ''/api/v1/users/u1'' =
      Some ((''DELETE'', ''/api/v1/users/:id'', True, EpDeleteUser), params)"
    by (simp add: sample_gin_def SetupRouter_def)
  with no_access_without_token [OF sample_gin_routes bad s] s show ?thesis
    by (auto simp: sample_http_request_def)
qed

lemma Handler_Login_total: "Handler_Login gin lib sv env rq c w \<noteq> None"
  by (auto simp: Handler_Login_def split: sum.split prod.split)

lemma Handler_Login_Some:
  assumes "Handler_Login gin lib sv env rq c w = Some (c_JSON 200 (LoginBody x), w')"
  obtains req s where "gl_Login gin (rq_body rq) = Inr req"
    and "Login (sv_users sv) lib (sv_auth sv) (ev_now env) (ev_now' env) (ev_now'' env)
           (lg_Username req) (lg_Password req) (w_users w) = (Inr x, s)"
    and "w' = w\<lparr>w_users := s\<rparr>"
  using assms that by (auto simp: Handler_Login_def c_JSON_def split: sum.splits prod.splits)

lemma JWTMiddleware_accepted:
  assumes "rq_auth rq = ''Bearer '' @ t" and "t \<noteq> []" and "ValidateToken lib auth now t = Inr claims"
  shows "JWTMiddleware lib auth now rq = Inr claims"
  using assms by (simp add: JWTMiddleware_def)

text \<open>
  C11: a session over REST. After the login request was granted, the logout request with the
  token from its answer is accepted at any time before the expiry in the answer. The login
  marks the one user whose name and password were sent as online, the logout marks the same
  user as offline, and nothing else in the store changes but the time stamp of that user.
\<close>

theorem rest_session:
  assumes "world_inv w"
    and "gl_find gin router (rq_method rq) (rq_path rq) = Some ((m, path, False, EpLogin), params)"
    and "gl_find gin router (rq_method rq') (rq_path rq') = Some ((m', path', True, EpLogout), params')"
    and "serve_http gin lib (memory_services_of lower auth) router tnow env rq w = (c_JSON 200 (LoginBody x), w')"
    and "jwt_dates lib" and "jwt_round_trip lib"
    and "ascii (u_ID (lr_User x))" and "ascii (u_Username (lr_User x))"
    and "u_ID (lr_User x) \<noteq> []" and "lr_Token x \<noteq> []"
    and "rq_auth rq' = ''Bearer '' @ lr_Token x" and "later < lr_Expires x * time_Second"
  shows "\<exists>i u w'' req. gl_Login gin (rq_body rq) = Inr req \<and> ms_users (w_users w) i = Some u \<and>
      u_Username u = lg_Username req \<and> u_PasswordHash u = lg_Password req \<and> u_Status u = UserStatusActive \<and>
      ms_users (w_users w') = (ms_users (w_users w))(i \<mapsto> with_online (ev_now env) True u) \<and>
      serve_http gin lib (memory_services_of lower auth) router later env' rq' w' =
        (c_JSON 200 (MessageBody ''logged out successfully''), w'') \<and>
      ms_users (w_users w'') = (ms_users (w_users w))(i \<mapsto> with_online (ev_now env') False u)"
proof -
  let ?sv = "memory_services_of lower auth"
  have inv: "store_inv (w_users w)" using assms(1) by (simp add: world_inv_def)
  have "Handler_Login gin lib ?sv env rq \<lparr>cx_param = params, cx_claims = None\<rparr> w = Some (c_JSON 200 (LoginBody x), w')"
    using assms(2,4) Handler_Login_total [of gin lib ?sv env rq "\<lparr>cx_param = params, cx_claims = None\<rparr>" w]
    by (auto simp: serve_http_def)
  then obtain req s where req: "gl_Login gin (rq_body rq) = Inr req" and w': "w' = w\<lparr>w_users := s\<rparr>"
    and "Login (MemoryStore_Store lower) lib auth (ev_now env) (ev_now' env) (ev_now'' env)
           (lg_Username req) (lg_Password req) (w_users w) = (Inr x, s)"
    by (rule Handler_Login_Some) simp
  from mem.login_effect [OF inv this(3)] obtain i u where u: "ms_users (w_users w) i = Some u"
      "u_Username u = lg_Username req" "u_Status u = UserStatusActive" "u_PasswordHash u = lg_Password req" "u_ID u = i"
    and s: "ms_users s = (ms_users (w_users w))(i \<mapsto> with_online (ev_now env) True u)" "store_inv s"
    and x: "lr_User x = u\<lparr>u_IsOnline := True\<rparr>"
    and gen: "GenerateToken lib auth (ev_now' env) (ev_now'' env) i (lg_Username req) = Inr (lr_Token x, lr_Expires x)"
    by metis
  from x u assms(7-9) have str: "ascii i" "ascii (lg_Username req)" "i \<noteq> []" by simp_all
  let ?claims = "issued_claims lib (ev_now'' env) i (lg_Username req) (lr_Expires x)"
  have mw: "JWTMiddleware lib auth later rq' = Inr ?claims"
    using ValidateToken_issued [OF assms(5,6) gen str(1,2) assms(12)] JWTMiddleware_accepted [OF assms(11,10)] by blast
  have "live (with_online (ev_now env) True u)" using u(3) by (simp add: with_online_def live_def)
  then have out: "fst (Logout (MemoryStore_Store lower) (ev_now env') i s) = Inr ()"
    "ms_users (snd (Logout (MemoryStore_Store lower) (ev_now env') i s)) =
       (ms_users (w_users w))(i \<mapsto> with_online (ev_now env') False u)"
    using mem.set_online [OF s(2), of i "with_online (ev_now env) True u" lower "ev_now env'" False] s(1)
    by (simp_all add: SetOnline_def Logout_def with_online_def)
  then have "serve_http gin lib ?sv router later env' rq' w' =
      (c_JSON 200 (MessageBody ''logged out successfully''), w'\<lparr>w_users := snd (Logout (MemoryStore_Store lower) (ev_now env') i s)\<rparr>)"
    using assms(3) mw str(3) w'
    by (auto simp: serve_http_def Handler_Logout_def GetString_user_id_def issued_claims_def split: prod.splits)
  with req u s(1) out(2) w' show ?thesis by auto
qed

lemma sample_login_route:
  "\<exists>params. gl_find sample_gin (SetupRouter []) ''POST'' ''/api/v1/auth/login'' =
     Some ((''POST'', ''/api/v1/auth/login'', False, EpLogin), params)"
  "\<exists>params. gl_find sample_gin (SetupRouter []) ''POST'' ''/api/v1/auth/logout'' =
     Some ((''POST'', ''/api/v1/auth/logout'', True, EpLogout), params)"
  by (simp_all add: sample_gin_def SetupRouter_def)

theorem rest_session_witness:
  "\<exists>w'' u. serve_http sample_gin sample_jwt (memory_services_of ascii_ToLower sample_auth) (SetupRouter [])
     1000 sample_env (sample_http_request ''POST'' ''/api/v1/auth/logout'' ''Bearer tok'')
     (sample_world\<lparr>w_users := snd (SetOnline (store_api ascii_ToLower) 5 ''u1'' True alice_store)\<rparr>) =
     (c_JSON 200 (MessageBody ''logged out successfully''), w'') \<and>
   ms_users (w_users w'') = (ms_users alice_store)(''u1'' \<mapsto> with_online 5 False u)"
proof -
  let ?sv = "memory_services_of ascii_ToLower sample_auth"
  let ?rq = "sample_http_request ''POST'' ''/api/v1/auth/login'' []"
  let ?rq' = "sample_http_request ''POST'' ''/api/v1/auth/logout'' ''Bearer tok''"
  let ?w' = "sample_world\<lparr>w_users := snd (SetOnline (store_api ascii_ToLower) 5 ''u1'' True alice_store)\<rparr>"
  let ?x = "\<lparr>lr_Token = ''tok'', lr_Expires = 86400, lr_User = (stamp_new_user 0 alice)\<lparr>u_IsOnline := True\<rparr>\<rparr>"
  obtain params params' where
      r: "gl_find sample_gin (SetupRouter []) (rq_method ?rq) (rq_path ?rq) =
        Some ((''POST'', ''/api/v1/auth/login'', False, EpLogin), params)"
      "gl_find sample_gin (SetupRouter []) (rq_method ?rq') (rq_path ?rq') =
        Some ((''POST'', ''/api/v1/auth/logout'', True, EpLogout), params')"
    using sample_login_route by (auto simp: sample_http_request_def)
  have l: "serve_http sample_gin sample_jwt ?sv (SetupRouter []) 0 sample_env ?rq sample_world = (c_JSON 200 (LoginBody ?x), ?w')"
    using r(1) alice_login [of ascii_ToLower]
    by (simp add: serve_http_def Handler_Login_def sample_env_def sample_world_def) (simp add: sample_gin_def)
  obtain i u w'' where "ms_users alice_store i = Some u"
    "serve_http sample_gin sample_jwt ?sv (SetupRouter []) 1000 sample_env ?rq' ?w' =
        (c_JSON 200 (MessageBody ''logged out successfully''), w'')"
    "ms_users (w_users w'') = (ms_users alice_store)(i \<mapsto> with_online 5 False u)"
    using rest_session [OF sample_world_inv r l, of 1000 sample_env]
    by (auto simp: ascii_def time_Second_def sample_http_request_def sample_world_def sample_env_def)
  moreover from this(1) have "i = ''u1''" by (simp add: alice_store_eq split: if_splits)
  ultimately show ?thesis by auto
qed


section \<open>Server errors\<close>

text \<open>Endpoints that never answer with the status 500 over the in-memory stores, and never panic.\<close>

definition no_server_error :: "(MemoryStore, MemorySyncJobStore, MemoryOrgStore, MemoryGroupStore) http_handler \<Rightarrow> bool" where
  "no_server_error h \<longleftrightarrow> (\<forall>gin lib lower auth env rq c w.
     \<exists>resp w'. h gin lib (memory_services_of lower auth) env rq c w = Some (resp, w') \<and> ht_status resp \<noteq> 500)"

lemmas status_simps = c_JSON_def no_server_error_def

lemma clean_user_endpoints:
  "no_server_error Handler_CreateUser" "no_server_error Handler_GetUser" "no_server_error Handler_DeleteUser"
  "no_server_error Handler_Login" "no_server_error Handler_CreateSyncJob" "no_server_error Handler_GetSyncJob"
  "no_server_error Health"
  by (auto simp: status_simps user_endpoint_defs CreateSyncJob_ok split: prod.split sum.split
      dest: user_method_errors)

lemma clean_org_endpoints:
  "no_server_error DirectoryHandler_CreateOrg" "no_server_error DirectoryHandler_GetOrg"
  "no_server_error DirectoryHandler_UpdateOrg" "no_server_error DirectoryHandler_DeleteOrg"
  "no_server_error DirectoryHandler_ListOrgChildren" "no_server_error DirectoryHandler_AddOrgMember"
  "no_server_error DirectoryHandler_RemoveOrgMember" "no_server_error DirectoryHandler_ListOrgMembers"
  "no_server_error DirectoryHandler_GetUserOrgs"
  by (auto simp: status_simps org_endpoint_defs ListOrgChildren_def GetUserOrgs_def MemoryOrgStore_ListChildren_def
      MemoryOrgStore_GetUserOrgs_def split: prod.split sum.split dest: org_method_errors)

lemma clean_group_endpoints:
  "no_server_error DirectoryHandler_GetGroup" "no_server_error DirectoryHandler_UpdateGroup"
  "no_server_error DirectoryHandler_DeleteGroup" "no_server_error DirectoryHandler_AddGroupMember"
  "no_server_error DirectoryHandler_RemoveGroupMember" "no_server_error DirectoryHandler_ListGroupMembers"
  "no_server_error DirectoryHandler_GetUserGroups"
  by (auto simp: status_simps group_endpoint_defs GetUserGroups_def MemoryGroupStore_GetUserGroups_def
      split: prod.split sum.split dest: group_method_errors)

lemma GetOnlineCount_total: "GetOnlineCount (MemoryStore_Store lower) ord s \<noteq> None"
proof -
  have "paginate 0 10000 xs \<noteq> None" for xs :: "User list"
    using paginate_Some [of 0 10000 xs] by simp
  then show ?thesis
    by (auto simp: GetOnlineCount_def MemoryStore_List_def Let_def split: option.splits sum.splits)
qed

lemma clean_counter: "no_server_error Handler_GetOnlineCount"
  using GetOnlineCount_total
  by (auto simp: status_simps Handler_GetOnlineCount_def split: option.split sum.split)

lemma UpdateUser_error:
  assumes "UpdateUser (MemoryStore_Store lower) now i req s = (Inl err, s')" and "err \<noteq> ErrUserNotFound"
    and "store_inv s"
  shows "s' = s \<and> uu_Email req \<noteq> [] \<and> (\<exists>j v. j \<noteq> i \<and> ms_users s j = Some v \<and> u_Email v = uu_Email req)"
proof -
  let ?u = "zero_User\<lparr>u_ID := i, u_Email := uu_Email req, u_DisplayName := uu_DisplayName req, u_Status := uu_Status req\<rparr>"
  have "MemoryStore_Update now ?u s = (Inl err, s')"
    using assms(1,2) by (auto simp: UpdateUser_def MemoryStore_GetByID_def split: prod.splits sum.splits option.splits if_splits)
  then obtain old j where "tbl_get i (ms_users s) = Inr old" "uu_Email req \<noteq> []" "uu_Email req \<noteq> u_Email old"
      "ms_byEmail s (uu_Email req) = Some j" "s' = s"
    using assms(2) by (auto simp: MemoryStore_Update_eq tbl_get_Inl split: sum.splits if_splits)
  moreover from this(4) obtain v where "ms_users s j = Some v" "u_Email v = uu_Email req"
    using store_inv_email [OF assms(3)] by (auto simp: mirror_def)
  ultimately show ?thesis by (intro conjI exI [of _ j]) (auto simp: tbl_get_Inr)
qed

lemma SetOnline_error:
  assumes "SetOnline (MemoryStore_Store lower) now i b s = (Inl err, s')"
  shows "s' = s \<and> \<not> (\<exists>u. ms_users s i = Some u \<and> live u)"
  using assms by (auto simp: SetOnline_def MemoryStore_Update_eq tbl_get_Inl split: sum.splits)

lemma Logout_SetOnline: "Logout st now i s = SetOnline st now i False s"
  by (simp add: Logout_def SetOnline_def)

lemma clean_endpoint_500:
  assumes "no_server_error h"
  shows "h gin lib (memory_services_of lower auth) env rq c w = Some (resp, w') \<Longrightarrow> ht_status resp \<noteq> 500"
    and "h gin lib (memory_services_of lower auth) env rq c w \<noteq> None"
  using assms unfolding no_server_error_def by (metis fst_conv option.inject, metis option.distinct(1))

lemmas clean_endpoints =
  clean_user_endpoints clean_org_endpoints clean_group_endpoints clean_counter

text \<open>
  The causes of an answer with status 500: another user owns the new e-mail address of an
  update, the user of the token is gone, the identifier of a new group is taken, a listing
  starts before its first entry, or the profiler reported it.
\<close>

fun server_error_cause :: "env \<Rightarrow> http_request \<Rightarrow> gin_lib \<Rightarrow> gin_Context \<Rightarrow> memory_world \<Rightarrow> endpoint \<Rightarrow> bool" where
  "server_error_cause env rq gin c w EpUpdateUser \<longleftrightarrow>
     (\<exists>req j v. gl_UpdateUser gin (rq_body rq) = Inr req \<and> uu_Email req \<noteq> [] \<and> j \<noteq> cx_param c ''id'' \<and>
        ms_users (w_users w) j = Some v \<and> u_Email v = uu_Email req)"
| "server_error_cause env rq gin c w EpLogout \<longleftrightarrow>
     \<not> (\<exists>u. ms_users (w_users w) (GetString_user_id c) = Some u \<and> live u)"
| "server_error_cause env rq gin c w EpOnline \<longleftrightarrow>
     \<not> (\<exists>u. ms_users (w_users w) (GetString_user_id c) = Some u \<and> live u)"
| "server_error_cause env rq gin c w EpCreateGroup \<longleftrightarrow> mg_groups (w_groups w) (ev_uuid env) \<noteq> None"
| "server_error_cause env rq gin c w EpListUsers \<longleftrightarrow> strconv_Atoi (DefaultQuery rq ''offset'' ''0'') < 0"
| "server_error_cause env rq gin c w EpListOrgs \<longleftrightarrow> strconv_Atoi (DefaultQuery rq ''offset'' ''0'') < 0"
| "server_error_cause env rq gin c w EpListGroups \<longleftrightarrow> strconv_Atoi (DefaultQuery rq ''offset'' ''0'') < 0"
| "server_error_cause env rq gin c w (EpPprof name) \<longleftrightarrow> ht_status (gl_pprof gin name) = 500"
| "server_error_cause env rq gin c w _ \<longleftrightarrow> False"

lemma UpdateUser_500:
  assumes "world_inv w"
    and "Handler_UpdateUser gin lib (memory_services_of lower auth) env rq c w = Some (resp, w')"
    and "ht_status resp = 500"
  shows "w' = w \<and> server_error_cause env rq gin c w EpUpdateUser"
proof -
  obtain req err s where req: "gl_UpdateUser gin (rq_body rq) = Inr req" and "w' = w\<lparr>w_users := s\<rparr>"
    and "UpdateUser (MemoryStore_Store lower) (ev_now env) (cx_param c ''id'') req (w_users w) = (Inl err, s)"
    and "err \<noteq> ErrUserNotFound"
    using assms(2,3) by (auto simp: Handler_UpdateUser_def c_JSON_def split: sum.splits prod.splits if_splits)
  moreover from UpdateUser_error [OF this(3,4)] assms(1) have "s = w_users w" "uu_Email req \<noteq> []"
    "\<exists>j v. j \<noteq> cx_param c ''id'' \<and> ms_users (w_users w) j = Some v \<and> u_Email v = uu_Email req"
    by (simp_all add: world_inv_def)
  ultimately show ?thesis by auto
qed

lemma session_500:
  assumes "ht_status resp = 500"
  shows "Handler_Logout gin lib (memory_services_of lower auth) env rq c w = Some (resp, w') \<Longrightarrow>
           w' = w \<and> server_error_cause env rq gin c w EpLogout"
    and "Handler_Online gin lib (memory_services_of lower auth) env rq c w = Some (resp, w') \<Longrightarrow>
           w' = w \<and> server_error_cause env rq gin c w EpOnline"
  using assms
  by (auto simp: Handler_Logout_def Handler_Online_def Logout_SetOnline c_JSON_def Let_def
      split: sum.splits prod.splits if_splits dest: SetOnline_error)

lemma CreateGroup_500:
  assumes "DirectoryHandler_CreateGroup gin lib (memory_services_of lower auth) env rq c w = Some (resp, w')"
    and "ht_status resp = 500"
  shows "w' = w \<and> server_error_cause env rq gin c w EpCreateGroup"
  using assms
  by (auto simp: DirectoryHandler_CreateGroup_def c_JSON_def split: sum.splits prod.splits dest!: CreateGroup_error)

lemma listing_500:
  assumes "ht_status resp = 500"
  shows "Handler_ListUsers gin lib (memory_services_of lower auth) env rq c w \<noteq> Some (resp, w')"
    and "DirectoryHandler_ListOrgs gin lib (memory_services_of lower auth) env rq c w \<noteq> Some (resp, w')"
    and "DirectoryHandler_ListGroups gin lib (memory_services_of lower auth) env rq c w \<noteq> Some (resp, w')"
  using assms
  by (auto simp: Handler_ListUsers_def DirectoryHandler_ListOrgs_def DirectoryHandler_ListGroups_def
      c_JSON_def Let_def split: option.splits sum.splits)

lemma Pprof_500:
  "Pprof name gin lib sv env rq c w = Some (resp, w') \<Longrightarrow> ht_status resp = 500 \<Longrightarrow>
     w' = w \<and> ht_status (gl_pprof gin name) = 500"
  by (auto simp: Pprof_def)

lemma session_total:
  "Handler_UpdateUser gin lib sv env rq c w \<noteq> None" "Handler_Logout gin lib sv env rq c w \<noteq> None"
  "Handler_Online gin lib sv env rq c w \<noteq> None" "DirectoryHandler_CreateGroup gin lib sv env rq c w \<noteq> None"
  "Pprof name gin lib sv env rq c w \<noteq> None"
  by (auto simp: Handler_UpdateUser_def Handler_Logout_def Handler_Online_def DirectoryHandler_CreateGroup_def
      Pprof_def Let_def split: sum.split prod.split)

lemma listing_panic:
  assumes "length (ev_order env) < 2 ^ 62"
  shows "Handler_ListUsers gin lib (memory_services_of lower auth) env rq c w = None \<longleftrightarrow>
           server_error_cause env rq gin c w EpListUsers"
    and "DirectoryHandler_ListOrgs gin lib (memory_services_of lower auth) env rq c w = None \<longleftrightarrow>
           server_error_cause env rq gin c w EpListOrgs"
    and "DirectoryHandler_ListGroups gin lib (memory_services_of lower auth) env rq c w = None \<longleftrightarrow>
           server_error_cause env rq gin c w EpListGroups"
  using ListUsers_crash [OF assms] ListOrgs_crash [OF assms] ListGroups_crash [OF assms]
  by (auto simp: Handler_ListUsers_def DirectoryHandler_ListOrgs_def DirectoryHandler_ListGroups_def Let_def
      split: option.splits sum.splits) (metis option.distinct(1))+

text \<open>Every server error and every panic of the endpoint has its cause.\<close>

definition explained :: "endpoint \<Rightarrow> bool" where
  "explained ep \<longleftrightarrow> (\<forall>gin lib lower auth env rq c w. world_inv w \<longrightarrow> length (ev_order env) < 2 ^ 62 \<longrightarrow>
     (case endpoint_handler ep gin lib (memory_services_of lower auth) env rq c w of
        None \<Rightarrow> server_error_cause env rq gin c w ep
      | Some (resp, w') \<Rightarrow> ht_status resp = 500 \<longrightarrow> w' = w \<and> server_error_cause env rq gin c w ep))"

lemma clean_explained: "no_server_error (endpoint_handler ep) \<Longrightarrow> explained ep"
  unfolding no_server_error_def explained_def by (metis (mono_tags, lifting) case_prodI option.simps(5))

lemma explainedI:
  assumes "\<And>gin lib lower auth env rq c w. length (ev_order env) < 2 ^ 62 \<Longrightarrow>
      endpoint_handler ep gin lib (memory_services_of lower auth) env rq c w = None \<Longrightarrow>
      server_error_cause env rq gin c w ep"
    and "\<And>gin lib lower auth env rq c w resp w'. world_inv w \<Longrightarrow>
      endpoint_handler ep gin lib (memory_services_of lower auth) env rq c w = Some (resp, w') \<Longrightarrow>
      ht_status resp = 500 \<Longrightarrow> w' = w \<and> server_error_cause env rq gin c w ep"
  shows "explained ep"
  unfolding explained_def
  by (intro allI impI, split option.split, intro conjI allI impI) (auto intro: assms(1) dest: assms(2))

lemma explained_special:
  "explained EpUpdateUser" "explained EpLogout" "explained EpOnline" "explained EpCreateGroup"
  "explained EpListUsers" "explained EpListOrgs" "explained EpListGroups" "explained (EpPprof name)"
proof -
  show "explained EpUpdateUser"
    by (rule explainedI) (use UpdateUser_500 session_total(1) in \<open>(simp only: endpoint_handler.simps; blast)+\<close>)
  show "explained EpLogout"
    by (rule explainedI) (use session_500(1) session_total(2) in \<open>(simp only: endpoint_handler.simps; blast)+\<close>)
  show "explained EpOnline"
    by (rule explainedI) (use session_500(2) session_total(3) in \<open>(simp only: endpoint_handler.simps; blast)+\<close>)
  show "explained EpCreateGroup"
    by (rule explainedI) (use CreateGroup_500 session_total(4) in \<open>(simp only: endpoint_handler.simps; blast)+\<close>)
  show "explained EpListUsers"
    by (rule explainedI) (use listing_500(1) listing_panic(1) in \<open>(simp only: endpoint_handler.simps; blast)+\<close>)
  show "explained EpListOrgs"
    by (rule explainedI) (use listing_500(2) listing_panic(2) in \<open>(simp only: endpoint_handler.simps; blast)+\<close>)
  show "explained EpListGroups"
    by (rule explainedI) (use listing_500(3) listing_panic(3) in \<open>(simp only: endpoint_handler.simps; blast)+\<close>)
  show "explained (EpPprof name)" by (simp add: explained_def Pprof_def)
qed

lemma all_explained: "explained ep"
  by (cases ep) (simp_all add: explained_special clean_explained clean_endpoints)

text \<open>
  C21: where server errors come from. Over the in-memory stores an answer with status 500
  changes nothing and has one of five causes: an update asks for an e-mail address that
  another user has; the user of a valid token is gone when a session is ended or resumed; the
  identifier of a new group is taken; a listing starts before its first entry, which is a
  panic that the framework answers; or the framework and its profiler answer so on their own.
\<close>

theorem server_error_causes:
  assumes "world_inv w" and "length (ev_order env) < 2 ^ 62"
    and "serve_http gin lib (memory_services_of lower auth) router tnow env rq w = (resp, w')"
    and "ht_status resp = 500" and "ht_status (gl_not_found gin) \<noteq> 500"
  shows "w' = w \<and> (\<exists>m path protected ep params claims.
           gl_find gin router (rq_method rq) (rq_path rq) = Some ((m, path, protected, ep), params) \<and>
           (protected \<longrightarrow> (\<exists>c. claims = Some c \<and> JWTMiddleware lib auth tnow rq = Inr c)) \<and>
           server_error_cause env rq gin \<lparr>cx_param = params, cx_claims = claims\<rparr> w ep)"
proof -
  obtain m path protected ep params where
      r: "gl_find gin router (rq_method rq) (rq_path rq) = Some ((m, path, protected, ep), params)"
    using assms(3-5) by (auto simp: serve_http_def split: option.splits)
  have cause: "w' = w \<and> server_error_cause env rq gin c w ep"
    if "(case endpoint_handler ep gin lib (memory_services_of lower auth) env rq c w of
           None \<Rightarrow> (gl_recovered gin, w) | Some x \<Rightarrow> x) = (resp, w')" for c
    using that all_explained [of ep, unfolded explained_def, rule_format, OF assms(1,2),
        where gin = gin and lib = lib and lower = lower and auth = auth and rq = rq and c = c] assms(4)
    by (auto split: option.splits)
  show ?thesis
  proof (cases protected)
    case True
    then obtain claims where mw: "JWTMiddleware lib auth tnow rq = Inr claims"
      using assms(3,4) r by (auto simp: serve_http_def JWTMiddleware_def c_JSON_def Let_def split: sum.splits if_splits)
    with assms(3) r True have "w' = w \<and> server_error_cause env rq gin \<lparr>cx_param = params, cx_claims = Some claims\<rparr> w ep"
      by (intro cause) (simp add: serve_http_def id_def)
    with r mw True show ?thesis by auto
  next
    case False
    with assms(3) r have "w' = w \<and> server_error_cause env rq gin \<lparr>cx_param = params, cx_claims = None\<rparr> w ep"
      by (intro cause) (simp add: serve_http_def id_def)
    with r False show ?thesis by auto
  qed
qed

theorem server_error_causes_witness:
  "serve_http sample_gin sample_jwt (memory_services_of ascii_ToLower sample_auth) (SetupRouter []) 1000 sample_env
     ((sample_http_request ''GET'' ''/api/v1/users'' ''Bearer tok'')\<lparr>rq_query := [''offset'' \<mapsto> ''-1'']\<rparr>) sample_world =
   (c_JSON 500 NoBody, sample_world)"
proof -
  let ?rq = "(sample_http_request ''GET'' ''/api/v1/users'' ''Bearer tok'')\<lparr>rq_query := [''offset'' \<mapsto> ''-1'']\<rparr>"
  let ?sv = "memory_services_of ascii_ToLower sample_auth"
  have neg: "strconv_Atoi (DefaultQuery ?rq ''offset'' ''0'') < 0"
    by (simp add: DefaultQuery_def strconv_Atoi_def strconv_ParseInt_def clamp64_def is_digit_def digits_value_def digit_value_def)
  have "JWTMiddleware sample_jwt sample_auth 1000 ?rq = Inr sample_claims"
    by (simp add: JWTMiddleware_def sample_http_request_def ValidateToken_def sample_jwt_def token_key_def
        not_expired_def sample_claims_def time_Second_def)
  moreover have "\<exists>params. gl_find sample_gin (SetupRouter []) ''GET'' ''/api/v1/users'' =
      Some ((''GET'', ''/api/v1/users'', True, EpListUsers), params)"
    by (simp add: sample_gin_def SetupRouter_def)
  moreover have "Handler_ListUsers sample_gin sample_jwt ?sv sample_env ?rq c sample_world = None" for c
    using neg listing_panic(1) [of sample_env] by (simp add: sample_env_def)
  ultimately have s: "serve_http sample_gin sample_jwt ?sv (SetupRouter []) 1000 sample_env ?rq sample_world =
      (gl_recovered sample_gin, sample_world)"
    by (auto simp: serve_http_def sample_http_request_def)
  with server_error_causes [OF sample_world_inv _ s] show ?thesis by (simp add: sample_gin_def)
qed

end
