(* ===== verification/Json.thy ===== *)
theory Json
  imports Prelude
begin

text \<open>
  The package \<open>encoding/json\<close> as the program uses it: the grammar of JSON texts, the
  writing of values (\<open>Marshal\<close>), the reading of texts (\<open>Unmarshal\<close>) and the decoding of
  an object into the fields of a struct. A number is kept as its literal, because the
  decoder only looks at it when it fills a field. The main result is that reading what was
  written gives the value back.
\<close>

section \<open>Values\<close>

datatype json =
    JNull
  | JBool bool
  | JNumber string
  | JString string
  | JArray "json list"
  | JObject "(string \<times> json) list"


section \<open>Bytes and runes\<close>

abbreviation byte :: "char \<Rightarrow> nat" where
  "byte c \<equiv> of_char c"

definition byte_in :: "nat \<Rightarrow> nat \<Rightarrow> char \<Rightarrow> bool" where
  "byte_in lo hi c \<longleftrightarrow> lo \<le> byte c \<and> byte c \<le> hi"

text \<open>
  The width of the multi-byte UTF-8 sequence at the front of a string: \<open>utf8.DecodeRune\<close>
  with the table of ranges it allows. Anything else is an invalid byte of width 1.
\<close>

definition rune2 :: "char \<Rightarrow> char \<Rightarrow> bool" where
  "rune2 a b \<longleftrightarrow> byte_in 0xC2 0xDF a \<and> byte_in 0x80 0xBF b"

definition rune3 :: "char \<Rightarrow> char \<Rightarrow> char \<Rightarrow> bool" where
  "rune3 a b c \<longleftrightarrow> byte_in 0x80 0xBF c \<and>
     (byte a = 0xE0 \<and> byte_in 0xA0 0xBF b \<or> byte_in 0xE1 0xEC a \<and> byte_in 0x80 0xBF b \<or>
      byte a = 0xED \<and> byte_in 0x80 0x9F b \<or> byte_in 0xEE 0xEF a \<and> byte_in 0x80 0xBF b)"

definition rune4 :: "char \<Rightarrow> char \<Rightarrow> char \<Rightarrow> char \<Rightarrow> bool" where
  "rune4 a b c d \<longleftrightarrow> byte_in 0x80 0xBF c \<and> byte_in 0x80 0xBF d \<and>
     (byte a = 0xF0 \<and> byte_in 0x90 0xBF b \<or> byte_in 0xF1 0xF3 a \<and> byte_in 0x80 0xBF b \<or>
      byte a = 0xF4 \<and> byte_in 0x80 0x8F b)"

fun rune_width :: "string \<Rightarrow> nat option" where
  "rune_width (a # b # c # d # _) =
     (if rune2 a b then Some 2 else if rune3 a b c then Some 3
      else if rune4 a b c d then Some 4 else None)"
| "rune_width [a, b, c] = (if rune2 a b then Some 2 else if rune3 a b c then Some 3 else None)"
| "rune_width [a, b] = (if rune2 a b then Some 2 else None)"
| "rune_width _ = None"

lemma rune_bytes:
  "rune2 a b \<Longrightarrow> 0x80 \<le> byte a \<and> 0x80 \<le> byte b"
  "rune3 a b c \<Longrightarrow> 0x80 \<le> byte a \<and> 0x80 \<le> byte b \<and> 0x80 \<le> byte c"
  "rune4 a b c d \<Longrightarrow> 0x80 \<le> byte a \<and> 0x80 \<le> byte b \<and> 0x80 \<le> byte c \<and> 0x80 \<le> byte d"
  by (auto simp: rune2_def rune3_def rune4_def byte_in_def)

lemma rune_width_le: "rune_width s = Some n \<Longrightarrow> 2 \<le> n \<and> n \<le> length s"
  by (cases s rule: rune_width.cases) (auto split: if_splits)

text \<open>The bytes after the sequence do not matter.\<close>

lemma rune_width_app: "rune_width s = Some n \<Longrightarrow> rune_width (s @ t) = Some n"
proof (cases s rule: rune_width.cases)
  case (2 a b c)
  moreover assume "rune_width s = Some n"
  ultimately show ?thesis by (cases t) (auto split: if_splits)
next
  case (3 a b)
  moreover assume "rune_width s = Some n"
  ultimately show ?thesis by (cases t; cases "tl t") (auto split: if_splits)
qed auto

text \<open>The replacement character U+FFFD.\<close>

definition RuneError :: string where
  "RuneError = [char_of (0xEF::nat), char_of (0xBF::nat), char_of (0xBD::nat)]"

text \<open>The UTF-8 encoding of a code point below 0x110000 that is not a surrogate.\<close>

definition utf8_EncodeRune :: "nat \<Rightarrow> string" where
  "utf8_EncodeRune r =
     (if r < 0x80 then [char_of r]
      else if r < 0x800 then [char_of (0xC0 + r div 64), char_of (0x80 + r mod 64)]
      else if r < 0x10000 then
        [char_of (0xE0 + r div 4096), char_of (0x80 + r div 64 mod 64), char_of (0x80 + r mod 64)]
      else [char_of (0xF0 + r div 262144), char_of (0x80 + r div 4096 mod 64),
            char_of (0x80 + r div 64 mod 64), char_of (0x80 + r mod 64)])"


section \<open>Strings\<close>

definition hex_digit :: "nat \<Rightarrow> char" where
  "hex_digit n = (if n < 10 then char_of (48 + n) else char_of (87 + n))"

definition hex_value :: "char \<Rightarrow> nat option" where
  "hex_value c =
     (if byte_in 48 57 c then Some (byte c - 48)
      else if byte_in 97 102 c then Some (byte c - 87)
      else if byte_in 65 70 c then Some (byte c - 55) else None)"

text \<open>Four hexadecimal digits.\<close>

fun getu4 :: "string \<Rightarrow> nat option" where
  "getu4 (a # b # c # d # _) =
     (case (hex_value a, hex_value b, hex_value c, hex_value d) of
        (Some w, Some x, Some y, Some z) \<Rightarrow> Some (4096 * w + 256 * x + 16 * y + z)
      | _ \<Rightarrow> None)"
| "getu4 _ = None"

text \<open>The escape letters that stand for one byte.\<close>

definition simple_escape :: "char \<Rightarrow> char option" where
  "simple_escape c =
     (if c = CHR 0x22 \<or> c = CHR 0x5C \<or> c = CHR ''/'' then Some c
      else if c = CHR ''b'' then Some (CHR 0x08)
      else if c = CHR ''f'' then Some (CHR 0x0C)
      else if c = CHR ''n'' then Some (CHR 0x0A)
      else if c = CHR ''r'' then Some (CHR 0x0D)
      else if c = CHR ''t'' then Some (CHR 0x09) else None)"

text \<open>
  A \<open>\u\<close> escape whose four digits are read already: the low half of a surrogate pair may
  follow, and an unpaired surrogate becomes U+FFFD. The result is the bytes and the number
  of further characters used up.
\<close>

definition unescape_u :: "nat \<Rightarrow> string \<Rightarrow> string \<times> nat" where
  "unescape_u r rest =
     (if 0xD800 \<le> r \<and> r < 0xE000
      then case rest of
             x # y # t \<Rightarrow>
               (if x = CHR 0x5C \<and> y = CHR ''u'' then
                  (case getu4 t of
                     Some r2 \<Rightarrow> if r < 0xDC00 \<and> 0xDC00 \<le> r2 \<and> r2 < 0xE000
                                then (utf8_EncodeRune (0x10000 + (r - 0xD800) * 1024 + (r2 - 0xDC00)), 6)
                                else (RuneError, 0)
                   | None \<Rightarrow> (RuneError, 0))
                else (RuneError, 0))
           | _ \<Rightarrow> (RuneError, 0)
      else (utf8_EncodeRune r, 0))"

text \<open>The rest of a string literal after the opening quote, and what follows it.\<close>

function parse_string :: "string \<Rightarrow> (string \<times> string) option" where
  "parse_string s =
     (case s of
        [] \<Rightarrow> None
      | c # t \<Rightarrow>
          if c = CHR 0x22 then Some ([], t)
          else if byte c < 0x20 then None
          else if c = CHR 0x5C then
            (case t of
               [] \<Rightarrow> None
             | e # r \<Rightarrow>
                 if e = CHR ''u'' then
                   (case getu4 r of
                      None \<Rightarrow> None
                    | Some n \<Rightarrow>
                        let (bs, k) = unescape_u n (drop 4 r)
                        in map_option (\<lambda>(v, z). (bs @ v, z)) (parse_string (drop (4 + k) r)))
                 else (case simple_escape e of
                         None \<Rightarrow> None
                       | Some b \<Rightarrow> map_option (\<lambda>(v, z). (b # v, z)) (parse_string r)))
          else if byte c < 0x80 then map_option (\<lambda>(v, z). (c # v, z)) (parse_string t)
          else (case rune_width s of
                  None \<Rightarrow> map_option (\<lambda>(v, z). (RuneError @ v, z)) (parse_string t)
                | Some n \<Rightarrow> map_option (\<lambda>(v, z). (take n s @ v, z)) (parse_string (drop (n - 1) t))))"
  by pat_completeness auto
termination by (relation "measure length") auto

declare parse_string.simps [simp del]

text \<open>What \<open>Marshal\<close> writes for one byte below 128, HTML characters escaped.\<close>

definition escape_byte :: "char \<Rightarrow> string" where
  "escape_byte c =
     (if c = CHR 0x22 \<or> c = CHR 0x5C then [CHR 0x5C, c]
      else if c = CHR 0x08 then [CHR 0x5C, CHR ''b'']
      else if c = CHR 0x0C then [CHR 0x5C, CHR ''f'']
      else if c = CHR 0x0A then [CHR 0x5C, CHR ''n'']
      else if c = CHR 0x0D then [CHR 0x5C, CHR ''r'']
      else if c = CHR 0x09 then [CHR 0x5C, CHR ''t'']
      else if byte c < 0x20 \<or> c = CHR ''<'' \<or> c = CHR ''>'' \<or> c = CHR ''&''
      then [CHR 0x5C, CHR ''u'', CHR ''0'', CHR ''0'', hex_digit (byte c div 16), hex_digit (byte c mod 16)]
      else [c])"

text \<open>The line separators U+2028 and U+2029 are escaped as well.\<close>

definition escape_rune :: "string \<Rightarrow> string" where
  "escape_rune r =
     (if r = map char_of [0xE2::nat, 0x80, 0xA8] then CHR 0x5C # ''u2028''
      else if r = map char_of [0xE2::nat, 0x80, 0xA9] then CHR 0x5C # ''u2029''
      else r)"

function escape :: "string \<Rightarrow> string" where
  "escape s =
     (case s of
        [] \<Rightarrow> []
      | c # t \<Rightarrow>
          if byte c < 0x80 then escape_byte c @ escape t
          else (case rune_width s of
                  None \<Rightarrow> CHR 0x5C # ''ufffd'' @ escape t
                | Some n \<Rightarrow> escape_rune (take n s) @ escape (drop (n - 1) t)))"
  by pat_completeness auto
termination by (relation "measure length") auto

declare escape.simps [simp del]

definition quote_string :: "string \<Rightarrow> string" where
  "quote_string s = CHR 0x22 # escape s @ [CHR 0x22]"

text \<open>The strings that are valid UTF-8.\<close>

function valid_utf8 :: "string \<Rightarrow> bool" where
  "valid_utf8 s =
     (case s of
        [] \<Rightarrow> True
      | c # t \<Rightarrow> if byte c < 0x80 then valid_utf8 t
                 else (case rune_width s of None \<Rightarrow> False | Some n \<Rightarrow> valid_utf8 (drop (n - 1) t)))"
  by pat_completeness auto
termination by (relation "measure length") auto

declare valid_utf8.simps [simp del]

lemma valid_utf8_Nil [simp]: "valid_utf8 []"
  by (simp add: valid_utf8.simps)


subsection \<open>Reading back what was written\<close>

lemma rune_width_take: "rune_width s = Some n \<Longrightarrow> rune_width (take n s) = Some n"
  by (cases s rule: rune_width.cases) (auto split: if_splits)

lemma hex_value_digit: "n < 16 \<Longrightarrow> hex_value (hex_digit n) = Some n"
  by (auto simp: hex_value_def hex_digit_def byte_in_def)

lemma getu4_byte:
  assumes "b < 256"
  shows "getu4 (CHR ''0'' # CHR ''0'' # hex_digit (b div 16) # hex_digit (b mod 16) # X) = Some b"
proof -
  have "b div 16 < 16" using assms by (simp add: less_mult_imp_div_less)
  moreover have "hex_value (CHR ''0'') = Some 0" by (simp add: hex_value_def byte_in_def)
  ultimately show ?thesis by (simp add: hex_value_digit)
qed

lemma unescape_u_byte: "byte c < 0x80 \<Longrightarrow> unescape_u (byte c) X = ([c], 0)"
  by (simp add: unescape_u_def utf8_EncodeRune_def)

lemma parse_escape_byte:
  assumes "byte c < 0x80"
  shows "parse_string (escape_byte c @ X) = map_option (\<lambda>(v, z). (c # v, z)) (parse_string X)"
proof (cases "byte c < 0x20 \<or> c = CHR ''<'' \<or> c = CHR ''>'' \<or> c = CHR ''&''")
  case True
  show ?thesis
  proof (cases "c = CHR 0x08 \<or> c = CHR 0x0C \<or> c = CHR 0x0A \<or> c = CHR 0x0D \<or> c = CHR 0x09")
    case True
    then show ?thesis
      by (elim disjE) (simp_all add: escape_byte_def parse_string.simps [of "CHR 0x5C # _"] simple_escape_def)
  next
    case False
    have "c \<noteq> CHR 0x22" and "c \<noteq> CHR 0x5C" using True by (elim disjE; fastforce)+
    with True False have "escape_byte c = [CHR 0x5C, CHR ''u'', CHR ''0'', CHR ''0'',
        hex_digit (byte c div 16), hex_digit (byte c mod 16)]"
      by (simp add: escape_byte_def)
    then show ?thesis
      using assms by (simp add: parse_string.simps [of "CHR 0x5C # _"] getu4_byte unescape_u_byte
          del: getu4.simps)
  qed
next
  case False
  show ?thesis
  proof (cases "c = CHR 0x22 \<or> c = CHR 0x5C")
    case True
    then show ?thesis
      by (elim disjE) (simp_all add: escape_byte_def parse_string.simps [of "CHR 0x5C # _"] simple_escape_def)
  next
    case False': False
    have "c \<noteq> CHR 0x08 \<and> c \<noteq> CHR 0x0C \<and> c \<noteq> CHR 0x0A \<and> c \<noteq> CHR 0x0D \<and> c \<noteq> CHR 0x09"
      using False by auto
    with False False' have "escape_byte c = [c]" by (simp add: escape_byte_def)
    with False False' assms show ?thesis by (simp add: parse_string.simps [of "c # _"])
  qed
qed

lemma rune_width_first: "rune_width (c # t) = Some n \<Longrightarrow> 0x80 \<le> byte c"
  by (cases "c # t" rule: rune_width.cases) (auto dest: rune_bytes split: if_splits)

lemma parse_escape_rune:
  assumes "rune_width s = Some n"
  shows "parse_string (escape_rune (take n s) @ X) =
           map_option (\<lambda>(v, z). (take n s @ v, z)) (parse_string X)"
proof -
  have line: "parse_string (CHR 0x5C # CHR ''u'' # CHR ''2'' # CHR ''0'' # CHR ''2'' # d # X) =
      map_option (\<lambda>(v, z). (map char_of [0xE2::nat, 0x80, 0xA0 + (byte d - 48)] @ v, z)) (parse_string X)"
    if "d = CHR ''8'' \<or> d = CHR ''9''" for d
    using that by (elim disjE) (simp_all add: parse_string.simps [of "CHR 0x5C # _"] hex_value_def
        byte_in_def unescape_u_def utf8_EncodeRune_def)
  show ?thesis
  proof (cases "take n s = map char_of [0xE2::nat, 0x80, 0xA8] \<or> take n s = map char_of [0xE2::nat, 0x80, 0xA9]")
    case True
    then show ?thesis using line [of "CHR ''8''"] line [of "CHR ''9''"]
      by (elim disjE) (simp_all add: escape_rune_def)
  next
    case False
    have "length (take n s) = n" and "take n s \<noteq> []" using rune_width_le [OF assms] by auto
    then obtain c t where r: "take n s = c # t" by (cases "take n s") auto
    have w: "rune_width (take n s) = Some n" using assms by (rule rune_width_take)
    have "0x80 \<le> byte c" using w r rune_width_first by metis
    then have "c \<noteq> CHR 0x22" and "c \<noteq> CHR 0x5C" by auto
    moreover have "rune_width ((c # t) @ X) = Some n" using w r rune_width_app by metis
    moreover have "length t = n - 1" using r \<open>length (take n s) = n\<close> by simp
    moreover have "take n ((c # t) @ X) = c # t" using r \<open>length (take n s) = n\<close> by (simp only: take_append) simp
    moreover have "escape_rune (take n s) = take n s" using False by (simp add: escape_rune_def)
    ultimately show ?thesis
      using r \<open>0x80 \<le> byte c\<close> by (simp add: parse_string.simps [of "c # _"])
  qed
qed

lemma parse_string_escape:
  "valid_utf8 s \<Longrightarrow> parse_string (escape s @ CHR 0x22 # rest) = Some (s, rest)"
proof (induction s rule: length_induct)
  case (1 s)
  show ?case
  proof (cases s)
    case Nil
    then show ?thesis by (simp add: escape.simps parse_string.simps)
  next
    case (Cons c t)
    show ?thesis
    proof (cases "byte c < 0x80")
      case True
      with 1 Cons have "parse_string (escape t @ CHR 0x22 # rest) = Some (t, rest)"
        using valid_utf8.simps [of s] by simp
      with True Cons show ?thesis
        using escape.simps [of s] by (simp add: parse_escape_byte)
    next
      case False
      with 1(2) Cons obtain n where n: "rune_width s = Some n" and v: "valid_utf8 (drop (n - 1) t)"
        using valid_utf8.simps [of s] by (auto split: option.splits)
      have "length (drop (n - 1) t) < length s" using Cons by simp
      with 1(1) v have "parse_string (escape (drop (n - 1) t) @ CHR 0x22 # rest) = Some (drop (n - 1) t, rest)"
        by blast
      moreover have "take n s @ drop (n - 1) t = s"
        using Cons rune_width_le [OF n] by (cases n) auto
      ultimately show ?thesis
        using False Cons n parse_escape_rune [OF n, of "escape (drop (n - 1) t) @ CHR 0x22 # rest"]
        using escape.simps [of s] by simp
    qed
  qed
qed


section \<open>Numbers\<close>

definition scan_fraction :: "string \<Rightarrow> (string \<times> string) option" where
  "scan_fraction s =
     (case s of
        c # t \<Rightarrow>
          if c = CHR ''.'' then
            (let ds = takeWhile is_digit t
             in if ds = [] then None else Some (c # ds, dropWhile is_digit t))
          else Some ([], s)
      | [] \<Rightarrow> Some ([], s))"

definition scan_exponent :: "string \<Rightarrow> (string \<times> string) option" where
  "scan_exponent s =
     (case s of
        c # t \<Rightarrow>
          if c = CHR ''e'' \<or> c = CHR ''E'' then
            (let (sign, u) = (case t of
                   x # y \<Rightarrow> if x = CHR ''+'' \<or> x = CHR ''-'' then ([x], y) else ([], t)
                 | [] \<Rightarrow> ([], t));
                 ds = takeWhile is_digit u
             in if ds = [] then None else Some (c # sign @ ds, dropWhile is_digit u))
          else Some ([], s)
      | [] \<Rightarrow> Some ([], s))"

definition scan_integer :: "string \<Rightarrow> (string \<times> string) option" where
  "scan_integer s =
     (case s of
        [] \<Rightarrow> None
      | c # t \<Rightarrow>
          if c = CHR ''0'' then Some ([c], t)
          else if is_digit c then Some (takeWhile is_digit s, dropWhile is_digit s)
          else None)"

definition parse_number :: "string \<Rightarrow> (string \<times> string) option" where
  "parse_number s =
     (let (sign, s1) = (case s of
            c # t \<Rightarrow> if c = CHR ''-'' then ([c], t) else ([], s)
          | [] \<Rightarrow> ([], s))
      in case scan_integer s1 of
           None \<Rightarrow> None
         | Some (i, s2) \<Rightarrow>
             (case scan_fraction s2 of
                None \<Rightarrow> None
              | Some (f, s3) \<Rightarrow>
                  (case scan_exponent s3 of
                     None \<Rightarrow> None
                   | Some (e, s4) \<Rightarrow> Some (sign @ i @ f @ e, s4))))"

text \<open>What may follow a number without becoming part of it.\<close>

definition number_ends :: "string \<Rightarrow> bool" where
  "number_ends rest \<longleftrightarrow>
     (case rest of [] \<Rightarrow> True
      | c # _ \<Rightarrow> \<not> is_digit c \<and> c \<noteq> CHR ''.'' \<and> c \<noteq> CHR ''e'' \<and> c \<noteq> CHR ''E'' \<and>
                 c \<noteq> CHR ''+'' \<and> c \<noteq> CHR ''-'')"

lemma takeWhile_digits_app:
  "number_ends rest \<Longrightarrow> takeWhile is_digit (s @ rest) = takeWhile is_digit s"
  by (induction s) (auto simp: number_ends_def split: list.splits)

lemma dropWhile_digits_app:
  "number_ends rest \<Longrightarrow> dropWhile is_digit (s @ rest) = dropWhile is_digit s @ rest"
  by (induction s) (auto simp: number_ends_def split: list.splits)

lemmas digits_app = takeWhile_digits_app dropWhile_digits_app

lemma scan_fraction_app:
  assumes "number_ends rest" and "scan_fraction s = Some (f, t)"
  shows "scan_fraction (s @ rest) = Some (f, t @ rest)"
proof (cases s)
  case Nil
  with assms show ?thesis by (cases rest) (auto simp: scan_fraction_def number_ends_def)
next
  case (Cons c u)
  with assms show ?thesis by (auto simp: scan_fraction_def Let_def digits_app split: if_splits)
qed

lemma scan_exponent_app:
  assumes "number_ends rest" and "scan_exponent s = Some (e, t)"
  shows "scan_exponent (s @ rest) = Some (e, t @ rest)"
proof (cases s)
  case Nil
  with assms show ?thesis by (cases rest) (auto simp: scan_exponent_def number_ends_def)
next
  case (Cons c u)
  with assms show ?thesis
    by (cases u) (auto simp: scan_exponent_def Let_def digits_app split: if_splits)
qed

lemma scan_integer_app:
  assumes "number_ends rest" and "scan_integer s = Some (i, t)"
  shows "scan_integer (s @ rest) = Some (i, t @ rest)"
  using assms by (cases s) (auto simp: scan_integer_def digits_app split: if_splits)

lemma parse_number_app:
  assumes "number_ends rest" and "parse_number s = Some (n, t)"
  shows "parse_number (s @ rest) = Some (n, t @ rest)"
proof -
  define sign where "sign = (case s of c # t \<Rightarrow> if c = CHR ''-'' then ([c], t) else ([], s) | [] \<Rightarrow> ([], s))"
  have ne: "s \<noteq> []" using assms(2) by (auto simp: parse_number_def scan_integer_def)
  obtain sg s1 where sg: "sign = (sg, s1)" by force
  have sg': "(case s @ rest of c # t \<Rightarrow> if c = CHR ''-'' then ([c], t) else ([], s @ rest)
      | [] \<Rightarrow> ([], s @ rest)) = (sg, s1 @ rest)"
    using ne sg by (cases s) (auto simp: sign_def)
  obtain i s2 f s3 e where "scan_integer s1 = Some (i, s2)" and "scan_fraction s2 = Some (f, s3)"
    and "scan_exponent s3 = Some (e, t)" and "n = sg @ i @ f @ e"
    using assms(2) sg unfolding parse_number_def sign_def [symmetric]
    by (auto split: option.splits)
  then show ?thesis
    unfolding parse_number_def sg'
    by (simp add: scan_integer_app [OF assms(1)] scan_fraction_app [OF assms(1)] scan_exponent_app [OF assms(1)])
qed

text \<open>The first character of a number is a minus sign or a digit.\<close>

lemma parse_number_first:
  "parse_number (c # t) = Some (n, r) \<Longrightarrow> c = CHR ''-'' \<or> is_digit c"
  by (auto simp: parse_number_def scan_integer_def is_digit_def split: if_splits option.splits)


section \<open>Texts\<close>

definition is_space :: "char \<Rightarrow> bool" where
  "is_space c \<longleftrightarrow> c = CHR '' '' \<or> c = CHR 0x09 \<or> c = CHR 0x0D \<or> c = CHR 0x0A"

definition skip_space :: "string \<Rightarrow> string" where
  "skip_space s = dropWhile is_space s"

lemma length_skip_space: "length (skip_space s) \<le> length s"
  by (simp add: skip_space_def length_dropWhile_le)

definition parse_literal :: "string \<Rightarrow> (json \<times> string) option" where
  "parse_literal s =
     (if prefix ''null'' s then Some (JNull, drop 4 s)
      else if prefix ''true'' s then Some (JBool True, drop 4 s)
      else if prefix ''false'' s then Some (JBool False, drop 5 s)
      else map_option (\<lambda>(n, r). (JNumber n, r)) (parse_number s))"

text \<open>
  The value at the front of a text, and the rest. The first argument bounds the number of
  nested calls, the second the depth of nesting that the scanner still allows
  (\<open>maxNestingDepth\<close>). \<open>parse_value_fuel\<close> below shows that a bound of twice the length
  of the text is never reached.
\<close>

fun parse_value :: "nat \<Rightarrow> nat \<Rightarrow> string \<Rightarrow> (json \<times> string) option"
  and parse_elements :: "nat \<Rightarrow> nat \<Rightarrow> string \<Rightarrow> (json list \<times> string) option"
  and parse_members :: "nat \<Rightarrow> nat \<Rightarrow> string \<Rightarrow> ((string \<times> json) list \<times> string) option" where
  "parse_value 0 d s = None"
| "parse_value (Suc n) d s =
     (case skip_space s of
        [] \<Rightarrow> None
      | c # t \<Rightarrow>
          if c = CHR 0x22 then map_option (\<lambda>(v, r). (JString v, r)) (parse_string t)
          else if c = CHR ''['' then
            (if d = 0 then None
             else case skip_space t of
                    [] \<Rightarrow> None
                  | x # r \<Rightarrow> if x = CHR '']'' then Some (JArray [], r)
                             else map_option (\<lambda>(vs, r). (JArray vs, r)) (parse_elements n (d - 1) t))
          else if c = CHR ''{'' then
            (if d = 0 then None
             else case skip_space t of
                    [] \<Rightarrow> None
                  | x # r \<Rightarrow> if x = CHR ''}'' then Some (JObject [], r)
                             else map_option (\<lambda>(ms, r). (JObject ms, r)) (parse_members n (d - 1) t))
          else parse_literal (c # t))"
| "parse_elements 0 d s = None"
| "parse_elements (Suc n) d s =
     (case parse_value n d s of
        None \<Rightarrow> None
      | Some (v, r) \<Rightarrow>
          (case skip_space r of
             [] \<Rightarrow> None
           | c # t \<Rightarrow>
               if c = CHR '','' then map_option (\<lambda>(vs, z). (v # vs, z)) (parse_elements n d t)
               else if c = CHR '']'' then Some ([v], t) else None))"
| "parse_members 0 d s = None"
| "parse_members (Suc n) d s =
     (case skip_space s of
        [] \<Rightarrow> None
      | q # t \<Rightarrow>
          if q \<noteq> CHR 0x22 then None
          else case parse_string t of
                 None \<Rightarrow> None
               | Some (k, r) \<Rightarrow>
                   (case skip_space r of
                      [] \<Rightarrow> None
                    | c # r1 \<Rightarrow>
                        if c \<noteq> CHR '':'' then None
                        else case parse_value n d r1 of
                               None \<Rightarrow> None
                             | Some (v, r2) \<Rightarrow>
                                 (case skip_space r2 of
                                    [] \<Rightarrow> None
                                  | x # z \<Rightarrow>
                                      if x = CHR '','' then
                                        map_option (\<lambda>(ms, z). ((k, v) # ms, z)) (parse_members n d z)
                                      else if x = CHR ''}'' then Some ([(k, v)], z) else None)))"

definition maxNestingDepth :: nat where
  "maxNestingDepth = 10000"

text \<open>A whole text: one value, and nothing but space after it.\<close>

definition json_Parse :: "string \<Rightarrow> json option" where
  "json_Parse s =
     (case parse_value (2 * length s + 2) maxNestingDepth s of
        None \<Rightarrow> None
      | Some (v, r) \<Rightarrow> if skip_space r = [] then Some v else None)"


subsection \<open>The bound on the calls\<close>

lemma length_parse_string: "parse_string s = Some (v, r) \<Longrightarrow> length r < length s"
proof (induction s arbitrary: v r rule: length_induct)
  case (1 s)
  show ?case
  proof (cases s)
    case Nil
    with 1 show ?thesis by (simp add: parse_string.simps)
  next
    case (Cons c t)
    have step: "length r < length s" if "parse_string u = Some (w, r)" and "length u < length s" for u w
      using 1(1) that by force
    show ?thesis
      using 1(2) [unfolded parse_string.simps [of s]] Cons
      by (auto simp: Let_def map_option_case split: if_splits option.splits list.splits prod.splits
          dest: step)
  qed
qed

lemma length_parse_number: "parse_number s = Some (v, r) \<Longrightarrow> length r < length s"
proof -
  have dw: "length (dropWhile is_digit u) \<le> length u" for u by (rule length_dropWhile_le)
  have i: "length y < length x" if "scan_integer x = Some (i, y)" for x i y
    using that dw by (auto simp: scan_integer_def le_imp_less_Suc split: if_splits list.splits)
  have f: "length y \<le> length x" if "scan_fraction x = Some (i, y)" for x i y
    using that dw by (auto simp: scan_fraction_def Let_def le_SucI split: if_splits list.splits)
  have e: "length y \<le> length x" if "scan_exponent x = Some (i, y)" for x i y
    using that dw by (auto simp: scan_exponent_def Let_def le_SucI split: if_splits list.splits)
  assume "parse_number s = Some (v, r)"
  then obtain sg s1 i s2 fr s3 ex where "length s1 \<le> length s" and "scan_integer s1 = Some (i, s2)"
    and "scan_fraction s2 = Some (fr, s3)" and "scan_exponent s3 = Some (ex, r)"
    by (auto simp: parse_number_def Let_def split: option.splits list.splits if_splits)
      (metis le_SucI length_Cons order_refl)+
  then show ?thesis using i f e by (meson le_trans less_le_trans not_less)
qed

lemma length_parse_literal: "parse_literal s = Some (v, r) \<Longrightarrow> length r < length s"
  by (auto simp: parse_literal_def dest!: length_parse_number prefix_length_le split: if_splits)

lemma skip_space_less: "skip_space s = c # t \<Longrightarrow> length t < length s"
  using length_skip_space [of s] by simp

lemma parse_fuel:
  shows parse_value_fuel: "parse_value n d s = Some (v, r) \<Longrightarrow>
      length r < length s \<and> (\<forall>m \<ge> 2 * length s. parse_value m d s = Some (v, r))"
    and parse_elements_fuel: "parse_elements n d s = Some (vs, r) \<Longrightarrow>
      length r < length s \<and> (\<forall>m \<ge> 2 * length s + 1. parse_elements m d s = Some (vs, r))"
    and parse_members_fuel: "parse_members n d s = Some (ms, r) \<Longrightarrow>
      length r < length s \<and> (\<forall>m \<ge> 2 * length s + 1. parse_members m d s = Some (ms, r))"
proof (induction n d s and n d s and n d s arbitrary: v r and vs r and ms r
    rule: parse_value_parse_elements_parse_members.induct)
  case (2 n d s)
  obtain c t where ct: "skip_space s = c # t" and lt: "length t < length s"
    using 2(3) skip_space_less by (auto split: list.splits)
  have "length r < length s \<and> parse_value (Suc m) d s = Some (v, r)" if m: "2 * length s \<le> Suc m" for m
  proof -
    have lit: "length z < length s" if "parse_literal (c # t) = Some (w, z)" for w z
      using length_parse_literal [OF that] length_skip_space [of s] ct by simp
    have str: "length z < length s" if "parse_string t = Some (w, z)" for w z
      using length_parse_string [OF that] lt by simp
    have sp: "length z < length s" if "skip_space t = x # z" for x z
      using skip_space_less [OF that] lt by simp
    have el: "length z < length s \<and> parse_elements m (d - 1) t = Some (w, z)"
      if "parse_elements n (d - 1) t = Some (w, z)" and "c = CHR ''[''" and "d \<noteq> 0"
        and "skip_space t = x # y" and "x \<noteq> CHR '']''" for w z x y
      using 2(1) [OF ct _ that(2-5,1)] that(2) m lt by simp
    have mb: "length z < length s \<and> parse_members m (d - 1) t = Some (w, z)"
      if "parse_members n (d - 1) t = Some (w, z)" and "c = CHR ''{''" and "d \<noteq> 0"
        and "skip_space t = x # y" and "x \<noteq> CHR ''}''" for w z x y
      using 2(2) [OF ct _ _ that(2-5,1)] that(2) m lt by simp
    show ?thesis
      using 2(3) ct by (auto simp: lit str sp split: if_splits list.splits dest: el [simplified] mb [simplified])
  qed
  moreover have "2 * length s \<ge> 2" using lt by simp
  ultimately show ?case by (metis Suc_le_D le_trans one_le_numeral order_refl Suc_1 le_SucI)
next
  case (4 n d s)
  obtain w z where vz: "parse_value n d s = Some (w, z)" using 4(3) by (auto split: option.splits)
  note val = 4(1) [OF vz]
  obtain c t where ct: "skip_space z = c # t" and lt: "length t < length z"
    using 4(3) vz skip_space_less by (auto split: list.splits)
  have "length r < length s \<and> parse_elements (Suc m) d s = Some (vs, r)" if m: "2 * length s \<le> m" for m
  proof -
    have v: "parse_value m d s = Some (w, z)" using val m by blast
    show ?thesis
    proof (cases "c = CHR '',''")
      case True
      then obtain us where us: "parse_elements n d t = Some (us, r)" "vs = w # us"
        using 4(3) vz ct by auto
      with 4(2) [OF vz _ ct True] have "length r < length t \<and> (\<forall>m \<ge> 2 * length t + 1. parse_elements m d t = Some (us, r))"
        by auto
      moreover have "2 * length t + 1 \<le> m" using m lt val by linarith
      ultimately show ?thesis using v ct True us lt val by auto
    next
      case False
      with 4(3) vz ct v lt val show ?thesis by (auto split: if_splits)
    qed
  qed
  then show ?case by (metis Suc_eq_plus1 Suc_le_D Suc_le_mono order_refl)
next
  case (6 n d s)
  obtain t where qt: "skip_space s = CHR 0x22 # t" using 6(3) by (auto split: list.splits if_splits)
  obtain k y where ky: "parse_string t = Some (k, y)" using 6(3) qt by (auto split: option.splits)
  obtain r1 where r1: "skip_space y = CHR '':'' # r1" using 6(3) qt ky by (auto split: list.splits if_splits)
  obtain w z where vz: "parse_value n d r1 = Some (w, z)" using 6(3) qt ky r1 by (auto split: option.splits)
  note val = 6(1) [OF qt _ ky _ r1 _ vz, simplified]
  obtain c u where cu: "skip_space z = c # u" using 6(3) qt ky r1 vz by (auto split: list.splits)
  have len: "length u < length z" "length r1 < length s" "length z < length r1"
    using skip_space_less [OF cu] skip_space_less [OF r1] skip_space_less [OF qt] length_parse_string [OF ky] val
    by auto
  have "length r < length s \<and> parse_members (Suc m) d s = Some (ms, r)" if m: "2 * length s \<le> m" for m
  proof -
    have v: "parse_value m d r1 = Some (w, z)" using val m len by auto
    show ?thesis
    proof (cases "c = CHR '',''")
      case True
      then obtain us where us: "parse_members n d u = Some (us, r)" "ms = (k, w) # us"
        using 6(3) qt ky r1 vz cu by auto
      have "length r < length u \<and> (\<forall>m \<ge> 2 * length u + 1. parse_members m d u = Some (us, r))"
        using 6(2) [OF qt _ ky _ r1 _ vz _ cu True] us by auto
      moreover have "2 * length u + 1 \<le> m" using m len by linarith
      ultimately show ?thesis using qt ky r1 v cu True us len by auto
    next
      case False
      with 6(3) qt ky r1 vz cu v len show ?thesis by (auto split: if_splits)
    qed
  qed
  then show ?case by (metis Suc_eq_plus1 Suc_le_D Suc_le_mono order_refl)
qed simp_all


section \<open>Writing\<close>

fun json_Marshal :: "json \<Rightarrow> string"
  and marshal_elements :: "json list \<Rightarrow> string"
  and marshal_members :: "(string \<times> json) list \<Rightarrow> string" where
  "json_Marshal JNull = ''null''"
| "json_Marshal (JBool b) = (if b then ''true'' else ''false'')"
| "json_Marshal (JNumber n) = n"
| "json_Marshal (JString s) = quote_string s"
| "json_Marshal (JArray vs) = ''['' @ marshal_elements vs @ '']''"
| "json_Marshal (JObject ms) = ''{'' @ marshal_members ms @ ''}''"
| "marshal_elements [] = []"
| "marshal_elements [v] = json_Marshal v"
| "marshal_elements (v # w # vs) = json_Marshal v @ '','' @ marshal_elements (w # vs)"
| "marshal_members [] = []"
| "marshal_members [(k, v)] = quote_string k @ '':'' @ json_Marshal v"
| "marshal_members ((k, v) # m # ms) = quote_string k @ '':'' @ json_Marshal v @ '','' @ marshal_members (m # ms)"

text \<open>The values that a text can stand for: nested at most \<open>d\<close> deep, with valid UTF-8
  strings and well-formed number literals.\<close>

fun json_ok :: "nat \<Rightarrow> json \<Rightarrow> bool" where
  "json_ok d JNull = True"
| "json_ok d (JBool b) = True"
| "json_ok d (JNumber n) = (parse_number n = Some (n, []))"
| "json_ok d (JString s) = valid_utf8 s"
| "json_ok d (JArray vs) = (0 < d \<and> list_all (json_ok (d - 1)) vs)"
| "json_ok d (JObject ms) = (0 < d \<and> list_all (\<lambda>m. valid_utf8 (fst m) \<and> json_ok (d - 1) (snd m)) ms)"

text \<open>The first character of a written value is no space and no closing bracket.\<close>

lemma json_Marshal_first:
  assumes "json_ok d v"
  obtains c t where "json_Marshal v = c # t" and "\<not> is_space c" and "c \<noteq> CHR '']''" and "c \<noteq> CHR ''}''"
proof (cases v)
  case (JNumber n)
  with assms have n: "parse_number n = Some (n, [])" by simp
  then obtain c t where "n = c # t" by (cases n) (auto simp: parse_number_def scan_integer_def)
  moreover from this n have "c = CHR ''-'' \<or> is_digit c" by (metis parse_number_first)
  then have "\<not> is_space c" and "c \<noteq> CHR '']''" and "c \<noteq> CHR ''}''" by (auto simp: is_space_def is_digit_def)
  ultimately show ?thesis using that JNumber by simp
next
  case (JBool b)
  then show ?thesis by (cases b) (auto simp: is_space_def intro: that)
qed (auto simp: is_space_def quote_string_def that split: if_splits)

lemma skip_space_first: "\<not> is_space c \<Longrightarrow> skip_space (c # t) = c # t"
  by (simp add: skip_space_def)

lemma skip_space_Marshal [simp]: "json_ok d v \<Longrightarrow> skip_space (json_Marshal v @ rest) = json_Marshal v @ rest"
  by (erule json_Marshal_first) (simp add: skip_space_first)

lemma skip_space_marks [simp]:
  "skip_space (CHR '','' # t) = CHR '','' # t" "skip_space (CHR '']'' # t) = CHR '']'' # t"
  "skip_space (CHR ''}'' # t) = CHR ''}'' # t" "skip_space (CHR '':'' # t) = CHR '':'' # t"
  "skip_space (CHR ''['' # t) = CHR ''['' # t" "skip_space (CHR ''{'' # t) = CHR ''{'' # t"
  "skip_space (CHR 0x22 # t) = CHR 0x22 # t" "skip_space [] = []"
  by (simp_all add: skip_space_def is_space_def)

lemma number_ends_marks [simp]:
  "number_ends []" "number_ends (CHR '','' # t)" "number_ends (CHR '']'' # t)" "number_ends (CHR ''}'' # t)"
  by (simp_all add: number_ends_def is_digit_def)

lemma parse_literal_number:
  assumes "parse_number n = Some (n, [])" and "number_ends rest"
  shows "parse_value (Suc m) d (n @ rest) = Some (JNumber n, rest)"
proof -
  obtain c t where n: "n = c # t" using assms by (cases n) (auto simp: parse_number_def scan_integer_def)
  with assms(1) have c: "c = CHR ''-'' \<or> is_digit c" by (metis parse_number_first)
  then have "\<not> is_space c" and "c \<noteq> CHR 0x22" and "c \<noteq> CHR ''[''" and "c \<noteq> CHR ''{''"
    and "c \<noteq> CHR ''n''" and "c \<noteq> CHR ''t''" and "c \<noteq> CHR ''f''"
    by (auto simp: is_space_def is_digit_def)
  moreover have "parse_number (c # t @ rest) = Some (n, rest)"
    using parse_number_app [OF assms(2,1)] n by simp
  ultimately show ?thesis by (simp add: n skip_space_first parse_literal_def)
qed

lemma parse_written:
  shows parse_Marshal: "json_ok d v \<Longrightarrow> number_ends rest \<Longrightarrow> 2 * length (json_Marshal v @ rest) \<le> n \<Longrightarrow>
      parse_value n d (json_Marshal v @ rest) = Some (v, rest)"
    and parse_marshal_elements: "vs \<noteq> [] \<Longrightarrow> list_all (json_ok d) vs \<Longrightarrow>
      2 * length (marshal_elements vs @ CHR '']'' # rest) < n \<Longrightarrow>
      parse_elements n d (marshal_elements vs @ CHR '']'' # rest) = Some (vs, rest)"
    and parse_marshal_members: "ms \<noteq> [] \<Longrightarrow> list_all (\<lambda>m. valid_utf8 (fst m) \<and> json_ok d (snd m)) ms \<Longrightarrow>
      2 * length (marshal_members ms @ CHR ''}'' # rest) < n \<Longrightarrow>
      parse_members n d (marshal_members ms @ CHR ''}'' # rest) = Some (ms, rest)"
proof (induction v and vs and ms arbitrary: d rest n and d rest n and d rest n
    rule: json_Marshal_marshal_elements_marshal_members.induct)
  case 1
  then show ?case by (cases n) (simp_all add: skip_space_def is_space_def parse_literal_def)
next
  case (2 b)
  then show ?case by (cases n; cases b) (simp_all add: skip_space_def is_space_def parse_literal_def)
next
  case (3 lit)
  then have "lit \<noteq> []" by (auto simp: parse_number_def scan_integer_def)
  with 3 show ?case by (cases n) (simp_all add: parse_literal_number del: parse_value.simps)
next
  case (4 s)
  then show ?case by (cases n) (simp_all add: quote_string_def parse_string_escape)
next
  case (5 vs)
  obtain m where n: "n = Suc m" using 5(4) by (cases n) simp_all
  show ?case
  proof (cases vs)
    case Nil
    with 5 n show ?thesis by simp
  next
    case (Cons v ws)
    have "json_ok (d - 1) v" using 5(2) Cons by simp
    then obtain c t where "json_Marshal v = c # t" "\<not> is_space c" "c \<noteq> CHR '']''"
      by (rule json_Marshal_first)
    then obtain t' where first: "marshal_elements vs = c # t'" using Cons by (cases ws) auto
    have "parse_elements m (d - 1) (marshal_elements vs @ CHR '']'' # rest) = Some (vs, rest)"
      using 5(1) [of "d - 1" rest m] 5(2,4) Cons n by simp
    with first \<open>\<not> is_space c\<close> \<open>c \<noteq> CHR '']''\<close> 5(2) n show ?thesis by (simp add: skip_space_first)
  qed
next
  case (6 ms)
  obtain m where n: "n = Suc m" using 6(4) by (cases n) simp_all
  show ?case
  proof (cases ms)
    case Nil
    with 6 n show ?thesis by simp
  next
    case (Cons kv ws)
    obtain t' where first: "marshal_members ms = CHR 0x22 # t'"
      using Cons by (cases kv; cases ws) (auto simp: quote_string_def)
    have "parse_members m (d - 1) (marshal_members ms @ CHR ''}'' # rest) = Some (ms, rest)"
      using 6(1) [of "d - 1" rest m] 6(2,4) Cons n by simp
    with first 6(2) n show ?thesis by simp
  qed
next
  case (8 v)
  obtain m where n: "n = Suc m" using 8(4) by (cases n) simp_all
  with 8(1) [of d "CHR '']'' # rest" m] 8(3,4) show ?case by simp
next
  case (9 v w vs)
  obtain m where n: "n = Suc m" using 9(5) by (cases n) simp_all
  have "parse_value m d (json_Marshal v @ CHR '','' # marshal_elements (w # vs) @ CHR '']'' # rest) =
      Some (v, CHR '','' # marshal_elements (w # vs) @ CHR '']'' # rest)"
    using 9(1) [of d "CHR '','' # marshal_elements (w # vs) @ CHR '']'' # rest" m] 9(4,5) n by simp
  moreover have "parse_elements m d (marshal_elements (w # vs) @ CHR '']'' # rest) = Some (w # vs, rest)"
    using 9(2) [of d rest m] 9(4,5) n by simp
  ultimately show ?case using n by simp
next
  case (11 k v)
  obtain m where n: "n = Suc m" using 11(4) by (cases n) simp_all
  with 11(1) [of d "CHR ''}'' # rest" m] 11(3,4) show ?case
    by (simp add: quote_string_def parse_string_escape)
next
  case (12 k v m' ms)
  obtain m where n: "n = Suc m" using 12(5) by (cases n) simp_all
  have "parse_value m d (json_Marshal v @ CHR '','' # marshal_members (m' # ms) @ CHR ''}'' # rest) =
      Some (v, CHR '','' # marshal_members (m' # ms) @ CHR ''}'' # rest)"
    using 12(1) [of d "CHR '','' # marshal_members (m' # ms) @ CHR ''}'' # rest" m] 12(4,5) n
    by (simp add: quote_string_def)
  moreover have "parse_members m d (marshal_members (m' # ms) @ CHR ''}'' # rest) = Some (m' # ms, rest)"
    using 12(2) [of d rest m] 12(4,5) n by (simp add: quote_string_def)
  ultimately show ?case using n 12(4) by (simp add: quote_string_def parse_string_escape)
qed simp_all

lemma json_Parse_Marshal: "json_ok maxNestingDepth v \<Longrightarrow> json_Parse (json_Marshal v) = Some v"
  using parse_Marshal [of maxNestingDepth v "[]" "2 * length (json_Marshal v) + 2"]
  by (simp add: json_Parse_def)


section \<open>Integers\<close>

text \<open>\<open>strconv.AppendInt\<close> in base ten.\<close>

fun nat_literal :: "nat \<Rightarrow> string" where
  "nat_literal n =
     (if n < 10 then [char_of (48 + n)] else nat_literal (n div 10) @ [char_of (48 + n mod 10)])"

declare nat_literal.simps [simp del]

definition int_literal :: "int \<Rightarrow> string" where
  "int_literal i = (if i < 0 then CHR ''-'' # nat_literal (nat (- i)) else nat_literal (nat i))"

lemma is_digit_char_of: "(n::nat) < 10 \<Longrightarrow> is_digit (char_of (48 + n))"
  by (simp add: is_digit_def)

lemma nat_literal_digits: "nat_literal n \<noteq> [] \<and> list_all is_digit (nat_literal n)"
proof (induction n rule: nat_literal.induct)
  case (1 n)
  then show ?case by (subst (1 2) nat_literal.simps) (simp add: is_digit_char_of)
qed

lemma digits_value_snoc: "digits_value (s @ [c]) = 10 * digits_value s + digit_value c"
  by (simp add: digits_value_def)

lemma digit_value_char_of: "(n::nat) < 10 \<Longrightarrow> digit_value (char_of (48 + n)) = int n"
proof -
  assume "n < 10"
  then have "(of_char (char_of (48 + n) :: char) :: nat) = 48 + n" by simp
  then have "(of_char (char_of (48 + n) :: char) :: int) = 48 + int n"
    by (metis of_nat_add of_nat_numeral of_nat_of_char)
  then show ?thesis by (simp add: digit_value_def)
qed

lemma digits_value_nat_literal: "digits_value (nat_literal n) = int n"
proof (induction n rule: nat_literal.induct)
  case (1 n)
  show ?case
  proof (cases "n < 10")
    case True
    then show ?thesis
      using digits_value_snoc [of "[]"] by (simp add: nat_literal.simps [of n] digit_value_char_of digits_value_def)
  next
    case False
    then have "digits_value (nat_literal n) = 10 * int (n div 10) + int (n mod 10)"
      using 1 by (simp add: nat_literal.simps [of n] digits_value_snoc digit_value_char_of)
    then show ?thesis by (simp add: zdiv_int zmod_int)
  qed
qed

lemma ParseInt_digits:
  assumes "s \<noteq> []" and "list_all is_digit s"
  shows "strconv_ParseInt s = Some (digits_value s)"
proof -
  obtain c t where s: "s = c # t" using assms(1) by (cases s) auto
  with assms(2) have "c \<noteq> CHR ''-''" and "c \<noteq> CHR ''+''" by (auto simp: is_digit_def)
  with assms s show ?thesis by (simp add: strconv_ParseInt_def)
qed

lemma ParseInt_int_literal [simp]: "strconv_ParseInt (int_literal i) = Some i"
proof (cases "i < 0")
  case True
  then show ?thesis
    using nat_literal_digits [of "nat (- i)"]
    by (simp add: int_literal_def strconv_ParseInt_def digits_value_nat_literal)
next
  case False
  then show ?thesis
    using nat_literal_digits [of "nat i"] by (simp add: int_literal_def ParseInt_digits digits_value_nat_literal)
qed

text \<open>The literal has no leading zero, so it is a JSON number.\<close>

lemma nat_literal_first: "nat_literal n = CHR ''0'' # t \<Longrightarrow> t = []"
proof (induction n arbitrary: t rule: nat_literal.induct)
  case (1 n)
  show ?case
  proof (cases "n < 10")
    case False
    obtain c u where cu: "nat_literal (n div 10) = c # u"
      using nat_literal_digits [of "n div 10"] by (cases "nat_literal (n div 10)") auto
    with 1(2) False have c: "c = CHR ''0''" by (simp add: nat_literal.simps [of n])
    with 1(1) [OF False] cu have "nat_literal (n div 10) = ''0''" by simp
    then have "int (n div 10) = 0"
      using digits_value_nat_literal [of "n div 10"] by (simp add: digits_value_def digit_value_def)
    with False show ?thesis by (simp add: div_eq_0_iff)
  qed (use 1(2) in \<open>simp add: nat_literal.simps [of n]\<close>)
qed

lemma scan_nat_literal: "scan_integer (nat_literal n) = Some (nat_literal n, [])"
proof -
  obtain c u where cu: "nat_literal n = c # u"
    using nat_literal_digits [of n] by (cases "nat_literal n") auto
  have "\<forall>x \<in> set (nat_literal n). is_digit x"
    using nat_literal_digits [of n] by (simp add: list_all_iff)
  then have "takeWhile is_digit (c # u) = c # u" and "dropWhile is_digit (c # u) = []"
    using cu by (simp_all add: takeWhile_eq_all_conv dropWhile_eq_Nil_conv)
  moreover have "is_digit c" using nat_literal_digits [of n] cu by simp
  moreover have "c = CHR ''0'' \<Longrightarrow> u = []" using nat_literal_first [of n u] cu by simp
  ultimately show ?thesis using cu by (auto simp: scan_integer_def)
qed

lemma parse_int_literal [simp]: "parse_number (int_literal i) = Some (int_literal i, [])"
proof -
  have "nat_literal n \<noteq> CHR ''-'' # t" for n t
    using nat_literal_digits [of n] by (auto simp: is_digit_def)
  then have "(case nat_literal n of c # t \<Rightarrow> if c = CHR ''-'' then ([c], t) else ([], nat_literal n)
      | [] \<Rightarrow> ([], nat_literal n)) = ([], nat_literal n)" for n
    by (auto split: list.split)
  then show ?thesis
    by (simp add: parse_number_def int_literal_def scan_nat_literal scan_fraction_def scan_exponent_def)
qed


section \<open>Decoding into a struct\<close>

text \<open>
  A struct type is the list of its field names, as the tags give them, each with the way a
  value is stored in it. A key selects the field of exactly that name and otherwise the
  first field whose name it equals up to case; other keys are ignored. A value of the wrong
  kind is reported at the end, and the other fields are filled all the same. \<open>null\<close> leaves
  a field as it is. The result is the struct and whether \<open>err == nil\<close>.
\<close>

type_synonym 'r struct_type = "(string \<times> (json \<Rightarrow> 'r \<Rightarrow> 'r \<times> bool)) list"

text \<open>
  \<open>foldName\<close> on the keys that can match an ASCII name: letters become capitals, and the two
  letters outside ASCII that fold to one, the long s and the Kelvin sign, do too.
\<close>

definition upper_byte :: "char \<Rightarrow> char" where
  "upper_byte c = (if byte_in 97 122 c then char_of (byte c - 32) else c)"

function foldName :: "string \<Rightarrow> string" where
  "foldName s =
     (case s of
        [] \<Rightarrow> []
      | c # t \<Rightarrow>
          if prefix (map char_of [0xC5::nat, 0xBF]) s then CHR ''S'' # foldName (drop 1 t)
          else if prefix (map char_of [0xE2::nat, 0x84, 0xAA]) s then CHR ''K'' # foldName (drop 2 t)
          else upper_byte c # foldName t)"
  by pat_completeness auto
termination by (relation "measure length") auto

declare foldName.simps [simp del]

definition find_field :: "'r struct_type \<Rightarrow> string \<Rightarrow> (json \<Rightarrow> 'r \<Rightarrow> 'r \<times> bool) option" where
  "find_field fields key =
     (case map_of fields key of
        Some f \<Rightarrow> Some f
      | None \<Rightarrow> map_of (map (\<lambda>(name, f). (foldName name, f)) fields) (foldName key))"

fun decode_members :: "'r struct_type \<Rightarrow> (string \<times> json) list \<Rightarrow> 'r \<Rightarrow> 'r \<times> bool" where
  "decode_members fields [] r = (r, True)"
| "decode_members fields ((key, v) # ms) r =
     (case find_field fields key of
        None \<Rightarrow> decode_members fields ms r
      | Some f \<Rightarrow>
          let (r, ok) = f v r;
              (r, oks) = decode_members fields ms r
          in (r, ok \<and> oks))"

fun decode_struct :: "'r struct_type \<Rightarrow> json \<Rightarrow> 'r \<Rightarrow> 'r \<times> bool" where
  "decode_struct fields JNull r = (r, True)"
| "decode_struct fields (JObject ms) r = decode_members fields ms r"
| "decode_struct fields v r = (r, False)"

text \<open>\<open>json.Unmarshal\<close>: nothing is stored when the text is not well formed.\<close>

definition json_Unmarshal :: "'r struct_type \<Rightarrow> string \<Rightarrow> 'r \<Rightarrow> 'r \<times> bool" where
  "json_Unmarshal fields text r =
     (case json_Parse text of None \<Rightarrow> (r, False) | Some v \<Rightarrow> decode_struct fields v r)"

text \<open>The kinds of fields. Each takes the update function of the record field.\<close>

definition string_field :: "((string \<Rightarrow> string) \<Rightarrow> 'r \<Rightarrow> 'r) \<Rightarrow> json \<Rightarrow> 'r \<Rightarrow> 'r \<times> bool" where
  "string_field upd v r =
     (case v of JString s \<Rightarrow> (upd (\<lambda>_. s) r, True) | JNull \<Rightarrow> (r, True) | _ \<Rightarrow> (r, False))"

definition int_field :: "((int \<Rightarrow> int) \<Rightarrow> 'r \<Rightarrow> 'r) \<Rightarrow> json \<Rightarrow> 'r \<Rightarrow> 'r \<times> bool" where
  "int_field upd v r =
     (case v of
        JNumber lit \<Rightarrow>
          (case strconv_ParseInt lit of
             Some n \<Rightarrow> if int64 n then (upd (\<lambda>_. n) r, True) else (r, False)
           | None \<Rightarrow> (r, False))
      | JNull \<Rightarrow> (r, True)
      | _ \<Rightarrow> (r, False))"

definition bool_field :: "((bool \<Rightarrow> bool) \<Rightarrow> 'r \<Rightarrow> 'r) \<Rightarrow> json \<Rightarrow> 'r \<Rightarrow> 'r \<times> bool" where
  "bool_field upd v r =
     (case v of JBool b \<Rightarrow> (upd (\<lambda>_. b) r, True) | JNull \<Rightarrow> (r, True) | _ \<Rightarrow> (r, False))"

text \<open>A slice of strings: an array whose elements are strings or null.\<close>

definition strings_field :: "((string list \<Rightarrow> string list) \<Rightarrow> 'r \<Rightarrow> 'r) \<Rightarrow> json \<Rightarrow> 'r \<Rightarrow> 'r \<times> bool" where
  "strings_field upd v r =
     (case v of
        JArray vs \<Rightarrow>
          (upd (\<lambda>_. map (\<lambda>w. case w of JString s \<Rightarrow> s | _ \<Rightarrow> []) vs) r,
           list_all (\<lambda>w. case w of JString s \<Rightarrow> True | JNull \<Rightarrow> True | _ \<Rightarrow> False) vs)
      | JNull \<Rightarrow> (upd (\<lambda>_. []) r, True)
      | _ \<Rightarrow> (r, False))"

text \<open>
  A \<open>json.RawMessage\<close> keeps the text of the value, \<open>null\<close> included, to be decoded later.
  That text stands for the value it was read from, so the value is kept here, and
  \<^term>\<open>None\<close> is the nil slice of an absent key, which is no JSON text.
\<close>

definition raw_field :: "((json option \<Rightarrow> json option) \<Rightarrow> 'r \<Rightarrow> 'r) \<Rightarrow> json \<Rightarrow> 'r \<Rightarrow> 'r \<times> bool" where
  "raw_field upd v r = (upd (\<lambda>_. Some v) r, True)"

definition raw_Unmarshal :: "'r struct_type \<Rightarrow> json option \<Rightarrow> 'r \<Rightarrow> 'r \<times> bool" where
  "raw_Unmarshal fields raw r =
     (case raw of None \<Rightarrow> (r, False) | Some v \<Rightarrow> decode_struct fields v r)"

lemmas field_defs = string_field_def int_field_def bool_field_def strings_field_def raw_field_def

lemma find_field_exact: "map_of fields key = Some f \<Longrightarrow> find_field fields key = Some f"
  by (simp add: find_field_def)

text \<open>Reading a text that was written decodes the value it was written from.\<close>

lemma Unmarshal_Marshal:
  "json_ok maxNestingDepth v \<Longrightarrow> json_Unmarshal fields (json_Marshal v) r = decode_struct fields v r"
  by (simp add: json_Unmarshal_def json_Parse_Marshal)


section \<open>Written texts have no control characters\<close>

definition plain :: "string \<Rightarrow> bool" where
  "plain s \<longleftrightarrow> (\<forall>c \<in> set s. 0x20 \<le> byte c)"

lemma plain_simps [simp]:
  "plain []" "plain (c # s) \<longleftrightarrow> 0x20 \<le> byte c \<and> plain s" "plain (s @ t) \<longleftrightarrow> plain s \<and> plain t"
  by (auto simp: plain_def)

lemma plain_hex_digit: "n < 16 \<Longrightarrow> 0x20 \<le> byte (hex_digit n)"
  by (auto simp: hex_digit_def)

lemma plain_escape_byte: "byte c < 0x80 \<Longrightarrow> plain (escape_byte c)"
  by (simp add: escape_byte_def plain_hex_digit less_mult_imp_div_less)

lemma plain_rune:
  assumes "rune_width s = Some n"
  shows "plain (take n s)"
  using assms by (cases s rule: rune_width.cases) (auto dest!: rune_bytes split: if_splits)

lemma plain_escape_rune: "rune_width s = Some n \<Longrightarrow> plain (escape_rune (take n s))"
  by (simp add: escape_rune_def plain_rune)

lemma plain_escape: "plain (escape s)"
proof (induction s rule: escape.induct)
  case (1 s)
  show ?case
  proof (cases s)
    case Nil
    then show ?thesis by (simp add: escape.simps)
  next
    case (Cons c t)
    with 1 show ?thesis
      by (subst escape.simps) (auto simp: plain_escape_byte plain_escape_rune split: option.split)
  qed
qed

lemma plain_digits: "plain (takeWhile is_digit s)"
  by (auto simp: plain_def is_digit_def dest!: set_takeWhileD)

lemma plain_number:
  assumes "parse_number s = Some (n, r)"
  shows "plain n"
proof -
  have i: "plain x" if "scan_integer y = Some (x, z)" for x y z
    using that plain_digits [of y] by (auto simp: scan_integer_def split: list.splits if_splits)
  have f: "plain x" if "scan_fraction y = Some (x, z)" for x y z
    using that plain_digits by (auto simp: scan_fraction_def Let_def split: list.splits if_splits)
  have e: "plain x" if "scan_exponent y = Some (x, z)" for x y z
    using that plain_digits
    by (auto simp: scan_exponent_def Let_def is_digit_def split: list.splits if_splits)
  show ?thesis
    using assms by (auto simp: parse_number_def Let_def split: list.splits if_splits option.splits)
      (metis i f e)+
qed

lemma plain_Marshal:
  shows "json_ok d v \<Longrightarrow> plain (json_Marshal v)"
    and "list_all (json_ok d) vs \<Longrightarrow> plain (marshal_elements vs)"
    and "list_all (\<lambda>m. valid_utf8 (fst m) \<and> json_ok d (snd m)) ms \<Longrightarrow> plain (marshal_members ms)"
proof (induction v and vs and ms arbitrary: d and d and d
    rule: json_Marshal_marshal_elements_marshal_members.induct)
  case (3 lit)
  then show ?case by (auto dest: plain_number)
next
  case (5 vs)
  then show ?case by auto
next
  case (6 ms)
  then show ?case by auto
qed (auto simp: quote_string_def plain_escape)

end
