(* ===== verification/Uds_Codec.thy ===== *)
theory Uds_Codec
  imports Json Model "HOL-Library.Word"
begin

text \<open>
  The messages and the two codecs of \<open>internal/uds/codec.go\<close>. The JSON codec sends one
  JSON text per line, the other puts the length of the text in front of it, in four bytes,
  the lowest first. A connection delivers its bytes in chunks, as the operating system hands
  them out, and the theory tells apart what depends on the chunks and what does not.
\<close>

unbundle bit_operations_syntax

section \<open>Messages\<close>

type_synonym Format = string

definition FormatJSON :: Format where
  "FormatJSON = ''json''"

definition FormatProtobuf :: Format where
  "FormatProtobuf = ''protobuf''"

record HandshakeRequest =
  hs_Version :: string
  hs_Format :: string
  hs_SupportedVersions :: "string list"

record HandshakeResponse =
  hr_Status :: string
  hr_Version :: string
  hr_Format :: string
  hr_ErrorMessage :: string

record JSONRequest =
  jq_Action :: string
  jq_Payload :: "json option"
  jq_RequestID :: string

record AuthPayload =
  ap_Username :: string
  ap_Password :: string

record AuthResponsePayload =
  ar_UserID :: string
  ar_Username :: string
  ar_Email :: string
  ar_DisplayName :: string

record GetUserPayload =
  gu_UserID :: string
  gu_Username :: string

record OrgInfo =
  oi_OrgID :: string
  oi_OrgName :: string
  oi_Role :: string

record GetUserResponsePayload =
  gr_UserID :: string
  gr_Username :: string
  gr_Email :: string
  gr_DisplayName :: string
  gr_Organizations :: "OrgInfo list"

record TriggerSyncPayload =
  ts_SourceSystem :: string
  ts_SyncType :: string

record TriggerSyncResponsePayload =
  tr_JobID :: string
  tr_EstimatedDuration :: string
  tr_Message :: string

record CreateOrgPayload =
  cop_Name :: string
  cop_ParentID :: string

record GetOrgPayload =
  gop_OrgID :: string

record ListOrgsPayload =
  lop_Offset :: int
  lop_Limit :: int

record OrgDetailInfo =
  odi_OrgID :: string
  odi_Name :: string
  odi_ParentID :: string
  odi_Path :: string
  odi_Role :: string

record ListOrgsResponsePayload =
  lor_Items :: "OrgDetailInfo list"
  lor_Total :: int

record AddOrgMemberPayload =
  aom_OrgID :: string
  aom_UserID :: string
  aom_Role :: string

record RemoveOrgMemberPayload =
  rom_OrgID :: string
  rom_UserID :: string

record ListOrgMembersPayload =
  lom_OrgID :: string

record OrgMemberInfo =
  omi_UserID :: string
  omi_Username :: string
  omi_DisplayName :: string
  omi_Role :: string

record ListOrgMembersResponsePayload =
  lomr_Items :: "OrgMemberInfo list"
  lomr_Total :: int

record GetUserOrgsPayload =
  guo_UserID :: string

record CreateGroupPayload =
  cgp_Name :: string
  cgp_Description :: string
  cgp_Type :: string

record GetGroupPayload =
  ggp_GroupID :: string

record ListGroupsPayload =
  lgp_Offset :: int
  lgp_Limit :: int

record GroupDetailInfo =
  gdi_GroupID :: string
  gdi_Name :: string
  gdi_Description :: string
  gdi_Type :: string
  gdi_Role :: string

record ListGroupsResponsePayload =
  lgr_Items :: "GroupDetailInfo list"
  lgr_Total :: int

record AddGroupMemberPayload =
  agm_GroupID :: string
  agm_UserID :: string
  agm_Role :: string

record RemoveGroupMemberPayload =
  rgm_GroupID :: string
  rgm_UserID :: string

record ListGroupMembersPayload =
  lgm_GroupID :: string

record GroupMemberInfo =
  gmi_UserID :: string
  gmi_Username :: string
  gmi_DisplayName :: string
  gmi_Role :: string

record ListGroupMembersResponsePayload =
  lgmr_Items :: "GroupMemberInfo list"
  lgmr_Total :: int

record GetUserGroupsPayload =
  gug_UserID :: string

text \<open>
  The field \<open>Payload\<close> of a response has an interface type; these are the types the
  handlers store in it, the last one the map with the single key \<open>message\<close>.
\<close>

datatype response_payload =
    AuthResponse AuthResponsePayload
  | GetUserResponse GetUserResponsePayload
  | TriggerSyncResponse TriggerSyncResponsePayload
  | OrgDetail OrgDetailInfo
  | ListOrgsResponse ListOrgsResponsePayload
  | ListOrgMembersResponse ListOrgMembersResponsePayload
  | GroupDetail GroupDetailInfo
  | ListGroupsResponse ListGroupsResponsePayload
  | ListGroupMembersResponse ListGroupMembersResponsePayload
  | MessageMap string

record JSONResponse =
  jp_Status :: string
  jp_Payload :: "response_payload option"
  jp_RequestID :: string
  jp_Error :: string


section \<open>Reading messages: the struct types\<close>

definition HandshakeRequest_fields :: "HandshakeRequest struct_type" where
  "HandshakeRequest_fields =
     [(''version'', string_field hs_Version_update), (''format'', string_field hs_Format_update),
      (''supported_versions'', strings_field hs_SupportedVersions_update)]"

definition JSONRequest_fields :: "JSONRequest struct_type" where
  "JSONRequest_fields =
     [(''action'', string_field jq_Action_update), (''payload'', raw_field jq_Payload_update),
      (''request_id'', string_field jq_RequestID_update)]"

definition AuthPayload_fields :: "AuthPayload struct_type" where
  "AuthPayload_fields =
     [(''username'', string_field ap_Username_update), (''password'', string_field ap_Password_update)]"

definition GetUserPayload_fields :: "GetUserPayload struct_type" where
  "GetUserPayload_fields =
     [(''user_id'', string_field gu_UserID_update), (''username'', string_field gu_Username_update)]"

definition TriggerSyncPayload_fields :: "TriggerSyncPayload struct_type" where
  "TriggerSyncPayload_fields =
     [(''source_system'', string_field ts_SourceSystem_update), (''sync_type'', string_field ts_SyncType_update)]"

definition CreateOrgPayload_fields :: "CreateOrgPayload struct_type" where
  "CreateOrgPayload_fields =
     [(''name'', string_field cop_Name_update), (''parent_id'', string_field cop_ParentID_update)]"

definition GetOrgPayload_fields :: "GetOrgPayload struct_type" where
  "GetOrgPayload_fields = [(''org_id'', string_field gop_OrgID_update)]"

definition ListOrgsPayload_fields :: "ListOrgsPayload struct_type" where
  "ListOrgsPayload_fields =
     [(''offset'', int_field lop_Offset_update), (''limit'', int_field lop_Limit_update)]"

definition AddOrgMemberPayload_fields :: "AddOrgMemberPayload struct_type" where
  "AddOrgMemberPayload_fields =
     [(''org_id'', string_field aom_OrgID_update), (''user_id'', string_field aom_UserID_update),
      (''role'', string_field aom_Role_update)]"

definition RemoveOrgMemberPayload_fields :: "RemoveOrgMemberPayload struct_type" where
  "RemoveOrgMemberPayload_fields =
     [(''org_id'', string_field rom_OrgID_update), (''user_id'', string_field rom_UserID_update)]"

definition ListOrgMembersPayload_fields :: "ListOrgMembersPayload struct_type" where
  "ListOrgMembersPayload_fields = [(''org_id'', string_field lom_OrgID_update)]"

definition GetUserOrgsPayload_fields :: "GetUserOrgsPayload struct_type" where
  "GetUserOrgsPayload_fields = [(''user_id'', string_field guo_UserID_update)]"

definition CreateGroupPayload_fields :: "CreateGroupPayload struct_type" where
  "CreateGroupPayload_fields =
     [(''name'', string_field cgp_Name_update), (''description'', string_field cgp_Description_update),
      (''type'', string_field cgp_Type_update)]"

definition GetGroupPayload_fields :: "GetGroupPayload struct_type" where
  "GetGroupPayload_fields = [(''group_id'', string_field ggp_GroupID_update)]"

definition ListGroupsPayload_fields :: "ListGroupsPayload struct_type" where
  "ListGroupsPayload_fields =
     [(''offset'', int_field lgp_Offset_update), (''limit'', int_field lgp_Limit_update)]"

definition AddGroupMemberPayload_fields :: "AddGroupMemberPayload struct_type" where
  "AddGroupMemberPayload_fields =
     [(''group_id'', string_field agm_GroupID_update), (''user_id'', string_field agm_UserID_update),
      (''role'', string_field agm_Role_update)]"

definition RemoveGroupMemberPayload_fields :: "RemoveGroupMemberPayload struct_type" where
  "RemoveGroupMemberPayload_fields =
     [(''group_id'', string_field rgm_GroupID_update), (''user_id'', string_field rgm_UserID_update)]"

definition ListGroupMembersPayload_fields :: "ListGroupMembersPayload struct_type" where
  "ListGroupMembersPayload_fields = [(''group_id'', string_field lgm_GroupID_update)]"

definition GetUserGroupsPayload_fields :: "GetUserGroupsPayload struct_type" where
  "GetUserGroupsPayload_fields = [(''user_id'', string_field gug_UserID_update)]"

lemmas payload_fields =
  HandshakeRequest_fields_def JSONRequest_fields_def AuthPayload_fields_def GetUserPayload_fields_def
  TriggerSyncPayload_fields_def CreateOrgPayload_fields_def GetOrgPayload_fields_def
  ListOrgsPayload_fields_def AddOrgMemberPayload_fields_def RemoveOrgMemberPayload_fields_def
  ListOrgMembersPayload_fields_def GetUserOrgsPayload_fields_def CreateGroupPayload_fields_def
  GetGroupPayload_fields_def ListGroupsPayload_fields_def AddGroupMemberPayload_fields_def
  RemoveGroupMemberPayload_fields_def ListGroupMembersPayload_fields_def GetUserGroupsPayload_fields_def


section \<open>Writing messages\<close>

text \<open>A field with the option \<open>omitempty\<close> is left out when it is the empty string.\<close>

definition omitempty :: "string \<Rightarrow> string \<Rightarrow> (string \<times> json) list" where
  "omitempty name s = (if s = [] then [] else [(name, JString s)])"

definition HandshakeRequest_json :: "HandshakeRequest \<Rightarrow> json" where
  "HandshakeRequest_json r = JObject
     ([(''version'', JString (hs_Version r)), (''format'', JString (hs_Format r))] @
      (if hs_SupportedVersions r = [] then []
       else [(''supported_versions'', JArray (map JString (hs_SupportedVersions r)))]))"

definition HandshakeResponse_json :: "HandshakeResponse \<Rightarrow> json" where
  "HandshakeResponse_json r = JObject
     ([(''status'', JString (hr_Status r)), (''version'', JString (hr_Version r)),
       (''format'', JString (hr_Format r))] @ omitempty ''error_message'' (hr_ErrorMessage r))"

definition OrgInfo_json :: "OrgInfo \<Rightarrow> json" where
  "OrgInfo_json r = JObject
     [(''org_id'', JString (oi_OrgID r)), (''org_name'', JString (oi_OrgName r)), (''role'', JString (oi_Role r))]"

definition OrgDetailInfo_json :: "OrgDetailInfo \<Rightarrow> json" where
  "OrgDetailInfo_json r = JObject
     ([(''org_id'', JString (odi_OrgID r)), (''name'', JString (odi_Name r))] @
      omitempty ''parent_id'' (odi_ParentID r) @ [(''path'', JString (odi_Path r))] @
      omitempty ''role'' (odi_Role r))"

definition OrgMemberInfo_json :: "OrgMemberInfo \<Rightarrow> json" where
  "OrgMemberInfo_json r = JObject
     [(''user_id'', JString (omi_UserID r)), (''username'', JString (omi_Username r)),
      (''display_name'', JString (omi_DisplayName r)), (''role'', JString (omi_Role r))]"

definition GroupDetailInfo_json :: "GroupDetailInfo \<Rightarrow> json" where
  "GroupDetailInfo_json r = JObject
     ([(''group_id'', JString (gdi_GroupID r)), (''name'', JString (gdi_Name r))] @
      omitempty ''description'' (gdi_Description r) @ omitempty ''type'' (gdi_Type r) @
      omitempty ''role'' (gdi_Role r))"

definition GroupMemberInfo_json :: "GroupMemberInfo \<Rightarrow> json" where
  "GroupMemberInfo_json r = JObject
     [(''user_id'', JString (gmi_UserID r)), (''username'', JString (gmi_Username r)),
      (''display_name'', JString (gmi_DisplayName r)), (''role'', JString (gmi_Role r))]"

definition page_json :: "json list \<Rightarrow> int \<Rightarrow> json" where
  "page_json items total_count =
     JObject [(''items'', JArray items), (''total'', JNumber (int_literal total_count))]"

fun response_payload_json :: "response_payload \<Rightarrow> json" where
  "response_payload_json (AuthResponse r) = JObject
     [(''user_id'', JString (ar_UserID r)), (''username'', JString (ar_Username r)),
      (''email'', JString (ar_Email r)), (''display_name'', JString (ar_DisplayName r))]"
| "response_payload_json (GetUserResponse r) = JObject
     [(''user_id'', JString (gr_UserID r)), (''username'', JString (gr_Username r)),
      (''email'', JString (gr_Email r)), (''display_name'', JString (gr_DisplayName r)),
      (''organizations'', JArray (map OrgInfo_json (gr_Organizations r)))]"
| "response_payload_json (TriggerSyncResponse r) = JObject
     [(''job_id'', JString (tr_JobID r)), (''estimated_duration'', JString (tr_EstimatedDuration r)),
      (''message'', JString (tr_Message r))]"
| "response_payload_json (OrgDetail r) = OrgDetailInfo_json r"
| "response_payload_json (ListOrgsResponse r) = page_json (map OrgDetailInfo_json (lor_Items r)) (lor_Total r)"
| "response_payload_json (ListOrgMembersResponse r) =
     page_json (map OrgMemberInfo_json (lomr_Items r)) (lomr_Total r)"
| "response_payload_json (GroupDetail r) = GroupDetailInfo_json r"
| "response_payload_json (ListGroupsResponse r) = page_json (map GroupDetailInfo_json (lgr_Items r)) (lgr_Total r)"
| "response_payload_json (ListGroupMembersResponse r) =
     page_json (map GroupMemberInfo_json (lgmr_Items r)) (lgmr_Total r)"
| "response_payload_json (MessageMap msg) = JObject [(''message'', JString msg)]"

definition JSONResponse_json :: "JSONResponse \<Rightarrow> json" where
  "JSONResponse_json r = JObject
     ([(''status'', JString (jp_Status r))] @
      (case jp_Payload r of None \<Rightarrow> [] | Some p \<Rightarrow> [(''payload'', response_payload_json p)]) @
      [(''request_id'', JString (jp_RequestID r))] @ omitempty ''error'' (jp_Error r))"


section \<open>Connections\<close>

text \<open>
  What a connection delivers: the chunks its reads return, and the error of every read
  after them (\<open>EOF\<close> when the peer has closed it, another error at a deadline). A read into
  a buffer that is too small for a chunk leaves the rest of it for the next read.
\<close>

type_synonym instream = "string list \<times> error"

definition pending :: "instream \<Rightarrow> string" where
  "pending st = concat (fst st)"

text \<open>\<open>io.ReadFull\<close>; \<open>started\<close> tells whether bytes were read before.\<close>

fun read_full :: "bool \<Rightarrow> nat \<Rightarrow> instream \<Rightarrow> string result \<times> instream" where
  "read_full started 0 st = (Inr [], st)"
| "read_full started n ([], e) = (Inl (if started \<and> e = EOF then ErrUnexpectedEOF else e), ([], e))"
| "read_full started n (c # cs, e) =
     (if length c \<le> n then
        (case read_full (started \<or> c \<noteq> []) (n - length c) (cs, e) of
           (Inl err, st) \<Rightarrow> (Inl err, st)
         | (Inr d, st) \<Rightarrow> (Inr (c @ d), st))
      else (Inr (take n c), (drop n c # cs, e)))"

abbreviation ReadFull :: "nat \<Rightarrow> instream \<Rightarrow> string result \<times> instream" where
  "ReadFull \<equiv> read_full False"

text \<open>Enough bytes: they are returned, in whatever chunks they come.\<close>

lemma read_full_ok:
  "n \<le> length (pending (cs, e)) \<Longrightarrow>
     \<exists>cs'. read_full b n (cs, e) = (Inr (take n (pending (cs, e))), (cs', e)) \<and>
           pending (cs', e) = drop n (pending (cs, e))"
proof (induction cs arbitrary: b n)
  case Nil
  then show ?case by (simp add: pending_def)
next
  case (Cons c cs)
  show ?case
  proof (cases n)
    case (Suc m)
    show ?thesis
    proof (cases "length c \<le> n")
      case True
      then have "n - length c \<le> length (pending (cs, e))" using Cons.prems by (simp add: pending_def)
      from Cons.IH [OF this, of "b \<or> c \<noteq> []"] obtain cs' where
        "read_full (b \<or> c \<noteq> []) (n - length c) (cs, e) = (Inr (take (n - length c) (pending (cs, e))), (cs', e))"
        "pending (cs', e) = drop (n - length c) (pending (cs, e))"
        by blast
      with True Suc show ?thesis by (simp add: pending_def)
    next
      case False
      with Suc show ?thesis by (simp add: pending_def)
    qed
  qed simp
qed

text \<open>Too few: an error, \<open>EOF\<close> only if nothing was read at all.\<close>

lemma read_full_short:
  "length (pending (cs, e)) < n \<Longrightarrow>
     fst (read_full b n (cs, e)) = Inl (if (b \<or> pending (cs, e) \<noteq> []) \<and> e = EOF then ErrUnexpectedEOF else e)"
proof (induction cs arbitrary: b n)
  case Nil
  then show ?case by (cases n) (simp_all add: pending_def)
next
  case (Cons c cs)
  then obtain m where n: "n = Suc m" by (cases n) auto
  have "length c \<le> n" and "length (pending (cs, e)) < n - length c"
    using Cons.prems by (auto simp: pending_def)
  with Cons.IH [OF this(2), of "b \<or> c \<noteq> []"] n show ?case
    by (auto simp: pending_def split: prod.split sum.split)
qed

text \<open>
  What is written goes to \<open>wr\<close>, the method \<open>Write\<close> of the connection, which may fail.
\<close>

type_synonym 'w Writer = "string \<Rightarrow> 'w \<Rightarrow> unit result \<times> 'w"

text \<open>A writer that never fails and keeps all bytes.\<close>

definition buffer_Write :: "string Writer" where
  "buffer_Write data w = (Inr (), w @ data)"


section \<open>Frames\<close>

definition MaxMessageSize :: nat where
  "MaxMessageSize = 1048576"

definition MaxJSONMessageSize :: nat where
  "MaxJSONMessageSize = 524288"

text \<open>\<open>binary.LittleEndian\<close>.\<close>

definition PutUint32 :: "32 word \<Rightarrow> string" where
  "PutUint32 v = [char_of (unat v), char_of (unat (drop_bit 8 v)), char_of (unat (drop_bit 16 v)),
     char_of (unat (drop_bit 24 v))]"

fun Uint32 :: "string \<Rightarrow> 32 word" where
  "Uint32 (a # b # c # d # _) =
     of_char a OR push_bit 8 (of_char b) OR push_bit 16 (of_char c) OR push_bit 24 (of_char d)"
| "Uint32 _ = 0"

lemma length_PutUint32 [simp]: "length (PutUint32 v) = 4"
  by (simp add: PutUint32_def)

lemma of_char_char_of_word: "(of_char (char_of n) :: 32 word) = take_bit 8 (of_nat n)"
proof -
  have nat: "(of_char (char_of n :: char) :: nat) = take_bit 8 n" by (simp add: take_bit_eq_mod)
  have "(of_char (char_of n) :: 32 word) = of_nat (of_char (char_of n :: char))"
    by (rule of_nat_of_char [symmetric])
  also have "\<dots> = of_nat (take_bit 8 n)" by (simp only: nat)
  finally show ?thesis by (simp only: take_bit_of_nat)
qed

lemma Uint32_PutUint32: "Uint32 (PutUint32 v) = v"
proof (rule bit_word_eqI)
  fix n
  assume "n < LENGTH(32)"
  then show "bit (Uint32 (PutUint32 v)) n = bit v n"
    by (cases "n < 16"; cases "n < 24") (auto simp: PutUint32_def of_char_char_of_word bit_simps)
qed

definition readLengthPrefixed :: "instream \<Rightarrow> string result \<times> instream" where
  "readLengthPrefixed r =
     (case ReadFull 4 r of
        (Inl err, r) \<Rightarrow> (Inl err, r)
      | (Inr lenBuf, r) \<Rightarrow>
          let msgLen = Uint32 lenBuf
          in if msgLen > word_of_nat MaxMessageSize then (Inl (Errorf ''message too large''), r)
             else ReadFull (unat msgLen) r)"

definition writeLengthPrefixed :: "'w Writer \<Rightarrow> string \<Rightarrow> 'w \<Rightarrow> unit result \<times> 'w" where
  "writeLengthPrefixed wr data w =
     (case wr (PutUint32 (word_of_nat (length data))) w of
        (Inl err, w) \<Rightarrow> (Inl err, w)
      | (Inr _, w) \<Rightarrow> wr data w)"

definition frame :: "string \<Rightarrow> string" where
  "frame data = PutUint32 (word_of_nat (length data)) @ data"

lemma writeLengthPrefixed_buffer: "writeLengthPrefixed buffer_Write data w = (Inr (), w @ frame data)"
  by (simp add: writeLengthPrefixed_def buffer_Write_def frame_def)

lemma unat_length: "length data < 2 ^ 32 \<Longrightarrow> unat (word_of_nat (length data) :: 32 word) = length data"
  by (simp add: unat_of_nat)

lemma frame_too_large:
  "length data < 2 ^ 32 \<Longrightarrow>
     (word_of_nat (length data) :: 32 word) > word_of_nat MaxMessageSize \<longleftrightarrow> length data > MaxMessageSize"
  by (simp add: word_less_nat_alt unat_length MaxMessageSize_def)

lemma readLengthPrefixed_frame:
  assumes "pending (cs, e) = frame data @ rest" and "length data \<le> MaxMessageSize"
  shows "\<exists>cs'. readLengthPrefixed (cs, e) = (Inr data, (cs', e)) \<and> pending (cs', e) = rest"
proof -
  have len: "length data < 2 ^ 32" using assms(2) by (simp add: MaxMessageSize_def)
  have "4 \<le> length (pending (cs, e))" by (simp add: assms(1) frame_def)
  from read_full_ok [OF this, of False] obtain cs1 where
    head: "ReadFull 4 (cs, e) = (Inr (PutUint32 (word_of_nat (length data))), (cs1, e))"
    and body: "pending (cs1, e) = data @ rest"
    by (auto simp: assms(1) frame_def)
  have "length data \<le> length (pending (cs1, e))" by (simp add: body)
  from read_full_ok [OF this, of False] obtain cs2 where
    "ReadFull (length data) (cs1, e) = (Inr data, (cs2, e))" and "pending (cs2, e) = rest"
    by (auto simp: body)
  with head show ?thesis
    using frame_too_large [OF len] assms(2)
    by (simp add: readLengthPrefixed_def Uint32_PutUint32 Let_def unat_length [OF len])
qed

lemma readLengthPrefixed_too_large:
  assumes "pending (cs, e) = frame data @ rest" and "MaxMessageSize < length data" and "length data < 2 ^ 32"
  shows "fst (readLengthPrefixed (cs, e)) = Inl (Errorf ''message too large'')"
proof -
  have "4 \<le> length (pending (cs, e))" by (simp add: assms(1) frame_def)
  from read_full_ok [OF this, of False] obtain cs1 where
    "ReadFull 4 (cs, e) = (Inr (PutUint32 (word_of_nat (length data))), (cs1, e))"
    by (auto simp: assms(1) frame_def)
  then show ?thesis
    using frame_too_large [OF assms(3)] assms(2)
    by (simp add: readLengthPrefixed_def Uint32_PutUint32 Let_def)
qed


section \<open>Lines\<close>

definition newline :: char where
  "newline = CHR 0x0A"

text \<open>\<open>bufio.ScanLines\<close> drops one trailing carriage return.\<close>

definition dropCR :: "string \<Rightarrow> string" where
  "dropCR s = (if s \<noteq> [] \<and> last s = CHR 0x0D then butlast s else s)"

text \<open>
  The first call of \<open>Scan\<close> on a fresh \<open>bufio.Scanner\<close>: \<open>b\<close> is what its buffer of
  \<open>len\<close> bytes holds. While there is no line end in it, it reads on, doubling a full buffer
  up to \<open>limit\<close> bytes. When a read fails, what was read so far is the token, whatever the
  error, and without any the code reports the error of the read, \<open>EOF\<close> included. Bytes
  after the line end stay in the buffer, which is dropped with the scanner.
\<close>

function scan_loop :: "nat \<Rightarrow> nat \<Rightarrow> string \<Rightarrow> instream \<Rightarrow> string result \<times> instream" where
  "scan_loop limit len b (cs, e) =
     (if newline \<in> set b then (Inr (dropCR (takeWhile (\<lambda>c. c \<noteq> newline) b)), (cs, e))
      else
        let len = (if length b < len then len else min (if len = 0 then 4096 else 2 * len) limit)
        in if len \<le> length b then (Inl ErrTooLong, (cs, e))
           else case cs of
                  [] \<Rightarrow> (if b \<noteq> [] then Inr (dropCR b) else Inl e, ([], e))
                | c # cs \<Rightarrow>
                    if length c \<le> len - length b then scan_loop limit len (b @ c) (cs, e)
                    else scan_loop limit len (b @ take (len - length b) c) (drop (len - length b) c # cs, e))"
  by pat_completeness auto
termination
  by (relation "measure (\<lambda>(limit, len, b, cs, e). length (concat cs) + length cs)") auto

declare scan_loop.simps [simp del]

text \<open>The limit and the buffer that \<open>bufio.NewScanner\<close> starts with.\<close>

definition MaxScanTokenSize :: nat where
  "MaxScanTokenSize = 65536"

definition default_scan :: "instream \<Rightarrow> string result \<times> instream" where
  "default_scan r = scan_loop MaxScanTokenSize 0 [] r"

definition request_scan :: "instream \<Rightarrow> string result \<times> instream" where
  "request_scan r = scan_loop MaxJSONMessageSize MaxJSONMessageSize [] r"


section \<open>The codecs\<close>

definition zero_HandshakeRequest :: HandshakeRequest where
  "zero_HandshakeRequest = \<lparr>hs_Version = [], hs_Format = [], hs_SupportedVersions = []\<rparr>"

definition zero_JSONRequest :: JSONRequest where
  "zero_JSONRequest = \<lparr>jq_Action = [], jq_Payload = None, jq_RequestID = []\<rparr>"

definition decode_handshake :: "string \<Rightarrow> HandshakeRequest result" where
  "decode_handshake data =
     (case json_Unmarshal HandshakeRequest_fields data zero_HandshakeRequest of
        (req, ok) \<Rightarrow> if ok then Inr req else Inl ErrJSON)"

definition decode_request :: "string \<Rightarrow> JSONRequest result" where
  "decode_request data =
     (case json_Unmarshal JSONRequest_fields data zero_JSONRequest of
        (req, ok) \<Rightarrow> if ok then Inr req else Inl ErrJSON)"

definition JSONCodec_ReadHandshake :: "instream \<Rightarrow> HandshakeRequest result \<times> instream" where
  "JSONCodec_ReadHandshake r =
     (case default_scan r of
        (Inl err, r) \<Rightarrow> (Inl err, r)
      | (Inr line, r) \<Rightarrow> (decode_handshake line, r))"

definition JSONCodec_WriteHandshake :: "'w Writer \<Rightarrow> HandshakeResponse \<Rightarrow> 'w \<Rightarrow> unit result \<times> 'w" where
  "JSONCodec_WriteHandshake wr resp w = wr (json_Marshal (HandshakeResponse_json resp) @ [newline]) w"

definition JSONCodec_ReadRequest :: "instream \<Rightarrow> JSONRequest result \<times> instream" where
  "JSONCodec_ReadRequest r =
     (case request_scan r of
        (Inl err, r) \<Rightarrow> (Inl err, r)
      | (Inr line, r) \<Rightarrow>
          if length line > MaxJSONMessageSize then (Inl (Errorf ''message size exceeded limit''), r)
          else (decode_request line, r))"

definition JSONCodec_WriteResponse :: "'w Writer \<Rightarrow> JSONResponse \<Rightarrow> 'w \<Rightarrow> unit result \<times> 'w" where
  "JSONCodec_WriteResponse wr resp w = wr (json_Marshal (JSONResponse_json resp) @ [newline]) w"

definition ProtobufCodec_ReadHandshake :: "instream \<Rightarrow> HandshakeRequest result \<times> instream" where
  "ProtobufCodec_ReadHandshake r =
     (case readLengthPrefixed r of
        (Inl err, r) \<Rightarrow> (Inl err, r)
      | (Inr data, r) \<Rightarrow> (decode_handshake data, r))"

definition ProtobufCodec_WriteHandshake :: "'w Writer \<Rightarrow> HandshakeResponse \<Rightarrow> 'w \<Rightarrow> unit result \<times> 'w" where
  "ProtobufCodec_WriteHandshake wr resp w =
     writeLengthPrefixed wr (json_Marshal (HandshakeResponse_json resp)) w"

definition ProtobufCodec_ReadRequest :: "instream \<Rightarrow> JSONRequest result \<times> instream" where
  "ProtobufCodec_ReadRequest r =
     (case readLengthPrefixed r of
        (Inl err, r) \<Rightarrow> (Inl err, r)
      | (Inr data, r) \<Rightarrow>
          if length data > MaxMessageSize then (Inl (Errorf ''message size exceeded limit''), r)
          else (decode_request data, r))"

definition ProtobufCodec_WriteResponse :: "'w Writer \<Rightarrow> JSONResponse \<Rightarrow> 'w \<Rightarrow> unit result \<times> 'w" where
  "ProtobufCodec_WriteResponse wr resp w = writeLengthPrefixed wr (json_Marshal (JSONResponse_json resp)) w"

text \<open>The interface \<open>Codec\<close>: the two types that implement it, and its methods.\<close>

datatype Codec = JSONCodec | ProtobufCodec

fun ReadHandshake :: "Codec \<Rightarrow> instream \<Rightarrow> HandshakeRequest result \<times> instream" where
  "ReadHandshake JSONCodec = JSONCodec_ReadHandshake"
| "ReadHandshake ProtobufCodec = ProtobufCodec_ReadHandshake"

fun WriteHandshake :: "Codec \<Rightarrow> 'w Writer \<Rightarrow> HandshakeResponse \<Rightarrow> 'w \<Rightarrow> unit result \<times> 'w" where
  "WriteHandshake JSONCodec = JSONCodec_WriteHandshake"
| "WriteHandshake ProtobufCodec = ProtobufCodec_WriteHandshake"

fun ReadRequest :: "Codec \<Rightarrow> instream \<Rightarrow> JSONRequest result \<times> instream" where
  "ReadRequest JSONCodec = JSONCodec_ReadRequest"
| "ReadRequest ProtobufCodec = ProtobufCodec_ReadRequest"

fun WriteResponse :: "Codec \<Rightarrow> 'w Writer \<Rightarrow> JSONResponse \<Rightarrow> 'w \<Rightarrow> unit result \<times> 'w" where
  "WriteResponse JSONCodec = JSONCodec_WriteResponse"
| "WriteResponse ProtobufCodec = ProtobufCodec_WriteResponse"

definition NewCodec :: "Format \<Rightarrow> Codec" where
  "NewCodec format = (if format = FormatProtobuf then ProtobufCodec else JSONCodec)"


section \<open>What the scanner returns\<close>

lemma dropCR_length: "length (dropCR s) \<le> length s"
  by (simp add: dropCR_def)

lemma takeWhile_line: "newline \<notin> set line \<Longrightarrow> takeWhile (\<lambda>c. c \<noteq> newline) (line @ newline # t) = line"
  by (simp add: takeWhile_tail takeWhile_eq_all_conv) (metis (mono_tags, lifting) append_Nil2 takeWhile_append2 takeWhile.simps(2))

text \<open>A line that fits is returned, and if no chunk reaches beyond it, nothing is lost.\<close>

lemma scan_loop_line:
  assumes "b @ concat cs1 = line @ [newline]" and "newline \<notin> set line" and "newline \<notin> set b"
    and "cs1 \<noteq> []" and "[] \<notin> set cs1" and "length line < limit" and "length b \<le> len" and "len \<le> limit"
  shows "scan_loop limit len b (cs1 @ cs2, e) = (Inr (dropCR line), (cs2, e))"
  using assms
proof (induction "length (concat cs1) + length cs1" arbitrary: cs1 len b rule: less_induct)
  case less
  obtain c cs where cs1: "cs1 = c # cs" using less.prems(4) by (cases cs1) auto
  have c: "c \<noteq> []" using less.prems(5) cs1 by auto
  define len' where "len' = (if length b < len then len else min (if len = 0 then 4096 else 2 * len) limit)"
  have "length b < length (line @ [newline])"
    unfolding less.prems(1) [symmetric] using c cs1 by simp
  then have b: "length b < len'" and len': "len' \<le> limit"
    using less.prems(6-8) by (auto simp: len'_def)
  have unfold: "scan_loop limit len b (cs1 @ cs2, e) =
      (if length c \<le> len' - length b then scan_loop limit len' (b @ c) (cs @ cs2, e)
       else scan_loop limit len' (b @ take (len' - length b) c) (drop (len' - length b) c # cs @ cs2, e))"
    using less.prems(3) b by (subst scan_loop.simps) (simp add: cs1 len'_def Let_def)
  have pre: "newline \<notin> set x" if "x @ y = line @ [newline]" and "y \<noteq> []" for x y
  proof -
    from that have "x = take (length x) line" by (metis append_eq_append_conv_if append_eq_conv_conj
          butlast_append butlast_snoc)
    then show ?thesis using less.prems(2) by (metis in_set_takeD)
  qed
  show ?case
  proof (cases "length c \<le> len' - length b")
    case True
    show ?thesis
    proof (cases "cs = []")
      case True
      then have "b @ c = line @ [newline]" using less.prems(1) cs1 by simp
      then have "scan_loop limit len' (b @ c) (cs @ cs2, e) = (Inr (dropCR line), (cs2, e))"
        using True less.prems(2) by (simp add: scan_loop.simps takeWhile_line)
      with unfold \<open>length c \<le> len' - length b\<close> show ?thesis by simp
    next
      case False
      then have "concat cs \<noteq> []" using less.prems(5) cs1 by (cases cs) auto
      moreover have "(b @ c) @ concat cs = line @ [newline]" using less.prems(1) cs1 by simp
      ultimately have "newline \<notin> set (b @ c)" by (intro pre)
      with less.hyps [of cs "b @ c" len'] less.prems cs1 c False True b len'
        \<open>(b @ c) @ concat cs = line @ [newline]\<close>
      have "scan_loop limit len' (b @ c) (cs @ cs2, e) = (Inr (dropCR line), (cs2, e))" by auto
      with unfold True show ?thesis by simp
    qed
  next
    case False
    let ?r = "len' - length b"
    have parts: "(b @ take ?r c) @ concat (drop ?r c # cs) = line @ [newline]"
      by (metis append_assoc append_take_drop_id concat.simps(2) cs1 less.prems(1))
    have "drop ?r c \<noteq> []" using False by simp
    with parts have "newline \<notin> set (b @ take ?r c)" by (intro pre) auto
    with less.hyps [of "drop ?r c # cs" "b @ take ?r c" len'] less.prems cs1 False b len' parts \<open>drop ?r c \<noteq> []\<close>
    have "scan_loop limit len' (b @ take ?r c) ((drop ?r c # cs) @ cs2, e) = (Inr (dropCR line), (cs2, e))"
      by auto
    with unfold False show ?thesis by simp
  qed
qed

text \<open>A token is always shorter than the limit.\<close>

lemma scan_loop_bound:
  "scan_loop limit len b (cs, e) = (Inr line, r) \<Longrightarrow> len \<le> limit \<Longrightarrow> length b \<le> len \<Longrightarrow> length line < max 1 limit"
proof (induction limit len b "(cs, e)" arbitrary: cs rule: scan_loop.induct)
  case (1 limit len b cs)
  show ?case
  proof (cases "newline \<in> set b")
    case True
    obtain ys zs where "b = ys @ newline # zs" and "newline \<notin> set ys"
      using True by (meson split_list_first)
    then have "length (takeWhile (\<lambda>c. c \<noteq> newline) b) < length b" by (simp add: takeWhile_line)
    with 1 True dropCR_length [of "takeWhile (\<lambda>c. c \<noteq> newline) b"] show ?thesis
      by (auto simp: scan_loop.simps [of limit len b cs e])
  next
    case False
    define len' where "len' = (if length b < len then len else min (if len = 0 then 4096 else 2 * len) limit)"
    have len': "len' \<le> limit" using 1(4) by (simp add: len'_def)
    have b: "length b < len'"
      using 1(3) False by (subst (asm) scan_loop.simps) (auto simp: len'_def Let_def split: if_splits)
    show ?thesis
    proof (cases cs)
      case Nil
      with 1(3) False b have "line = dropCR b"
        by (subst (asm) scan_loop.simps) (auto simp: len'_def [symmetric] Let_def split: if_splits)
      with dropCR_length [of b] b len' show ?thesis by simp
    next
      case (Cons c cs')
      with 1(3) False b have rec: "if length c \<le> len' - length b
          then scan_loop limit len' (b @ c) (cs', e) = (Inr line, r)
          else scan_loop limit len' (b @ take (len' - length b) c) (drop (len' - length b) c # cs', e) = (Inr line, r)"
        by (subst (asm) scan_loop.simps) (auto simp: len'_def [symmetric] Let_def)
      show ?thesis
      proof (cases "length c \<le> len' - length b")
        case True
        with 1(1) [OF False len'_def _ Cons True] rec b len' show ?thesis by auto
      next
        case False': False
        with 1(2) [OF False len'_def _ Cons False'] rec b len' show ?thesis by auto
      qed
    qed
  qed
qed


text \<open>Whatever the chunks, a token is the first line of the bytes to come.\<close>

lemma scan_loop_token:
  "scan_loop limit len b (cs, e) = (Inr line, r) \<Longrightarrow>
     line = dropCR (takeWhile (\<lambda>c. c \<noteq> newline) (b @ concat cs))"
proof (induction limit len b "(cs, e)" arbitrary: cs rule: scan_loop.induct)
  case (1 limit len b cs)
  show ?case
  proof (cases "newline \<in> set b")
    case True
    then have "takeWhile (\<lambda>c. c \<noteq> newline) (b @ concat cs) = takeWhile (\<lambda>c. c \<noteq> newline) b"
      by (simp add: takeWhile_append1)
    with 1(3) True show ?thesis by (simp add: scan_loop.simps [of limit len b cs e])
  next
    case False
    define len' where "len' = (if length b < len then len else min (if len = 0 then 4096 else 2 * len) limit)"
    have b: "\<not> len' \<le> length b"
      using 1(3) False by (subst (asm) scan_loop.simps) (auto simp: len'_def Let_def split: if_splits)
    show ?thesis
    proof (cases cs)
      case Nil
      with 1(3) False b have "line = dropCR b"
        by (subst (asm) scan_loop.simps) (auto simp: len'_def [symmetric] Let_def split: if_splits)
      moreover have "takeWhile (\<lambda>c. c \<noteq> newline) b = b"
        using False by (auto simp: takeWhile_eq_all_conv)
      ultimately show ?thesis using Nil by (simp only: concat.simps append_Nil2)
    next
      case (Cons c cs')
      with 1(3) False b have rec: "if length c \<le> len' - length b
          then scan_loop limit len' (b @ c) (cs', e) = (Inr line, r)
          else scan_loop limit len' (b @ take (len' - length b) c) (drop (len' - length b) c # cs', e) = (Inr line, r)"
        by (subst (asm) scan_loop.simps) (auto simp: len'_def [symmetric] Let_def)
      show ?thesis
      proof (cases "length c \<le> len' - length b")
        case True
        with 1(1) [OF False len'_def b Cons True] rec Cons show ?thesis by simp
      next
        case False': False
        have "take (len' - length b) c @ drop (len' - length b) c @ concat cs' = c @ concat cs'"
          by (metis append_assoc append_take_drop_id)
        with 1(2) [OF False len'_def b Cons False'] rec False' Cons show ?thesis by simp
      qed
    qed
  qed
qed

end
