(* ===== verification/Uds_Wire.thy ===== *)
theory Uds_Wire
  imports Uds_Codec
begin

text \<open>
  What arrives when a message travels over a connection: frames survive every way of
  cutting the bytes into chunks, requests are decoded to what the sender encoded, lines
  survive when the sender waits for the answer before it sends the next one and are lost
  when it does not, and messages over the limits are refused.
\<close>

section \<open>Requests as a sender writes them\<close>

text \<open>The text of a request by the tags of \<open>JSONRequest\<close>.\<close>

definition JSONRequest_json :: "JSONRequest \<Rightarrow> json" where
  "JSONRequest_json r = JObject
     [(''action'', JString (jq_Action r)),
      (''payload'', case jq_Payload r of None \<Rightarrow> JNull | Some v \<Rightarrow> v),
      (''request_id'', JString (jq_RequestID r))]"

lemma decode_request_json:
  assumes "json_ok maxNestingDepth (JSONRequest_json req)" and "jq_Payload req \<noteq> None"
  shows "decode_request (json_Marshal (JSONRequest_json req)) = Inr req"
proof -
  have "decode_struct JSONRequest_fields (JSONRequest_json req) zero_JSONRequest = (req, True)"
    using assms(2) by (auto simp: JSONRequest_json_def JSONRequest_fields_def find_field_def
        field_defs zero_JSONRequest_def Let_def)
  then show ?thesis by (simp add: decode_request_def Unmarshal_Marshal [OF assms(1)])
qed

text \<open>A written text is one line: it contains no line end and no carriage return.\<close>

lemma Marshal_one_line:
  assumes "json_ok d v"
  shows "newline \<notin> set (json_Marshal v)" and "dropCR (json_Marshal v) = json_Marshal v"
proof -
  have p: "plain (json_Marshal v)" using assms by (rule plain_Marshal)
  have "\<not> (0x20::nat) \<le> of_char newline" by (simp add: newline_def)
  with p show "newline \<notin> set (json_Marshal v)" unfolding plain_def by blast
  have "\<not> (0x20::nat) \<le> of_char (CHR 0x0D)" by simp
  with p have "CHR 0x0D \<notin> set (json_Marshal v)" unfolding plain_def by blast
  then show "dropCR (json_Marshal v) = json_Marshal v"
    by (metis dropCR_def last_in_set)
qed


section \<open>Properties\<close>

text \<open>
  A message written with a length prefix is read back whole and leaves exactly the bytes
  behind it, however the bytes are cut into chunks on the way, if it has at most one
  mebibyte; a longer one is refused.
\<close>

theorem frame_round_trip:
  assumes "writeLengthPrefixed buffer_Write data [] = (Inr (), sent)" and "length data < 2 ^ 32"
    and "pending st = sent @ rest"
  shows "if length data \<le> MaxMessageSize
         then \<exists>st'. readLengthPrefixed st = (Inr data, st') \<and> pending st' = rest
         else fst (readLengthPrefixed st) = Inl (Errorf ''message too large'')"
proof -
  obtain cs e where st: "st = (cs, e)" by force
  have sent: "pending (cs, e) = frame data @ rest"
    using assms(1,3) st by (simp add: writeLengthPrefixed_buffer)
  show ?thesis
    using readLengthPrefixed_frame [OF sent] readLengthPrefixed_too_large [OF sent _ assms(2)] st by auto
qed

theorem frame_round_trip_witness:
  "\<exists>st. readLengthPrefixed ([[CHR 0x02], [CHR 0x00, CHR 0x00], [CHR 0x00, CHR ''o''], ''kx''], EOF) =
          (Inr ''ok'', st) \<and> pending st = ''x''"
proof -
  have "writeLengthPrefixed buffer_Write ''ok'' [] = (Inr (), [CHR 0x02, CHR 0x00, CHR 0x00, CHR 0x00, CHR ''o'', CHR ''k''])"
    by (simp add: writeLengthPrefixed_buffer frame_def PutUint32_def char_of_def bit_0)
  from frame_round_trip [OF this, of "([[CHR 0x02], [CHR 0x00, CHR 0x00], [CHR 0x00, CHR ''o''], ''kx''], EOF)" "''x''"]
  show ?thesis by (simp add: pending_def MaxMessageSize_def)
qed

text \<open>
  When the connection ends inside a frame, an error is returned and never a part of the
  message.
\<close>

theorem no_partial_message:
  assumes "pending st = part" and "strict_prefix part (frame data)" and "length data \<le> MaxMessageSize"
    and "snd st = EOF"
  shows "fst (readLengthPrefixed st) = Inl EOF \<or> fst (readLengthPrefixed st) = Inl ErrUnexpectedEOF"
proof -
  obtain cs where st: "st = (cs, EOF)" using assms(4) by (cases st) auto
  obtain z where z: "frame data = part @ z" and "z \<noteq> []" using assms(2) by (auto elim: strict_prefixE')
  have len: "length data < 2 ^ 32" using assms(3) by (simp add: MaxMessageSize_def)
  show ?thesis
  proof (cases "length part < 4")
    case True
    then have "length (pending (cs, EOF)) < 4" using assms(1) st by simp
    from read_full_short [OF this, of False] show ?thesis
      by (auto simp: st readLengthPrefixed_def split: prod.split if_splits)
  next
    case False
    then have enough: "4 \<le> length (pending (cs, EOF))" using assms(1) st by simp
    have head: "take 4 part = PutUint32 (word_of_nat (length data))" and body: "drop 4 part @ z = data"
      using z False by (auto simp: frame_def append_eq_append_conv_if split: if_splits)
    from read_full_ok [OF enough, of False] obtain cs' where
      r: "ReadFull 4 (cs, EOF) = (Inr (PutUint32 (word_of_nat (length data))), (cs', EOF))"
      and rest: "pending (cs', EOF) = drop 4 part"
      using assms(1) st head by auto
    have "length (pending (cs', EOF)) < length data"
      using rest body \<open>z \<noteq> []\<close> by (metis length_append length_greater_0_conv less_add_same_cancel1)
    from read_full_short [OF this, of False] r show ?thesis
      using frame_too_large [OF len] assms(3)
      by (simp add: st readLengthPrefixed_def Uint32_PutUint32 Let_def unat_length [OF len])
  qed
qed

theorem no_partial_message_witness:
  "fst (readLengthPrefixed ([[CHR 0x02, CHR 0x00, CHR 0x00, CHR 0x00], ''o''], EOF)) = Inl EOF \<or>
   fst (readLengthPrefixed ([[CHR 0x02, CHR 0x00, CHR 0x00, CHR 0x00], ''o''], EOF)) = Inl ErrUnexpectedEOF"
proof (rule no_partial_message)
  show "strict_prefix ([CHR 0x02, CHR 0x00, CHR 0x00, CHR 0x00, CHR ''o'']) (frame ''ok'')"
    by (simp add: frame_def PutUint32_def char_of_def bit_0)
qed (simp_all add: pending_def MaxMessageSize_def)

text \<open>
  C18: a request that a sender encodes is decoded by the server to the same action, payload
  and request id: over the frames in any chunks, and over the lines when the line is at
  most 524287 bytes long and the last chunk of it ends with it.
\<close>

theorem request_round_trip:
  assumes "json_ok maxNestingDepth (JSONRequest_json req)" and "jq_Payload req \<noteq> None"
    and "msg = json_Marshal (JSONRequest_json req)"
  shows "(length msg \<le> MaxMessageSize \<and> pending st = frame msg @ rest \<longrightarrow>
            (\<exists>st'. ReadRequest ProtobufCodec st = (Inr req, st') \<and> pending st' = rest)) \<and>
         (length msg < MaxJSONMessageSize \<and> concat cs1 = msg @ [newline] \<and> [] \<notin> set cs1 \<longrightarrow>
            ReadRequest JSONCodec (cs1 @ cs2, e) = (Inr req, (cs2, e)))"
proof (intro conjI impI)
  note dec = decode_request_json [OF assms(1,2), folded assms(3)]
  assume h: "length msg \<le> MaxMessageSize \<and> pending st = frame msg @ rest"
  obtain cs e' where st: "st = (cs, e')" by force
  from h readLengthPrefixed_frame [of cs e' msg rest] st obtain cs' where
    "readLengthPrefixed st = (Inr msg, (cs', e'))" and "pending (cs', e') = rest" by auto
  with h dec show "\<exists>st'. ReadRequest ProtobufCodec st = (Inr req, st') \<and> pending st' = rest"
    by (simp add: ProtobufCodec_ReadRequest_def)
next
  note dec = decode_request_json [OF assms(1,2), folded assms(3)]
  note one = Marshal_one_line [OF assms(1), folded assms(3)]
  assume h: "length msg < MaxJSONMessageSize \<and> concat cs1 = msg @ [newline] \<and> [] \<notin> set cs1"
  then have "cs1 \<noteq> []" by auto
  with h one have "request_scan (cs1 @ cs2, e) = (Inr msg, (cs2, e))"
    unfolding request_scan_def by (subst scan_loop_line [of _ cs1 msg]) auto
  with h dec show "ReadRequest JSONCodec (cs1 @ cs2, e) = (Inr req, (cs2, e))"
    by (simp add: JSONCodec_ReadRequest_def)
qed

definition sample_request :: JSONRequest where
  "sample_request = \<lparr>jq_Action = ''ping'', jq_Payload = Some (JObject []), jq_RequestID = ''7''\<rparr>"

lemma sample_request_ok: "json_ok maxNestingDepth (JSONRequest_json sample_request)"
  by (simp add: JSONRequest_json_def sample_request_def maxNestingDepth_def valid_utf8.simps)

definition sample_text :: string where
  "sample_text = json_Marshal (JSONRequest_json sample_request)"

lemma sample_text_eq:
  "sample_text = [CHR ''{'', CHR 0x22] @ ''action'' @ [CHR 0x22, CHR '':'', CHR 0x22] @ ''ping'' @
     [CHR 0x22, CHR '','', CHR 0x22] @ ''payload'' @ [CHR 0x22] @ '':{},'' @ [CHR 0x22] @ ''request_id'' @
     [CHR 0x22, CHR '':'', CHR 0x22] @ ''7'' @ [CHR 0x22, CHR ''}'']"
  by (simp add: sample_text_def JSONRequest_json_def sample_request_def quote_string_def escape.simps escape_byte_def)

theorem request_round_trip_witness:
  "ReadRequest JSONCodec ([take 9 sample_text, drop 9 sample_text @ [newline], ''next''], EOF) =
     (Inr sample_request, ([''next''], EOF))"
proof -
  have "length sample_text < MaxJSONMessageSize \<and>
      concat [take 9 sample_text, drop 9 sample_text @ [newline]] = sample_text @ [newline] \<and>
      [] \<notin> set [take 9 sample_text, drop 9 sample_text @ [newline]]"
    by (simp add: sample_text_eq MaxJSONMessageSize_def)
  then show ?thesis
    using request_round_trip [OF sample_request_ok _ refl, folded sample_text_def,
        of _ _ "[take 9 sample_text, drop 9 sample_text @ [newline]]" "[''next'']" EOF]
    by (simp add: sample_request_def)
qed

text \<open>
  The answer that the server writes is read by the peer as the value it stands for, in
  both formats; as a line it contains no line end but its last byte.
\<close>

theorem response_on_the_wire:
  assumes "json_ok maxNestingDepth (JSONResponse_json resp)"
  shows "\<exists>text. json_Parse text = Some (JSONResponse_json resp) \<and> newline \<notin> set text \<and>
           WriteResponse JSONCodec buffer_Write resp [] = (Inr (), text @ [newline]) \<and>
           WriteResponse ProtobufCodec buffer_Write resp [] = (Inr (), frame text)"
proof (intro exI conjI)
  let ?text = "json_Marshal (JSONResponse_json resp)"
  show "json_Parse ?text = Some (JSONResponse_json resp)" using assms by (rule json_Parse_Marshal)
  show "newline \<notin> set ?text" using assms by (rule Marshal_one_line)
  show "WriteResponse JSONCodec buffer_Write resp [] = (Inr (), ?text @ [newline])"
    by (simp add: JSONCodec_WriteResponse_def buffer_Write_def)
  show "WriteResponse ProtobufCodec buffer_Write resp [] = (Inr (), frame ?text)"
    by (simp add: ProtobufCodec_WriteResponse_def writeLengthPrefixed_buffer)
qed

theorem response_on_the_wire_witness:
  "\<exists>text. json_Parse text = Some (JSONResponse_json \<lparr>jp_Status = ''pong'', jp_Payload = None,
       jp_RequestID = [newline], jp_Error = []\<rparr>) \<and> newline \<notin> set text"
proof -
  let ?r = "\<lparr>jp_Status = ''pong'', jp_Payload = None, jp_RequestID = [newline], jp_Error = []\<rparr>"
  have "json_ok maxNestingDepth (JSONResponse_json ?r)"
    by (simp add: JSONResponse_json_def maxNestingDepth_def valid_utf8.simps omitempty_def newline_def)
  from response_on_the_wire [OF this] show ?thesis by blast
qed

text \<open>
  C35: a line that the JSON codec accepts has fewer than 524288 bytes, so the check of the
  size after the scan never fires.
\<close>

theorem request_line_bounded:
  assumes "request_scan st = (Inr line, st')"
  shows "length line < MaxJSONMessageSize \<and>
         JSONCodec_ReadRequest st = (decode_request line, st')"
proof -
  obtain cs e where st: "st = (cs, e)" by force
  have "length line < MaxJSONMessageSize"
    using scan_loop_bound [of MaxJSONMessageSize MaxJSONMessageSize "[]" cs e line st'] assms st
    by (simp add: request_scan_def MaxJSONMessageSize_def)
  with assms show ?thesis by (simp add: JSONCodec_ReadRequest_def)
qed

theorem request_line_bounded_witness:
  "length ''x'' < MaxJSONMessageSize \<and> JSONCodec_ReadRequest ([[CHR ''x'', newline]], EOF) = (decode_request ''x'', ([], EOF))"
proof (rule request_line_bounded)
  show "request_scan ([[CHR ''x'', newline]], EOF) = (Inr ''x'', ([], EOF))"
    using scan_loop_line [of "[]" "[[CHR ''x'', newline]]" "''x''" MaxJSONMessageSize MaxJSONMessageSize "[]" EOF]
    by (simp add: request_scan_def MaxJSONMessageSize_def newline_def dropCR_def)
qed


end
