(* ===== verification/Uds_Handler.thy ===== *)
theory Uds_Handler
  imports Services Uds_Wire
begin

text \<open>
  The action handlers of \<open>internal/uds/handler.go\<close> and the registry that dispatches to
  them. A handler gets the payload of the request and its id and returns the response;
  \<^term>\<open>None\<close> is a panic, which nothing in the server recovers from.
\<close>

type_synonym ('u, 'j, 'o, 'g) ActionHandler =
  "('u, 'j, 'o, 'g) services \<Rightarrow> env \<Rightarrow> json option \<Rightarrow> string \<Rightarrow> ('u, 'j, 'o, 'g) world
    \<Rightarrow> (JSONResponse \<times> ('u, 'j, 'o, 'g) world) option"

definition errorResp :: "string \<Rightarrow> string \<Rightarrow> JSONResponse" where
  "errorResp requestID msg =
     \<lparr>jp_Status = ''error'', jp_Payload = None, jp_RequestID = requestID, jp_Error = msg\<rparr>"

definition successResp :: "string \<Rightarrow> response_payload \<Rightarrow> JSONResponse" where
  "successResp requestID p =
     \<lparr>jp_Status = ''success'', jp_Payload = Some p, jp_RequestID = requestID, jp_Error = []\<rparr>"


section \<open>Users and authentication\<close>

definition handleAuth :: "('u, 'j, 'o, 'g) ActionHandler" where
  "handleAuth sv env payload requestID w =
     (let (p, ok) = raw_Unmarshal AuthPayload_fields payload \<lparr>ap_Username = [], ap_Password = []\<rparr>
      in if \<not> ok then Some (errorResp requestID ''invalid auth payload'', w)
         else if ap_Username p = [] \<or> ap_Password p = []
         then Some (errorResp requestID ''username and password are required'', w)
         else case VerifyCredentials (sv_users sv) (sv_auth sv) (ap_Username p) (ap_Password p) (w_users w) of
                Inl err \<Rightarrow> Some (errorResp requestID (error_text err), w)
              | Inr u \<Rightarrow>
                  Some (successResp requestID (AuthResponse
                    \<lparr>ar_UserID = u_ID u, ar_Username = u_Username u, ar_Email = u_Email u,
                     ar_DisplayName = u_DisplayName u\<rparr>), w))"

definition handleGetUser :: "('u, 'j, 'o, 'g) ActionHandler" where
  "handleGetUser sv env payload requestID w =
     (let (p, ok) = raw_Unmarshal GetUserPayload_fields payload \<lparr>gu_UserID = [], gu_Username = []\<rparr>
      in if \<not> ok then Some (errorResp requestID ''invalid get_user payload'', w)
         else if gu_UserID p = [] \<and> gu_Username p = []
         then Some (errorResp requestID ''user_id or username is required'', w)
         else case (if gu_UserID p \<noteq> [] then GetUser (sv_users sv) (gu_UserID p) (w_users w)
                    else GetUserByUsername (sv_users sv) (gu_Username p) (w_users w)) of
                Inl err \<Rightarrow> Some (errorResp requestID ''user not found'', w)
              | Inr u \<Rightarrow>
                  Some (successResp requestID (GetUserResponse
                    \<lparr>gr_UserID = u_ID u, gr_Username = u_Username u, gr_Email = u_Email u,
                     gr_DisplayName = u_DisplayName u, gr_Organizations = []\<rparr>), w))"

definition handleTriggerSync :: "('u, 'j, 'o, 'g) ActionHandler" where
  "handleTriggerSync sv env payload requestID w =
     (let (p, ok) = raw_Unmarshal TriggerSyncPayload_fields payload \<lparr>ts_SourceSystem = [], ts_SyncType = []\<rparr>
      in if \<not> ok then Some (errorResp requestID ''invalid trigger_sync payload'', w)
         else if ts_SourceSystem p = [] then Some (errorResp requestID ''source_system is required'', w)
         else let p = (if ts_SyncType p = [] then p\<lparr>ts_SyncType := SyncTypeIncremental\<rparr> else p)
              in case CreateSyncJob (sv_jobs sv) (ev_uuid env) (ev_now env) (ev_now' env)
                        \<lparr>cj_SourceSystem = ts_SourceSystem p, cj_SyncType = ts_SyncType p\<rparr> (w_jobs w) of
                   (Inl err, j) \<Rightarrow>
                     Some (errorResp requestID (''failed to create sync job: '' @ error_text err), w\<lparr>w_jobs := j\<rparr>)
                 | (Inr job, j) \<Rightarrow>
                     Some (successResp requestID (TriggerSyncResponse
                       \<lparr>tr_JobID = j_ID job, tr_EstimatedDuration = ''30s'',
                        tr_Message = ''Sync job started''\<rparr>), w\<lparr>w_jobs := j\<rparr>))"

definition handlePing :: "('u, 'j, 'o, 'g) ActionHandler" where
  "handlePing sv env payload requestID w =
     Some (\<lparr>jp_Status = ''pong'', jp_Payload = None, jp_RequestID = requestID, jp_Error = []\<rparr>, w)"


section \<open>Organizations\<close>

definition org_info :: "Organization \<Rightarrow> OrgDetailInfo" where
  "org_info org = \<lparr>odi_OrgID = o_ID org, odi_Name = o_Name org, odi_ParentID = o_ParentID org,
     odi_Path = o_Path org, odi_Role = []\<rparr>"

definition handleCreateOrg :: "('u, 'j, 'o, 'g) ActionHandler" where
  "handleCreateOrg sv env payload requestID w =
     (let (p, ok) = raw_Unmarshal CreateOrgPayload_fields payload \<lparr>cop_Name = [], cop_ParentID = []\<rparr>
      in if \<not> ok then Some (errorResp requestID ''invalid create_org payload'', w)
         else if cop_Name p = [] then Some (errorResp requestID ''name is required'', w)
         else case CreateOrg (sv_orgs sv) (ev_uuid env) (ev_now env)
                     \<lparr>co_Name = cop_Name p, co_ParentID = cop_ParentID p, co_ExternalID = [], co_SourceSystem = []\<rparr>
                     (w_orgs w) of
                (Inl err, s) \<Rightarrow>
                  Some (errorResp requestID (''failed to create org: '' @ error_text err), w\<lparr>w_orgs := s\<rparr>)
              | (Inr org, s) \<Rightarrow> Some (successResp requestID (OrgDetail (org_info org)), w\<lparr>w_orgs := s\<rparr>))"

definition handleGetOrg :: "('u, 'j, 'o, 'g) ActionHandler" where
  "handleGetOrg sv env payload requestID w =
     (let (p, ok) = raw_Unmarshal GetOrgPayload_fields payload \<lparr>gop_OrgID = []\<rparr>
      in if \<not> ok then Some (errorResp requestID ''invalid get_org payload'', w)
         else if gop_OrgID p = [] then Some (errorResp requestID ''org_id is required'', w)
         else case GetOrg (sv_orgs sv) (gop_OrgID p) (w_orgs w) of
                Inl err \<Rightarrow> Some (errorResp requestID ''org not found'', w)
              | Inr org \<Rightarrow> Some (successResp requestID (OrgDetail (org_info org)), w))"

definition handleListOrgs :: "('u, 'j, 'o, 'g) ActionHandler" where
  "handleListOrgs sv env payload requestID w =
     (let (p, _) = raw_Unmarshal ListOrgsPayload_fields payload \<lparr>lop_Offset = 0, lop_Limit = 0\<rparr>
      in case ListOrgs (sv_orgs sv) (ev_order env) (lop_Offset p) (lop_Limit p) (w_orgs w) of
           None \<Rightarrow> None
         | Some (Inl err) \<Rightarrow> Some (errorResp requestID (''failed to list orgs: '' @ error_text err), w)
         | Some (Inr (orgs, total_count)) \<Rightarrow>
             Some (successResp requestID (ListOrgsResponse
               \<lparr>lor_Items = map org_info orgs, lor_Total = total_count\<rparr>), w))"

definition handleAddOrgMember :: "('u, 'j, 'o, 'g) ActionHandler" where
  "handleAddOrgMember sv env payload requestID w =
     (let (p, ok) = raw_Unmarshal AddOrgMemberPayload_fields payload \<lparr>aom_OrgID = [], aom_UserID = [], aom_Role = []\<rparr>
      in if \<not> ok then Some (errorResp requestID ''invalid add_org_member payload'', w)
         else if aom_OrgID p = [] \<or> aom_UserID p = []
         then Some (errorResp requestID ''org_id and user_id are required'', w)
         else case AddOrgMember (sv_orgs sv) (sv_users sv) (aom_OrgID p)
                     \<lparr>ao_UserID = aom_UserID p, ao_Role = aom_Role p, ao_IsPrimary = False\<rparr>
                     (w_users w) (w_orgs w) of
                (Inl err, s) \<Rightarrow>
                  Some (errorResp requestID (''failed to add member: '' @ error_text err), w\<lparr>w_orgs := s\<rparr>)
              | (Inr _, s) \<Rightarrow> Some (successResp requestID (MessageMap ''member added''), w\<lparr>w_orgs := s\<rparr>))"

definition handleRemoveOrgMember :: "('u, 'j, 'o, 'g) ActionHandler" where
  "handleRemoveOrgMember sv env payload requestID w =
     (let (p, ok) = raw_Unmarshal RemoveOrgMemberPayload_fields payload \<lparr>rom_OrgID = [], rom_UserID = []\<rparr>
      in if \<not> ok then Some (errorResp requestID ''invalid remove_org_member payload'', w)
         else if rom_OrgID p = [] \<or> rom_UserID p = []
         then Some (errorResp requestID ''org_id and user_id are required'', w)
         else case RemoveOrgMember (sv_orgs sv) (rom_OrgID p) (rom_UserID p) (w_orgs w) of
                (Inl err, s) \<Rightarrow>
                  Some (errorResp requestID (''failed to remove member: '' @ error_text err), w\<lparr>w_orgs := s\<rparr>)
              | (Inr _, s) \<Rightarrow> Some (successResp requestID (MessageMap ''member removed''), w\<lparr>w_orgs := s\<rparr>))"

definition handleListOrgMembers :: "('u, 'j, 'o, 'g) ActionHandler" where
  "handleListOrgMembers sv env payload requestID w =
     (let (p, ok) = raw_Unmarshal ListOrgMembersPayload_fields payload \<lparr>lom_OrgID = []\<rparr>
      in if \<not> ok then Some (errorResp requestID ''invalid list_org_members payload'', w)
         else if lom_OrgID p = [] then Some (errorResp requestID ''org_id is required'', w)
         else case ListOrgMembers (sv_orgs sv) (sv_users sv) (lom_OrgID p) (w_users w) (w_orgs w) of
                Inl err \<Rightarrow> Some (errorResp requestID (''failed to list members: '' @ error_text err), w)
              | Inr details \<Rightarrow>
                  let items = map (\<lambda>d. \<lparr>omi_UserID = r_UserID d, omi_Username = od_Username d,
                                omi_DisplayName = od_DisplayName d, omi_Role = r_Role d\<rparr>) details
                  in Some (successResp requestID (ListOrgMembersResponse
                       \<lparr>lomr_Items = items, lomr_Total = int (length items)\<rparr>), w))"

definition handleGetUserOrgs :: "('u, 'j, 'o, 'g) ActionHandler" where
  "handleGetUserOrgs sv env payload requestID w =
     (let (p, ok) = raw_Unmarshal GetUserOrgsPayload_fields payload \<lparr>guo_UserID = []\<rparr>
      in if \<not> ok then Some (errorResp requestID ''invalid get_user_orgs payload'', w)
         else if guo_UserID p = [] then Some (errorResp requestID ''user_id is required'', w)
         else case GetUserOrgs (sv_orgs sv) (guo_UserID p) (w_orgs w) of
                Inl err \<Rightarrow> Some (errorResp requestID (''failed to get user orgs: '' @ error_text err), w)
              | Inr rels \<Rightarrow>
                  let items = map (\<lambda>rel.
                        let info = \<lparr>odi_OrgID = r_OrgID rel, odi_Name = [], odi_ParentID = [],
                                    odi_Path = [], odi_Role = r_Role rel\<rparr>
                        in case GetOrg (sv_orgs sv) (r_OrgID rel) (w_orgs w) of
                             Inl _ \<Rightarrow> info
                           | Inr org \<Rightarrow> info\<lparr>odi_Name := o_Name org, odi_Path := o_Path org,
                                            odi_ParentID := o_ParentID org\<rparr>) rels
                  in Some (successResp requestID (ListOrgsResponse
                       \<lparr>lor_Items = items, lor_Total = int (length items)\<rparr>), w))"


section \<open>Groups\<close>

definition group_info :: "Group \<Rightarrow> GroupDetailInfo" where
  "group_info g = \<lparr>gdi_GroupID = g_ID g, gdi_Name = g_Name g, gdi_Description = g_Description g,
     gdi_Type = g_Type g, gdi_Role = []\<rparr>"

definition handleCreateGroup :: "('u, 'j, 'o, 'g) ActionHandler" where
  "handleCreateGroup sv env payload requestID w =
     (let (p, ok) = raw_Unmarshal CreateGroupPayload_fields payload
                      \<lparr>cgp_Name = [], cgp_Description = [], cgp_Type = []\<rparr>
      in if \<not> ok then Some (errorResp requestID ''invalid create_group payload'', w)
         else if cgp_Name p = [] then Some (errorResp requestID ''name is required'', w)
         else case CreateGroup (sv_groups sv) (ev_uuid env) (ev_now env)
                     \<lparr>cg_Name = cgp_Name p, cg_Description = cgp_Description p, cg_Type = cgp_Type p\<rparr>
                     (w_groups w) of
                (Inl err, s) \<Rightarrow>
                  Some (errorResp requestID (''failed to create group: '' @ error_text err), w\<lparr>w_groups := s\<rparr>)
              | (Inr g, s) \<Rightarrow> Some (successResp requestID (GroupDetail (group_info g)), w\<lparr>w_groups := s\<rparr>))"

definition handleGetGroup :: "('u, 'j, 'o, 'g) ActionHandler" where
  "handleGetGroup sv env payload requestID w =
     (let (p, ok) = raw_Unmarshal GetGroupPayload_fields payload \<lparr>ggp_GroupID = []\<rparr>
      in if \<not> ok then Some (errorResp requestID ''invalid get_group payload'', w)
         else if ggp_GroupID p = [] then Some (errorResp requestID ''group_id is required'', w)
         else case GetGroup (sv_groups sv) (ggp_GroupID p) (w_groups w) of
                Inl err \<Rightarrow> Some (errorResp requestID ''group not found'', w)
              | Inr g \<Rightarrow> Some (successResp requestID (GroupDetail (group_info g)), w))"

definition handleListGroups :: "('u, 'j, 'o, 'g) ActionHandler" where
  "handleListGroups sv env payload requestID w =
     (let (p, _) = raw_Unmarshal ListGroupsPayload_fields payload \<lparr>lgp_Offset = 0, lgp_Limit = 0\<rparr>
      in case ListGroups (sv_groups sv) (ev_order env) (lgp_Offset p) (lgp_Limit p) (w_groups w) of
           None \<Rightarrow> None
         | Some (Inl err) \<Rightarrow> Some (errorResp requestID (''failed to list groups: '' @ error_text err), w)
         | Some (Inr (gs, total_count)) \<Rightarrow>
             Some (successResp requestID (ListGroupsResponse
               \<lparr>lgr_Items = map group_info gs, lgr_Total = total_count\<rparr>), w))"

definition handleAddGroupMember :: "('u, 'j, 'o, 'g) ActionHandler" where
  "handleAddGroupMember sv env payload requestID w =
     (let (p, ok) = raw_Unmarshal AddGroupMemberPayload_fields payload
                      \<lparr>agm_GroupID = [], agm_UserID = [], agm_Role = []\<rparr>
      in if \<not> ok then Some (errorResp requestID ''invalid add_group_member payload'', w)
         else if agm_GroupID p = [] \<or> agm_UserID p = []
         then Some (errorResp requestID ''group_id and user_id are required'', w)
         else case AddGroupMember (sv_groups sv) (sv_users sv) (ev_now env) (agm_GroupID p)
                     \<lparr>ag_UserID = agm_UserID p, ag_Role = agm_Role p\<rparr> (w_users w) (w_groups w) of
                (Inl err, s) \<Rightarrow>
                  Some (errorResp requestID (''failed to add member: '' @ error_text err), w\<lparr>w_groups := s\<rparr>)
              | (Inr _, s) \<Rightarrow> Some (successResp requestID (MessageMap ''member added''), w\<lparr>w_groups := s\<rparr>))"

definition handleRemoveGroupMember :: "('u, 'j, 'o, 'g) ActionHandler" where
  "handleRemoveGroupMember sv env payload requestID w =
     (let (p, ok) = raw_Unmarshal RemoveGroupMemberPayload_fields payload \<lparr>rgm_GroupID = [], rgm_UserID = []\<rparr>
      in if \<not> ok then Some (errorResp requestID ''invalid remove_group_member payload'', w)
         else if rgm_GroupID p = [] \<or> rgm_UserID p = []
         then Some (errorResp requestID ''group_id and user_id are required'', w)
         else case RemoveGroupMember (sv_groups sv) (rgm_GroupID p) (rgm_UserID p) (w_groups w) of
                (Inl err, s) \<Rightarrow>
                  Some (errorResp requestID (''failed to remove member: '' @ error_text err), w\<lparr>w_groups := s\<rparr>)
              | (Inr _, s) \<Rightarrow> Some (successResp requestID (MessageMap ''member removed''), w\<lparr>w_groups := s\<rparr>))"

definition handleListGroupMembers :: "('u, 'j, 'o, 'g) ActionHandler" where
  "handleListGroupMembers sv env payload requestID w =
     (let (p, ok) = raw_Unmarshal ListGroupMembersPayload_fields payload \<lparr>lgm_GroupID = []\<rparr>
      in if \<not> ok then Some (errorResp requestID ''invalid list_group_members payload'', w)
         else if lgm_GroupID p = [] then Some (errorResp requestID ''group_id is required'', w)
         else case ListGroupMembers (sv_groups sv) (sv_users sv) (lgm_GroupID p) (w_users w) (w_groups w) of
                Inl err \<Rightarrow> Some (errorResp requestID (''failed to list members: '' @ error_text err), w)
              | Inr details \<Rightarrow>
                  let items = map (\<lambda>d. \<lparr>gmi_UserID = m_UserID d, gmi_Username = gd_Username d,
                                gmi_DisplayName = gd_DisplayName d, gmi_Role = m_Role d\<rparr>) details
                  in Some (successResp requestID (ListGroupMembersResponse
                       \<lparr>lgmr_Items = items, lgmr_Total = int (length items)\<rparr>), w))"

definition handleGetUserGroups :: "('u, 'j, 'o, 'g) ActionHandler" where
  "handleGetUserGroups sv env payload requestID w =
     (let (p, ok) = raw_Unmarshal GetUserGroupsPayload_fields payload \<lparr>gug_UserID = []\<rparr>
      in if \<not> ok then Some (errorResp requestID ''invalid get_user_groups payload'', w)
         else if gug_UserID p = [] then Some (errorResp requestID ''user_id is required'', w)
         else case GetUserGroups (sv_groups sv) (gug_UserID p) (w_groups w) of
                Inl err \<Rightarrow> Some (errorResp requestID (''failed to get user groups: '' @ error_text err), w)
              | Inr members \<Rightarrow>
                  let items = map (\<lambda>m.
                        let info = \<lparr>gdi_GroupID = m_GroupID m, gdi_Name = [], gdi_Description = [],
                                    gdi_Type = [], gdi_Role = m_Role m\<rparr>
                        in case GetGroup (sv_groups sv) (m_GroupID m) (w_groups w) of
                             Inl _ \<Rightarrow> info
                           | Inr g \<Rightarrow> info\<lparr>gdi_Name := g_Name g, gdi_Description := g_Description g,
                                          gdi_Type := g_Type g\<rparr>) members
                  in Some (successResp requestID (ListGroupsResponse
                       \<lparr>lgr_Items = items, lgr_Total = int (length items)\<rparr>), w))"


section \<open>The registry\<close>

text \<open>\<open>register\<close> stores a handler under the name of its action.\<close>

definition register ::
  "string \<Rightarrow> ('u, 'j, 'o, 'g) ActionHandler \<Rightarrow> (string \<rightharpoonup> ('u, 'j, 'o, 'g) ActionHandler)
    \<Rightarrow> (string \<rightharpoonup> ('u, 'j, 'o, 'g) ActionHandler)" where
  "register action handler handlers = handlers(action \<mapsto> handler)"

definition NewHandlerRegistry :: "string \<rightharpoonup> ('u, 'j, 'o, 'g) ActionHandler" where
  "NewHandlerRegistry =
     fold (\<lambda>(action, handler). register action handler)
       [(''auth'', handleAuth), (''get_user'', handleGetUser), (''trigger_sync'', handleTriggerSync),
        (''ping'', handlePing),
        (''create_org'', handleCreateOrg), (''get_org'', handleGetOrg), (''list_orgs'', handleListOrgs),
        (''add_org_member'', handleAddOrgMember), (''remove_org_member'', handleRemoveOrgMember),
        (''list_org_members'', handleListOrgMembers), (''get_user_orgs'', handleGetUserOrgs),
        (''create_group'', handleCreateGroup), (''get_group'', handleGetGroup),
        (''list_groups'', handleListGroups), (''add_group_member'', handleAddGroupMember),
        (''remove_group_member'', handleRemoveGroupMember),
        (''list_group_members'', handleListGroupMembers), (''get_user_groups'', handleGetUserGroups)]
       Map.empty"

definition Handle ::
  "('u, 'j, 'o, 'g) services \<Rightarrow> env \<Rightarrow> JSONRequest \<Rightarrow> ('u, 'j, 'o, 'g) world
    \<Rightarrow> (JSONResponse \<times> ('u, 'j, 'o, 'g) world) option" where
  "Handle sv env req w =
     (case NewHandlerRegistry (jq_Action req) of
        None \<Rightarrow> Some (errorResp (jq_RequestID req) (''unknown action: '' @ jq_Action req), w)
      | Some handler \<Rightarrow> handler sv env (jq_Payload req) (jq_RequestID req) w)"


lemmas user_handler_defs = handleAuth_def handleGetUser_def handleTriggerSync_def handlePing_def

lemmas org_handler_defs =
  handleCreateOrg_def handleGetOrg_def handleListOrgs_def handleAddOrgMember_def
  handleRemoveOrgMember_def handleListOrgMembers_def handleGetUserOrgs_def

lemmas group_handler_defs =
  handleCreateGroup_def handleGetGroup_def handleListGroups_def handleAddGroupMember_def
  handleRemoveGroupMember_def handleListGroupMembers_def handleGetUserGroups_def

lemmas handler_splits = prod.splits sum.splits option.splits if_splits


section \<open>What every handler does\<close>

text \<open>
  A response answers a request if it carries its id and is either an error with a text or a
  success without one.
\<close>

definition answers :: "string \<Rightarrow> JSONResponse \<Rightarrow> bool" where
  "answers requestID resp \<longleftrightarrow> jp_RequestID resp = requestID \<and>
     (jp_Status resp = ''error'' \<and> jp_Error resp \<noteq> [] \<and> jp_Payload resp = None \<or>
      jp_Status resp \<in> {''success'', ''pong''} \<and> jp_Error resp = [])"

lemma answers_simps [simp]:
  "answers i (errorResp i msg) \<longleftrightarrow> msg \<noteq> []"
  "answers i (successResp i p)"
  "answers i \<lparr>jp_Status = ''pong'', jp_Payload = None, jp_RequestID = i, jp_Error = []\<rparr>"
  by (auto simp: answers_def errorResp_def successResp_def)

definition sound_handler :: "(MemoryStore, MemorySyncJobStore, MemoryOrgStore, MemoryGroupStore) ActionHandler \<Rightarrow> bool" where
  "sound_handler h \<longleftrightarrow> (\<forall>lower auth env payload i w resp w'. world_inv w \<longrightarrow>
     h (memory_services_of lower auth) env payload i w = Some (resp, w') \<longrightarrow>
     answers i resp \<and> world_inv w')"

lemma sound_handlerI:
  assumes "\<And>lower auth env payload i w resp w'. world_inv w \<Longrightarrow>
     h (memory_services_of lower auth) env payload i w = Some (resp, w') \<Longrightarrow> answers i resp \<and> world_inv w'"
  shows "sound_handler h"
  using assms unfolding sound_handler_def by blast

lemma VerifyCredentials_errors:
  "VerifyCredentials st auth u p s = Inl err \<Longrightarrow> err = ErrInvalidCredentials \<or> err = ErrUserDisabled"
  by (auto simp: VerifyCredentials_def split: sum.splits if_splits)

lemma sound_user_handlers:
  "sound_handler handleAuth" "sound_handler handleGetUser" "sound_handler handleTriggerSync"
  "sound_handler handlePing"
  by (rule sound_handlerI; force simp: user_handler_defs Let_def world_inv_def split: handler_splits
      dest: VerifyCredentials_errors)+

lemma sound_org_handlers:
  "sound_handler handleCreateOrg" "sound_handler handleGetOrg" "sound_handler handleListOrgs"
  "sound_handler handleAddOrgMember" "sound_handler handleRemoveOrgMember"
  "sound_handler handleListOrgMembers" "sound_handler handleGetUserOrgs"
  by (rule sound_handlerI; auto simp: org_handler_defs Let_def world_inv_def split: handler_splits
      dest: org_methods_inv)+

lemma sound_group_handlers:
  "sound_handler handleCreateGroup" "sound_handler handleGetGroup" "sound_handler handleListGroups"
  "sound_handler handleAddGroupMember" "sound_handler handleRemoveGroupMember"
  "sound_handler handleListGroupMembers" "sound_handler handleGetUserGroups"
  by (rule sound_handlerI; auto simp: group_handler_defs Let_def world_inv_def split: handler_splits
      dest: group_methods_inv)+

lemmas sound_handlers = sound_user_handlers sound_org_handlers sound_group_handlers

lemma registry_sound: "NewHandlerRegistry action = Some h \<Longrightarrow> sound_handler h"
  by (auto simp: NewHandlerRegistry_def register_def sound_handlers split: if_splits)


section \<open>Panics\<close>

definition list_orgs_offset :: "json option \<Rightarrow> int" where
  "list_orgs_offset payload =
     lop_Offset (fst (raw_Unmarshal ListOrgsPayload_fields payload \<lparr>lop_Offset = 0, lop_Limit = 0\<rparr>))"

definition list_groups_offset :: "json option \<Rightarrow> int" where
  "list_groups_offset payload =
     lgp_Offset (fst (raw_Unmarshal ListGroupsPayload_fields payload \<lparr>lgp_Offset = 0, lgp_Limit = 0\<rparr>))"

lemma handleListOrgs_crash:
  assumes "length (ev_order env) < 2 ^ 62"
  shows "handleListOrgs (memory_services_of lower auth) env payload i w = None \<longleftrightarrow> list_orgs_offset payload < 0"
proof -
  obtain p ok where dec: "raw_Unmarshal ListOrgsPayload_fields payload \<lparr>lop_Offset = 0, lop_Limit = 0\<rparr> = (p, ok)"
    by force
  then show ?thesis
    using ListOrgs_crash [OF assms, of "lop_Offset p" "lop_Limit p" "w_orgs w"]
    by (auto simp: handleListOrgs_def list_orgs_offset_def split: option.splits sum.splits)
qed

lemma handleListGroups_crash:
  assumes "length (ev_order env) < 2 ^ 62"
  shows "handleListGroups (memory_services_of lower auth) env payload i w = None \<longleftrightarrow> list_groups_offset payload < 0"
proof -
  obtain p ok where dec: "raw_Unmarshal ListGroupsPayload_fields payload \<lparr>lgp_Offset = 0, lgp_Limit = 0\<rparr> = (p, ok)"
    by force
  then show ?thesis
    using ListGroups_crash [OF assms, of "lgp_Offset p" "lgp_Limit p" "w_groups w"]
    by (auto simp: handleListGroups_def list_groups_offset_def split: option.splits sum.splits)
qed

text \<open>No other handler panics, over any stores.\<close>

lemma no_crash_user:
  "handleAuth sv env payload i w \<noteq> None" "handleGetUser sv env payload i w \<noteq> None"
  "handleTriggerSync sv env payload i w \<noteq> None" "handlePing sv env payload i w \<noteq> None"
  by (auto simp: user_handler_defs Let_def split: prod.split sum.split)

lemma no_crash_org:
  "handleCreateOrg sv env payload i w \<noteq> None" "handleGetOrg sv env payload i w \<noteq> None"
  "handleAddOrgMember sv env payload i w \<noteq> None" "handleRemoveOrgMember sv env payload i w \<noteq> None"
  "handleListOrgMembers sv env payload i w \<noteq> None" "handleGetUserOrgs sv env payload i w \<noteq> None"
  by (auto simp: org_handler_defs Let_def split: prod.split sum.split)

lemma no_crash_group:
  "handleCreateGroup sv env payload i w \<noteq> None" "handleGetGroup sv env payload i w \<noteq> None"
  "handleAddGroupMember sv env payload i w \<noteq> None" "handleRemoveGroupMember sv env payload i w \<noteq> None"
  "handleListGroupMembers sv env payload i w \<noteq> None" "handleGetUserGroups sv env payload i w \<noteq> None"
  by (auto simp: group_handler_defs Let_def split: prod.split sum.split)


section \<open>Properties of the handlers\<close>

text \<open>
  C19: whatever request arrives, the answer carries its id and is either an error with a
  text and no payload or a success without an error text, an action that is not registered
  is answered with an error that names it, and the stores keep their invariants.
\<close>

theorem every_request_answered:
  assumes "world_inv w" and "Handle (memory_services_of lower auth) env req w = Some (resp, w')"
  shows "answers (jq_RequestID req) resp \<and> world_inv w' \<and>
         (jq_Action req \<notin> dom (NewHandlerRegistry :: string \<rightharpoonup> (MemoryStore, MemorySyncJobStore, MemoryOrgStore,
              MemoryGroupStore) ActionHandler) \<longrightarrow>
            w' = w \<and> jp_Error resp = ''unknown action: '' @ jq_Action req)"
proof (cases "(NewHandlerRegistry :: string \<rightharpoonup> (MemoryStore, MemorySyncJobStore, MemoryOrgStore,
    MemoryGroupStore) ActionHandler) (jq_Action req)")
  case None
  with assms show ?thesis by (auto simp: Handle_def errorResp_def answers_def)
next
  case (Some h)
  then have "sound_handler h" by (rule registry_sound)
  with assms Some show ?thesis unfolding sound_handler_def by (auto simp: Handle_def)
qed

theorem every_request_answered_witness:
  "answers ''7'' (errorResp ''7'' ''unknown action: nope'') \<and> world_inv empty_world"
  using every_request_answered [OF world_inv_empty, of ascii_ToLower sample_auth
      "\<lparr>ev_now = 0, ev_now' = 0, ev_now'' = 0, ev_uuid = [], ev_order = []\<rparr>"
      "\<lparr>jq_Action = ''nope'', jq_Payload = None, jq_RequestID = ''7''\<rparr>"
      "errorResp ''7'' ''unknown action: nope''" empty_world]
  by (simp add: Handle_def NewHandlerRegistry_def register_def)

text \<open>
  C20: a request makes the server panic exactly when it lists organizations or groups from a
  negative offset; the offset is what decoding left in the field, even if decoding failed.
\<close>

theorem crash_exactly_on_negative_offset:
  assumes "length (ev_order env) < 2 ^ 62"
  shows "Handle (memory_services_of lower auth) env req w = None \<longleftrightarrow>
     jq_Action req = ''list_orgs'' \<and> list_orgs_offset (jq_Payload req) < 0 \<or>
     jq_Action req = ''list_groups'' \<and> list_groups_offset (jq_Payload req) < 0"
  using handleListOrgs_crash [OF assms, of lower auth "jq_Payload req" "jq_RequestID req" w]
    handleListGroups_crash [OF assms, of lower auth "jq_Payload req" "jq_RequestID req" w]
  by (simp add: Handle_def NewHandlerRegistry_def register_def no_crash_user no_crash_org no_crash_group
      del: not_None_eq)

theorem crash_exactly_on_negative_offset_witness:
  "Handle (memory_services_of ascii_ToLower sample_auth)
     \<lparr>ev_now = 0, ev_now' = 0, ev_now'' = 0, ev_uuid = [], ev_order = []\<rparr>
     \<lparr>jq_Action = ''list_orgs'', jq_Payload = Some (JObject [(''offset'', JNumber ''-1'')]), jq_RequestID = ''7''\<rparr>
     empty_world = None"
  by (subst crash_exactly_on_negative_offset)
    (simp_all add: list_orgs_offset_def raw_Unmarshal_def ListOrgsPayload_fields_def find_field_def
      int_field_def strconv_ParseInt_def is_digit_def digits_value_def digit_value_def int64_def)

text \<open>
  The action \<open>auth\<close> succeeds exactly for the name and password of an active user and
  then returns that user's data; it changes nothing, in particular not the online flag.
\<close>

theorem auth_action_exact:
  assumes "world_inv w"
    and "jq_Action req = ''auth''"
    and "jq_Payload req = Some (JObject [(''username'', JString n), (''password'', JString p)])"
    and "n \<noteq> []" and "p \<noteq> []"
  shows "\<exists>resp. Handle (memory_services_of lower auth) env req w = Some (resp, w) \<and>
    (if \<exists>i u. ms_users (w_users w) i = Some u \<and> u_Username u = n \<and> u_Status u = UserStatusActive \<and> u_PasswordHash u = p
     then \<exists>r i u. jp_Status resp = ''success'' \<and> jp_Payload resp = Some (AuthResponse r) \<and>
            ms_users (w_users w) i = Some u \<and> u_Username u = n \<and> u_Status u = UserStatusActive \<and> u_PasswordHash u = p \<and>
            ar_UserID r = u_ID u \<and> ar_Username r = n \<and> ar_Email r = u_Email u
     else jp_Status resp = ''error'' \<and> jp_Payload resp = None)"
proof -
  let ?sv = "memory_services_of lower auth"
  have inv: "store_inv (w_users w)" using assms(1) by (simp add: world_inv_def)
  have dec: "raw_Unmarshal AuthPayload_fields (jq_Payload req) \<lparr>ap_Username = [], ap_Password = []\<rparr> =
      (\<lparr>ap_Username = n, ap_Password = p\<rparr>, True)"
    by (simp add: assms(3) raw_Unmarshal_def AuthPayload_fields_def find_field_def string_field_def)
  have h: "Handle ?sv env req w = handleAuth ?sv env (jq_Payload req) (jq_RequestID req) w"
    by (simp add: Handle_def assms(2) NewHandlerRegistry_def register_def)
  show ?thesis
  proof (cases "VerifyCredentials (MemoryStore_Store lower) auth n p (w_users w)")
    case (Inl e)
    then have "\<not> (\<exists>i u. ms_users (w_users w) i = Some u \<and> u_Username u = n \<and> u_Status u = UserStatusActive \<and> u_PasswordHash u = p)"
      using mem.verify_ok [OF inv, of lower auth n p] by auto
    with Inl assms(4,5) show ?thesis by (simp add: h handleAuth_def dec errorResp_def)
  next
    case (Inr u)
    then obtain i where u: "ms_users (w_users w) i = Some u" "u_Username u = n" "u_Status u = UserStatusActive"
      "u_PasswordHash u = p"
      using mem.verify_ok [OF inv, of lower auth n p u] by auto
    with Inr assms(4,5) show ?thesis by (auto simp: h handleAuth_def dec successResp_def)
  qed
qed

theorem auth_action_exact_witness:
  "\<exists>resp. Handle (memory_services_of ascii_ToLower sample_auth)
      \<lparr>ev_now = 0, ev_now' = 0, ev_now'' = 0, ev_uuid = [], ev_order = []\<rparr>
      \<lparr>jq_Action = ''auth'',
       jq_Payload = Some (JObject [(''username'', JString ''alice''), (''password'', JString ''wrong'')]),
       jq_RequestID = ''7''\<rparr>
      (empty_world\<lparr>w_users := alice_store\<rparr>) = Some (resp, empty_world\<lparr>w_users := alice_store\<rparr>) \<and>
    jp_Status resp = ''error''"
proof -
  let ?w = "empty_world\<lparr>w_users := alice_store\<rparr>"
  have "world_inv ?w" using world_inv_empty by (simp add: world_inv_def)
  from auth_action_exact [OF this, of "\<lparr>jq_Action = ''auth'',
       jq_Payload = Some (JObject [(''username'', JString ''alice''), (''password'', JString ''wrong'')]),
       jq_RequestID = ''7''\<rparr>" "''alice''" "''wrong''" ascii_ToLower sample_auth
       "\<lparr>ev_now = 0, ev_now' = 0, ev_now'' = 0, ev_uuid = [], ev_order = []\<rparr>"]
  show ?thesis by (auto simp: alice_store_eq [THEN arg_cong [where f = ms_users]] split: if_splits)
qed

end
