(* ===== verification/Uds_Server.thy ===== *)
theory Uds_Server
  imports Uds_Handler
begin

text \<open>
  The server on the Unix socket, \<open>internal/uds/server.go\<close>: the handshake that picks the
  codec and the loop that serves one connection. The bookkeeping of connections is in
  \<open>Uds_Connections\<close>.
\<close>

section \<open>Constants and construction\<close>

definition HandshakeTimeout :: int where
  "HandshakeTimeout = 5 * time_Second"

definition IdleTimeout :: int where
  "IdleTimeout = 60 * time_Second"

definition ProtocolVersion :: string where
  "ProtocolVersion = ''1.0''"


section \<open>The reader that gives bytes back\<close>

record lengthPrefixedReader =
  lp_lenBuf :: string
  lp_data :: string
  lp_pos :: nat
  lp_phase :: nat

text \<open>\<open>Read\<close> into a buffer of \<open>n\<close> bytes: the bytes copied, whether \<open>EOF\<close> is returned, and
  the reader afterwards.\<close>

definition lengthPrefixedReader_Read ::
  "nat \<Rightarrow> lengthPrefixedReader \<Rightarrow> (string \<times> bool) \<times> lengthPrefixedReader" where
  "lengthPrefixedReader_Read n r =
     (if lp_phase r = 0 \<and> lp_pos r < length (lp_lenBuf r)
      then let bs = take n (drop (lp_pos r) (lp_lenBuf r))
           in ((bs, False), r\<lparr>lp_pos := lp_pos r + length bs\<rparr>)
      else let r = (if lp_phase r = 0 then r\<lparr>lp_phase := 1, lp_pos := 0\<rparr> else r)
           in if lp_pos r \<ge> length (lp_data r) then (([], True), r)
              else let bs = take n (drop (lp_pos r) (lp_data r))
                   in ((bs, False), r\<lparr>lp_pos := lp_pos r + length bs\<rparr>))"

definition lp_pending :: "lengthPrefixedReader \<Rightarrow> string" where
  "lp_pending r = (if lp_phase r = 0 then drop (lp_pos r) (lp_lenBuf r) @ lp_data r
                   else drop (lp_pos r) (lp_data r))"

text \<open>
  The reader delivers the length bytes and then the data, a nonempty piece at a time, and
  \<open>EOF\<close> only after all of them: it is a stream with these two chunks.
\<close>

lemma drop_take_drop: "drop k xs = take n (drop k xs) @ drop (k + n) xs"
  by (metis add.commute append_take_drop_id drop_drop)

lemma lengthPrefixedReader_stream:
  assumes "lengthPrefixedReader_Read n r = ((bs, eof), r')" and "0 < n"
  shows "lp_pending r = bs @ lp_pending r' \<and> length bs \<le> n \<and> (bs = [] \<longleftrightarrow> eof) \<and> (eof \<longleftrightarrow> lp_pending r = [])"
  using assms
  by (auto simp: lengthPrefixedReader_Read_def lp_pending_def Let_def min_def drop_take_drop [symmetric]
      split: if_splits)

text \<open>\<open>byteReader\<close> delivers its byte together with \<open>EOF\<close>, so it is a chunk of one byte.\<close>

definition byteReader_Read :: "nat \<Rightarrow> char \<Rightarrow> string \<times> bool" where
  "byteReader_Read n b = (if n = 0 then ([], False) else ([b], True))"

text \<open>\<open>io.MultiReader\<close> of such a reader, or of \<open>byteReader\<close>, and the connection: the chunks of the
  first come before those of the second, and its \<open>EOF\<close> is passed over.\<close>

definition MultiReader :: "string list \<Rightarrow> instream \<Rightarrow> instream" where
  "MultiReader front conn = (front @ fst conn, snd conn)"


section \<open>The handshake\<close>

definition validateHandshake :: "HandshakeRequest \<Rightarrow> unit result" where
  "validateHandshake req =
     (if hs_Version req = [] then Inl (Errorf ''version is required'')
      else if hs_Format req \<noteq> FormatJSON \<and> hs_Format req \<noteq> FormatProtobuf
      then Inl (Errorf (''unsupported format: '' @ hs_Format req))
      else Inr ())"

text \<open>The part that both branches end with: check the request and answer it.\<close>

definition answer_handshake ::
  "'w Writer \<Rightarrow> Format \<Rightarrow> Codec \<Rightarrow> HandshakeRequest \<Rightarrow> instream \<Rightarrow> 'w
    \<Rightarrow> (Format \<times> Codec) result \<times> instream \<times> 'w" where
  "answer_handshake wr format codec req conn w =
     (case validateHandshake req of
        Inl err \<Rightarrow>
          let (_, w) = WriteHandshake codec wr
                \<lparr>hr_Status = ''error'', hr_Version = [], hr_Format = [], hr_ErrorMessage = error_text err\<rparr> w
          in (Inl err, conn, w)
      | Inr _ \<Rightarrow>
          (case WriteHandshake codec wr
                  \<lparr>hr_Status = ''ok'', hr_Version = ProtocolVersion, hr_Format = format, hr_ErrorMessage = []\<rparr> w of
             (Inl err, w) \<Rightarrow> (Inl err, conn, w)
           | (Inr _, w) \<Rightarrow> (Inr (format, codec), conn, w)))"

definition performHandshake ::
  "'w Writer \<Rightarrow> instream \<Rightarrow> 'w \<Rightarrow> (Format \<times> Codec) result \<times> instream \<times> 'w" where
  "performHandshake wr conn w =
     (case ReadFull 1 conn of
        (Inl err, conn) \<Rightarrow> (Inl (Errorf (''failed to read first byte: '' @ error_text err)), conn, w)
      | (Inr firstByte, conn) \<Rightarrow>
          if firstByte = ''{'' then
            (case ReadHandshake JSONCodec (MultiReader [firstByte] conn) of
               (Inl err, conn) \<Rightarrow> (Inl (Errorf (''invalid JSON handshake: '' @ error_text err)), conn, w)
             | (Inr req, conn) \<Rightarrow> answer_handshake wr FormatJSON JSONCodec req conn w)
          else
            (case ReadFull 3 conn of
               (Inl err, conn) \<Rightarrow> (Inl (Errorf (''failed to read protobuf length: '' @ error_text err)), conn, w)
             | (Inr remaining, conn) \<Rightarrow>
                 let lenBuf = firstByte @ remaining;
                     msgLen = Uint32 lenBuf
                 in if msgLen > word_of_nat MaxMessageSize
                    then (Inl (Errorf (''handshake message too large: '' @ nat_literal (unat msgLen))), conn, w)
                    else (case ReadFull (unat msgLen) conn of
                            (Inl err, conn) \<Rightarrow>
                              (Inl (Errorf (''failed to read handshake body: '' @ error_text err)), conn, w)
                          | (Inr msgBuf, conn) \<Rightarrow>
                              (case ReadHandshake ProtobufCodec (MultiReader [lenBuf, msgBuf] conn) of
                                 (Inl err, conn) \<Rightarrow>
                                   (Inl (Errorf (''invalid protobuf handshake: '' @ error_text err)), conn, w)
                               | (Inr req, conn) \<Rightarrow> answer_handshake wr FormatProtobuf ProtobufCodec req conn w))))"


section \<open>Serving a connection\<close>

text \<open>
  The loop of \<open>handleConn\<close>. The list holds the surroundings of the requests in turn; when
  it is used up, the context was cancelled or the connection closed by the server.
\<close>

datatype conn_end = Stopped | ReadFailed error | WriteFailed error | Crashed

fun serve ::
  "Codec \<Rightarrow> 'w Writer \<Rightarrow> ('u, 'j, 'o, 'g) services \<Rightarrow> env list \<Rightarrow> instream \<Rightarrow> 'w \<Rightarrow> ('u, 'j, 'o, 'g) world
    \<Rightarrow> conn_end \<times> instream \<times> 'w \<times> ('u, 'j, 'o, 'g) world" where
  "serve codec wr sv [] conn w st = (Stopped, conn, w, st)"
| "serve codec wr sv (env # envs) conn w st =
     (case ReadRequest codec conn of
        (Inl err, conn) \<Rightarrow> (ReadFailed err, conn, w, st)
      | (Inr req, conn) \<Rightarrow>
          (case Handle sv env req st of
             None \<Rightarrow> (Crashed, conn, w, st)
           | Some (resp, st) \<Rightarrow>
               (case WriteResponse codec wr resp w of
                  (Inl err, w) \<Rightarrow> (WriteFailed err, conn, w, st)
                | (Inr _, w) \<Rightarrow> serve codec wr sv envs conn w st)))"

definition handleConn ::
  "'w Writer \<Rightarrow> ('u, 'j, 'o, 'g) services \<Rightarrow> env list \<Rightarrow> instream \<Rightarrow> 'w \<Rightarrow> ('u, 'j, 'o, 'g) world
    \<Rightarrow> conn_end option \<times> instream \<times> 'w \<times> ('u, 'j, 'o, 'g) world" where
  "handleConn wr sv envs conn w st =
     (case performHandshake wr conn w of
        (Inl _, conn, w) \<Rightarrow> (None, conn, w, st)
      | (Inr (format, codec), conn, w) \<Rightarrow>
          (case serve codec wr sv envs conn w st of
             (how, conn, w, st) \<Rightarrow> (Some how, conn, w, st)))"


section \<open>Facts about the handshake\<close>

lemma read_full_one:
  assumes "concat cs = c # s" and "[] \<notin> set cs"
  shows "\<exists>cs'. ReadFull 1 (cs, e) = (Inr [c], (cs', e)) \<and> concat cs' = s \<and> [] \<notin> set cs' \<and>
           (\<forall>cs2. ReadFull 1 (cs @ cs2, e) = (Inr [c], (cs' @ cs2, e)))"
proof -
  obtain d ds where cs: "cs = d # ds" "d \<noteq> []" using assms by (cases cs) auto
  then obtain d' where d: "d = c # d'" using assms(1) by (cases d) auto
  have s: "s = d' @ concat ds" using assms(1) cs d by simp
  show ?thesis
  proof (cases d')
    case Nil
    then show ?thesis using cs d s assms(2) by (intro exI [of _ ds]) (simp add: numeral_1_eq_Suc_0)
  next
    case (Cons x y)
    then show ?thesis using cs d s assms(2)
      by (intro exI [of _ "d' # ds"]) (auto simp: numeral_1_eq_Suc_0)
  qed
qed

lemma decode_handshake_json:
  assumes "json_ok maxNestingDepth (HandshakeRequest_json req)"
  shows "decode_handshake (json_Marshal (HandshakeRequest_json req)) = Inr req"
proof -
  have "map (\<lambda>w. case w of JString s \<Rightarrow> s | _ \<Rightarrow> []) (map JString vs) = vs" for vs
    by (induction vs) auto
  moreover have "list_all (\<lambda>w. case w of JString s \<Rightarrow> True | JNull \<Rightarrow> True | _ \<Rightarrow> False) (map JString vs)" for vs
    by (induction vs) auto
  ultimately have "decode_struct HandshakeRequest_fields (HandshakeRequest_json req) zero_HandshakeRequest = (req, True)"
    by (auto simp: HandshakeRequest_json_def HandshakeRequest_fields_def find_field_def field_defs
        zero_HandshakeRequest_def Let_def comp_def)
  then show ?thesis by (simp add: decode_handshake_def Unmarshal_Marshal [OF assms])
qed

lemma HandshakeRequest_first:
  obtains s where "json_Marshal (HandshakeRequest_json req) = CHR ''{'' # s"
  by (simp add: HandshakeRequest_json_def)

lemma answer_handshake_ok:
  assumes "validateHandshake req = Inr ()"
  shows "answer_handshake buffer_Write format JSONCodec req conn w =
           (Inr (format, JSONCodec), conn, w @ json_Marshal (HandshakeResponse_json
              \<lparr>hr_Status = ''ok'', hr_Version = ProtocolVersion, hr_Format = format, hr_ErrorMessage = []\<rparr>) @ [newline])"
    and "answer_handshake buffer_Write format ProtobufCodec req conn w =
           (Inr (format, ProtobufCodec), conn, w @ frame (json_Marshal (HandshakeResponse_json
              \<lparr>hr_Status = ''ok'', hr_Version = ProtocolVersion, hr_Format = format, hr_ErrorMessage = []\<rparr>)))"
  using assms by (simp_all add: answer_handshake_def JSONCodec_WriteHandshake_def
      ProtobufCodec_WriteHandshake_def writeLengthPrefixed_buffer, simp add: buffer_Write_def)

text \<open>The first byte of a frame is the lowest byte of its length.\<close>

lemma frame_first: "frame data = char_of (length data mod 256) # tl (frame data)"
proof -
  have "unat (word_of_nat (length data) :: 32 word) mod 256 = length data mod 256"
    by (simp add: unat_of_nat mod_mod_cancel)
  then have "char_of (unat (word_of_nat (length data) :: 32 word)) = (char_of (length data mod 256) :: char)"
    by (metis char_of_mod_256)
  then show ?thesis by (simp add: frame_def PutUint32_def)
qed


lemma frame_first_brace: "frame data = c # s \<Longrightarrow> c = CHR ''{'' \<longleftrightarrow> length data mod 256 = 123"
proof -
  assume "frame data = c # s"
  with frame_first [of data] have c: "c = char_of (length data mod 256)" by simp
  have "(of_char c :: nat) = length data mod 256" by (simp add: c)
  moreover have "(of_char (CHR ''{'') :: nat) = 123" by simp
  ultimately show ?thesis by (metis of_char_eq_iff)
qed

text \<open>A text that starts with a brace and a zero byte is no JSON.\<close>

lemma json_Parse_brace_zero: "json_Parse (CHR ''{'' # CHR 0x00 # s) = None"
  by (simp add: json_Parse_def maxNestingDepth_def skip_space_def is_space_def numeral_2_eq_2)


section \<open>Properties of the handshake\<close>

text \<open>
  A JSON handshake line that names a version and one of the two formats is accepted:
  the server answers with version 1.0 and from then on talks JSON, also when the line asks
  for \<open>protobuf\<close>. The bytes after the line are untouched if no chunk reaches beyond it.
\<close>

theorem json_handshake_accepted:
  assumes "json_ok maxNestingDepth (HandshakeRequest_json req)"
    and "hs_Version req \<noteq> []" and "hs_Format req \<in> {FormatJSON, FormatProtobuf}"
    and "line = json_Marshal (HandshakeRequest_json req)" and "length line < 65536"
    and "concat cs1 = line @ [newline]" and "[] \<notin> set cs1"
  shows "performHandshake buffer_Write (cs1 @ cs2, e) w =
    (Inr (FormatJSON, JSONCodec), (cs2, e), w @ json_Marshal (HandshakeResponse_json
       \<lparr>hr_Status = ''ok'', hr_Version = ''1.0'', hr_Format = ''json'', hr_ErrorMessage = []\<rparr>) @ [newline])"
proof -
  obtain s where s: "line = CHR ''{'' # s" using assms(4) HandshakeRequest_first by metis
  from read_full_one [of cs1 "CHR ''{''" "s @ [newline]" e] obtain cs' where
    r: "ReadFull 1 (cs1 @ cs2, e) = (Inr ''{'', (cs' @ cs2, e))" and cs': "concat cs' = s @ [newline]" "[] \<notin> set cs'"
    using assms(6,7) s by auto
  have one: "newline \<notin> set line" "dropCR line = line"
    using Marshal_one_line [OF assms(1)] assms(4) by simp_all
  have "default_scan (''{'' # cs' @ cs2, e) = (Inr line, (cs2, e))"
    unfolding default_scan_def using one cs' s assms(5)
      scan_loop_line [of "[]" "''{'' # cs'" line MaxScanTokenSize 0 cs2 e]
    by (simp add: MaxScanTokenSize_def)
  then have h: "ReadHandshake JSONCodec (MultiReader [''{''] (cs' @ cs2, e)) = (Inr req, (cs2, e))"
    using decode_handshake_json [OF assms(1)] assms(4)
    by (simp add: JSONCodec_ReadHandshake_def MultiReader_def)
  have "validateHandshake req = Inr ()" using assms(2,3) by (auto simp: validateHandshake_def)
  from answer_handshake_ok(1) [OF this] show ?thesis
    by (simp add: performHandshake_def r [unfolded One_nat_def]
        h [simplified] ProtocolVersion_def FormatJSON_def)
qed

definition sample_handshake :: HandshakeRequest where
  "sample_handshake = \<lparr>hs_Version = ''1.0'', hs_Format = ''json'', hs_SupportedVersions = []\<rparr>"

lemma sample_handshake_ok: "json_ok maxNestingDepth (HandshakeRequest_json sample_handshake)"
  by (simp add: HandshakeRequest_json_def sample_handshake_def maxNestingDepth_def valid_utf8.simps)

lemma sample_handshake_text:
  "json_Marshal (HandshakeRequest_json sample_handshake) =
     [CHR ''{'', CHR 0x22] @ ''version'' @ [CHR 0x22, CHR '':'', CHR 0x22] @ ''1.0'' @
     [CHR 0x22, CHR '','', CHR 0x22] @ ''format'' @ [CHR 0x22, CHR '':'', CHR 0x22] @ ''json'' @ [CHR 0x22, CHR ''}'']"
  by (simp add: HandshakeRequest_json_def sample_handshake_def quote_string_def escape.simps escape_byte_def)

theorem json_handshake_accepted_witness:
  "fst (performHandshake buffer_Write
     ([json_Marshal (HandshakeRequest_json sample_handshake) @ [newline]], EOF) []) = Inr (FormatJSON, JSONCodec)"
  using json_handshake_accepted [OF sample_handshake_ok _ _ refl,
      of "[json_Marshal (HandshakeRequest_json sample_handshake) @ [newline]]" "[]" EOF "[]"]
  by (simp add: sample_handshake_text) (simp add: sample_handshake_def FormatJSON_def)

text \<open>
  C30: a length-prefixed handshake that names a version and one of the two formats is
  accepted however it is cut into chunks, and leaves exactly the bytes behind it, unless
  the lowest byte of its length is 123, the code of an opening brace.
\<close>

theorem protobuf_handshake_accepted:
  assumes "json_ok maxNestingDepth (HandshakeRequest_json req)"
    and "hs_Version req \<noteq> []" and "hs_Format req \<in> {FormatJSON, FormatProtobuf}"
    and "data = json_Marshal (HandshakeRequest_json req)" and "length data \<le> MaxMessageSize"
    and "length data mod 256 \<noteq> 123"
    and "pending conn = frame data @ rest"
  shows "\<exists>conn'. pending conn' = rest \<and> performHandshake buffer_Write conn w =
    (Inr (FormatProtobuf, ProtobufCodec), conn', w @ frame (json_Marshal (HandshakeResponse_json
       \<lparr>hr_Status = ''ok'', hr_Version = ''1.0'', hr_Format = ''protobuf'', hr_ErrorMessage = []\<rparr>)))"
proof -
  obtain cs e where conn: "conn = (cs, e)" by force
  have len: "length data < 2 ^ 32" using assms(5) by (simp add: MaxMessageSize_def)
  let ?hd = "PutUint32 (word_of_nat (length data))"
  obtain c h where hd: "?hd = c # h" and h: "length h = 3" by (simp add: PutUint32_def)
  have p: "pending (cs, e) = c # h @ data @ rest" using assms(7) conn hd by (simp add: frame_def)
  have c: "[c] \<noteq> ''{''" using frame_first_brace [of data c "h @ data"] assms(6) hd by (simp add: frame_def)
  obtain cs1 where r1: "ReadFull 1 (cs, e) = (Inr [c], (cs1, e))" "pending (cs1, e) = h @ data @ rest"
    using read_full_ok [of 1 cs e False] p by auto
  obtain cs2 where r2: "ReadFull 3 (cs1, e) = (Inr h, (cs2, e))" "pending (cs2, e) = data @ rest"
    using read_full_ok [of 3 cs1 e False] r1(2) h by auto
  obtain cs3 where r3: "ReadFull (length data) (cs2, e) = (Inr data, (cs3, e))" "pending (cs3, e) = rest"
    using read_full_ok [of "length data" cs2 e False] r2(2) by auto
  have "pending (?hd # data # cs3, e) = frame data @ rest" using r3(2) by (simp add: pending_def frame_def)
  from readLengthPrefixed_frame [OF this assms(5)] obtain cs4 where
    "readLengthPrefixed (?hd # data # cs3, e) = (Inr data, (cs4, e))" and r4: "pending (cs4, e) = rest" by blast
  then have rh: "ReadHandshake ProtobufCodec (MultiReader [?hd, data] (cs3, e)) = (Inr req, (cs4, e))"
    using decode_handshake_json [OF assms(1)] assms(4)
    by (simp add: ProtobufCodec_ReadHandshake_def MultiReader_def)
  have "validateHandshake req = Inr ()" using assms(2,3) by (auto simp: validateHandshake_def)
  from answer_handshake_ok(2) [OF this] rh hd r4 show ?thesis
    using frame_too_large [OF len] assms(5) c r1(1) [unfolded One_nat_def] r2(1) r3(1) Uint32_PutUint32 [of "word_of_nat (length data)"]
    by (auto simp: performHandshake_def conn unat_length [OF len] Let_def ProtocolVersion_def FormatProtobuf_def)
qed

theorem protobuf_handshake_accepted_witness:
  "fst (performHandshake buffer_Write
     ([frame (json_Marshal (HandshakeRequest_json sample_handshake))], EOF) []) = Inr (FormatProtobuf, ProtobufCodec)"
proof -
  have "length (json_Marshal (HandshakeRequest_json sample_handshake)) = 33" by (simp add: sample_handshake_text)
  moreover have "hs_Version sample_handshake \<noteq> []" "hs_Format sample_handshake \<in> {FormatJSON, FormatProtobuf}"
    by (simp_all add: sample_handshake_def FormatJSON_def)
  moreover have "pending ([frame (json_Marshal (HandshakeRequest_json sample_handshake))], EOF) =
      frame (json_Marshal (HandshakeRequest_json sample_handshake)) @ []"
    by (simp add: pending_def)
  ultimately show ?thesis
    using protobuf_handshake_accepted [OF sample_handshake_ok _ _ refl,
        of "([frame (json_Marshal (HandshakeRequest_json sample_handshake))], EOF)" "[]" "[]"]
    by (auto simp: MaxMessageSize_def)
qed

text \<open>
  A length-prefixed handshake of 123 bytes is always refused, whatever it says: its
  first byte is taken for the start of a JSON line.
\<close>

theorem handshake_of_123_bytes_refused:
  assumes "length data = 123" and "pending conn = frame data @ rest"
  shows "\<exists>err conn'. performHandshake wr conn w =
           (Inl (Errorf (''invalid JSON handshake: '' @ error_text err)), conn', w)"
proof -
  obtain cs e where conn: "conn = (cs, e)" by force
  have hd: "PutUint32 (word_of_nat (length data)) = [CHR ''{'', CHR 0x00, CHR 0x00, CHR 0x00]"
    by (simp add: assms(1) PutUint32_def char_of_def bit_iff_odd_drop_bit)
  have p: "pending (cs, e) = CHR ''{'' # CHR 0x00 # CHR 0x00 # CHR 0x00 # data @ rest"
    using assms(2) conn hd by (simp add: frame_def)
  obtain cs1 where r1: "ReadFull 1 (cs, e) = (Inr ''{'', (cs1, e))"
    and p1: "pending (cs1, e) = CHR 0x00 # CHR 0x00 # CHR 0x00 # data @ rest"
    using read_full_ok [of 1 cs e False] p by auto
  let ?st = "(''{'' # cs1, e)"
  obtain tok st' where scan: "default_scan ?st = (tok, st')" by (cases "default_scan ?st")
  have "decode_handshake line = Inl ErrJSON" if "tok = Inr line" for line
  proof -
    have "line = dropCR (takeWhile (\<lambda>c. c \<noteq> newline) (concat (''{'' # cs1)))"
      using scan_loop_token [of MaxScanTokenSize 0 "[]" "''{'' # cs1" e line st'] scan that
      by (simp add: default_scan_def)
    also have "\<dots> = dropCR (CHR ''{'' # CHR 0x00 # CHR 0x00 # CHR 0x00 # takeWhile (\<lambda>c. c \<noteq> newline) (data @ rest))"
      using p1 by (simp add: pending_def newline_def)
    also have "\<dots> = CHR ''{'' # CHR 0x00 # drop 2 \<dots>" by (simp add: dropCR_def)
    finally have "json_Parse line = None" using json_Parse_brace_zero by metis
    then show ?thesis by (simp add: decode_handshake_def json_Unmarshal_def)
  qed
  then have "\<exists>err. ReadHandshake JSONCodec (MultiReader [''{''] (cs1, e)) = (Inl err, st')"
    using scan by (cases tok) (auto simp: JSONCodec_ReadHandshake_def MultiReader_def)
  then show ?thesis by (auto simp: performHandshake_def conn r1 [unfolded One_nat_def])
qed

theorem handshake_of_123_bytes_refused_witness:
  "\<exists>err conn'. performHandshake buffer_Write ([frame (replicate 123 CHR ''x'')], EOF) [] =
     (Inl (Errorf (''invalid JSON handshake: '' @ error_text err)), conn', [])"
  by (rule handshake_of_123_bytes_refused [of "replicate 123 CHR ''x''" _ "[]"]) (simp_all add: pending_def)


section \<open>Serving many requests\<close>

text \<open>What the handlers answer to a sequence of requests, one after the other.\<close>

fun answer_all ::
  "('u, 'j, 'o, 'g) services \<Rightarrow> (env \<times> JSONRequest) list \<Rightarrow> ('u, 'j, 'o, 'g) world
    \<Rightarrow> (JSONResponse list \<times> ('u, 'j, 'o, 'g) world) option" where
  "answer_all sv [] st = Some ([], st)"
| "answer_all sv ((env, req) # rs) st =
     (case Handle sv env req st of
        None \<Rightarrow> None
      | Some (resp, st) \<Rightarrow> map_option (\<lambda>(resps, st). (resp # resps, st)) (answer_all sv rs st))"

definition request_text :: "JSONRequest \<Rightarrow> string" where
  "request_text req = json_Marshal (JSONRequest_json req)"

definition response_text :: "JSONResponse \<Rightarrow> string" where
  "response_text resp = json_Marshal (JSONResponse_json resp)"

definition sendable :: "JSONRequest \<Rightarrow> bool" where
  "sendable req \<longleftrightarrow> json_ok maxNestingDepth (JSONRequest_json req) \<and> jq_Payload req \<noteq> None \<and>
     length (request_text req) \<le> MaxMessageSize"

lemma ReadRequest_frame:
  assumes "sendable req" and "pending (cs, e) = frame (request_text req) @ rest"
  shows "\<exists>cs'. ReadRequest ProtobufCodec (cs, e) = (Inr req, (cs', e)) \<and> pending (cs', e) = rest"
proof -
  from assms obtain cs' where "readLengthPrefixed (cs, e) = (Inr (request_text req), (cs', e))"
    and "pending (cs', e) = rest"
    using readLengthPrefixed_frame [of cs e "request_text req" rest] by (auto simp: sendable_def)
  then show ?thesis
    using assms(1) decode_request_json [of req] by (simp add: ProtobufCodec_ReadRequest_def sendable_def request_text_def)
qed

lemma ReadRequest_end: "pending (cs, EOF) = [] \<Longrightarrow> fst (ReadRequest ProtobufCodec (cs, EOF)) = Inl EOF"
  using read_full_short [of cs EOF 4 False]
  by (auto simp: ProtobufCodec_ReadRequest_def readLengthPrefixed_def split: prod.split)

lemma serve_frames:
  "list_all sendable reqs \<Longrightarrow> pending (cs, EOF) = concat (map (\<lambda>r. frame (request_text r)) reqs) \<Longrightarrow>
   length envs = length reqs \<Longrightarrow> answer_all sv (zip envs reqs) st = Some (resps, st') \<Longrightarrow>
   \<exists>conn'. serve ProtobufCodec buffer_Write sv (envs @ [env]) (cs, EOF) w st =
     (ReadFailed EOF, conn', w @ concat (map (\<lambda>r. frame (response_text r)) resps), st')"
proof (induction reqs arbitrary: cs envs st resps w)
  case Nil
  then show ?case using ReadRequest_end [of cs] by (auto split: prod.split)
next
  case (Cons req reqs)
  obtain env' envs' where envs: "envs = env' # envs'" "length envs' = length reqs"
    using Cons.prems(3) by (cases envs) auto
  obtain resp st1 resps' where h: "Handle sv env' req st = Some (resp, st1)"
    and rest: "answer_all sv (zip envs' reqs) st1 = Some (resps', st')" and resps: "resps = resp # resps'"
    using Cons.prems(4) envs by (auto split: option.splits)
  obtain cs' where r: "ReadRequest ProtobufCodec (cs, EOF) = (Inr req, (cs', EOF))"
    and p: "pending (cs', EOF) = concat (map (\<lambda>r. frame (request_text r)) reqs)"
    using ReadRequest_frame [of req cs EOF "concat (map (\<lambda>r. frame (request_text r)) reqs)"] Cons.prems(1,2) by auto
  have "list_all sendable reqs" using Cons.prems(1) by simp
  from Cons.IH [OF this p envs(2) rest, of "w @ frame (response_text resp)"] obtain conn' where
    "serve ProtobufCodec buffer_Write sv (envs' @ [env]) (cs', EOF) (w @ frame (response_text resp)) st1 =
      (ReadFailed EOF, conn', (w @ frame (response_text resp)) @ concat (map (\<lambda>r. frame (response_text r)) resps'), st')"
    by blast
  then show ?case
    using envs r h resps
    by (simp add: ProtobufCodec_WriteResponse_def writeLengthPrefixed_buffer response_text_def)
qed

text \<open>
  C10: over length-prefixed frames a client may send as many requests as it likes without
  waiting: they are answered one by one in the order they were sent, each as the handlers
  answer it in the state its predecessors left, and the connection ends when the client
  closes it.
\<close>

theorem framed_requests_served_in_order:
  assumes "list_all sendable reqs"
    and "pending conn = concat (map (\<lambda>r. frame (request_text r)) reqs)" and "snd conn = EOF"
    and "length envs = length reqs" and "answer_all sv (zip envs reqs) st = Some (resps, st')"
  shows "\<exists>conn'. serve ProtobufCodec buffer_Write sv (envs @ [env]) conn w st =
     (ReadFailed EOF, conn', w @ concat (map (\<lambda>r. frame (response_text r)) resps), st')"
  using serve_frames [of reqs "fst conn" envs sv st resps st' env w] assms by (cases conn) auto

theorem framed_requests_served_in_order_witness:
  "\<exists>conn'. serve ProtobufCodec buffer_Write (memory_services_of ascii_ToLower sample_auth)
     [\<lparr>ev_now = 0, ev_now' = 0, ev_now'' = 0, ev_uuid = [], ev_order = []\<rparr>,
      \<lparr>ev_now = 0, ev_now' = 0, ev_now'' = 0, ev_uuid = [], ev_order = []\<rparr>]
     ([frame (request_text sample_request)], EOF) [] empty_world =
     (ReadFailed EOF, conn', frame (response_text \<lparr>jp_Status = ''pong'', jp_Payload = None,
        jp_RequestID = ''7'', jp_Error = []\<rparr>), empty_world)"
proof -
  let ?env = "\<lparr>ev_now = 0, ev_now' = 0, ev_now'' = 0, ev_uuid = [], ev_order = []\<rparr>"
  let ?sv = "memory_services_of ascii_ToLower sample_auth"
  let ?pong = "\<lparr>jp_Status = ''pong'', jp_Payload = None, jp_RequestID = ''7'', jp_Error = []\<rparr>"
  have "length sample_text \<le> MaxMessageSize" by (simp add: sample_text_eq MaxMessageSize_def)
  then have "list_all sendable [sample_request]"
    using sample_request_ok by (simp add: sendable_def request_text_def sample_text_def sample_request_def)
  moreover have "answer_all ?sv (zip [?env] [sample_request]) empty_world = Some ([?pong], empty_world)"
    by (simp add: Handle_def sample_request_def NewHandlerRegistry_def register_def handlePing_def)
  ultimately show ?thesis
    using framed_requests_served_in_order [of "[sample_request]" "([frame (request_text sample_request)], EOF)"
        "[?env]" ?sv empty_world "[?pong]" empty_world ?env "[]"]
    by (simp add: pending_def)
qed

end
