(* ===== verification/Uds_Connections.thy ===== *)
theory Uds_Connections
  imports Uds_Server
begin

text \<open>
  The connections of the server on the Unix socket, \<open>internal/uds/server.go\<close>: the struct
  \<open>Connection\<close>, the map and the counter of the struct \<open>Server\<close>, and the goroutines that work
  on them at the same time: the accept loop, one per connection, the idle checker, and the
  call of \<open>Stop\<close>. A goroutine is named by a number, which also names the \<open>Connection\<close> object
  that it owns, since the map holds pointers. Each step is an access that the code makes
  atomically or under no interference of the others.
\<close>

section \<open>Connections\<close>

record Connection =
  cn_id :: string
  cn_format :: Format
  cn_codec :: Codec
  cn_lastActive :: int
  cn_closed :: bool

definition newConnection :: "string \<Rightarrow> Format \<Rightarrow> int \<Rightarrow> Connection" where
  "newConnection cid format now =
     \<lparr>cn_id = cid, cn_format = format, cn_codec = NewCodec format, cn_lastActive = now, cn_closed = False\<rparr>"

definition LastActiveTime :: "Connection \<Rightarrow> time" where
  "LastActiveTime c = cn_lastActive c"

definition touch :: "int \<Rightarrow> Connection \<Rightarrow> Connection" where
  "touch now c = c\<lparr>cn_lastActive := now\<rparr>"

text \<open>\<open>closeOnce\<close> makes a second call do nothing; \<open>cn_closed\<close> stands for the closed channel
  \<open>closeCh\<close> and the closed socket.\<close>

definition Close :: "Connection \<Rightarrow> Connection" where
  "Close c = c\<lparr>cn_closed := True\<rparr>"


section \<open>The server\<close>

text \<open>
  Where the goroutine of a connection is: in the handshake, at the \<open>select\<close> at the head of
  its loop, or past it, reading and answering a request.
\<close>

datatype conn_phase = Handshaking | Checking | Reading

record uds_Server =
  ud_connections :: "string \<rightharpoonup> nat"
  ud_connCount :: int
  ud_maxConns :: int
  ud_cancelled :: bool
  ud_threads :: "nat \<rightharpoonup> conn_phase"
  ud_conns :: "nat \<rightharpoonup> Connection"

definition NewServer :: "int \<Rightarrow> uds_Server" where
  "NewServer cfg_MaxConns =
     (let maxConns = cfg_MaxConns;
          maxConns = (if maxConns = 0 then 100 else maxConns)
      in \<lparr>ud_connections = Map.empty, ud_connCount = 0, ud_maxConns = maxConns, ud_cancelled = False,
          ud_threads = Map.empty, ud_conns = Map.empty\<rparr>)"

definition ConnCount :: "uds_Server \<Rightarrow> int" where
  "ConnCount s = ud_connCount s"

text \<open>The body of \<open>acceptLoop\<close> for a connection that arrived; \<open>t\<close> is the new goroutine.\<close>

definition acceptLoop_body :: "nat \<Rightarrow> uds_Server \<Rightarrow> uds_Server" where
  "acceptLoop_body t s =
     (if ud_connCount s \<ge> ud_maxConns s then s
      else s\<lparr>ud_threads := (ud_threads s)(t \<mapsto> Handshaking)\<rparr>)"

text \<open>What \<open>handleConn\<close> does to the shared state: after the handshake, after a request, and
  in its deferred function.\<close>

definition handleConn_established :: "nat \<Rightarrow> int \<Rightarrow> Format \<Rightarrow> Codec \<Rightarrow> uds_Server \<Rightarrow> uds_Server" where
  "handleConn_established t now format codec s =
     (let connID = ''conn-'' @ int_literal now;
          conn = (newConnection connID format now)\<lparr>cn_codec := codec\<rparr>
      in s\<lparr>ud_conns := (ud_conns s)(t \<mapsto> conn),
           ud_connections := (ud_connections s)(connID \<mapsto> t),
           ud_connCount := ud_connCount s + 1,
           ud_threads := (ud_threads s)(t \<mapsto> Checking)\<rparr>)"

definition handleConn_served :: "nat \<Rightarrow> int \<Rightarrow> uds_Server \<Rightarrow> uds_Server" where
  "handleConn_served t now s =
     s\<lparr>ud_conns := (ud_conns s)(t := map_option (touch now) (ud_conns s t)),
       ud_threads := (ud_threads s)(t \<mapsto> Checking)\<rparr>"

definition handleConn_return :: "nat \<Rightarrow> uds_Server \<Rightarrow> uds_Server" where
  "handleConn_return t s =
     (case ud_conns s t of
        None \<Rightarrow> s\<lparr>ud_threads := (ud_threads s)(t := None)\<rparr>
      | Some conn \<Rightarrow>
          s\<lparr>ud_connections := (ud_connections s)(cn_id conn := None),
            ud_connCount := ud_connCount s - 1,
            ud_conns := (ud_conns s)(t := None),
            ud_threads := (ud_threads s)(t := None)\<rparr>)"

text \<open>The passes over the map: \<open>order\<close> is the order in which \<open>Range\<close> visits the keys, and
  \<open>visits\<close> holds with each key the time that \<open>time.Since\<close> reads there.\<close>

definition close_conn :: "nat \<Rightarrow> uds_Server \<Rightarrow> uds_Server" where
  "close_conn t s = s\<lparr>ud_conns := (ud_conns s)(t := map_option Close (ud_conns s t))\<rparr>"

definition close_if_idle :: "int \<Rightarrow> string \<Rightarrow> uds_Server \<Rightarrow> uds_Server" where
  "close_if_idle now key s =
     (case ud_connections s key of
        None \<Rightarrow> s
      | Some t \<Rightarrow>
          (case ud_conns s t of
             None \<Rightarrow> s
           | Some conn \<Rightarrow> if now - LastActiveTime conn > IdleTimeout then close_conn t s else s))"

definition idleChecker_tick :: "(string \<times> int) list \<Rightarrow> uds_Server \<Rightarrow> uds_Server" where
  "idleChecker_tick visits s = fold (\<lambda>(key, now). close_if_idle now key) visits s"

definition Stop :: "string list \<Rightarrow> uds_Server \<Rightarrow> uds_Server" where
  "Stop order s =
     fold (\<lambda>key s. case ud_connections s key of None \<Rightarrow> s | Some t \<Rightarrow> close_conn t s) order
       (s\<lparr>ud_cancelled := True\<rparr>)"


section \<open>All goroutines together\<close>

text \<open>The steps of the goroutines of connections. Reading ends by an error of the client, by
  the deadline, or because the socket was closed.\<close>

inductive thread_step :: "uds_Server \<Rightarrow> uds_Server \<Rightarrow> bool" where
  handshake_failed: "ud_threads s t = Some Handshaking \<Longrightarrow>
     thread_step s (s\<lparr>ud_threads := (ud_threads s)(t := None)\<rparr>)"
| established: "ud_threads s t = Some Handshaking \<Longrightarrow>
     thread_step s (handleConn_established t now format codec s)"
| continue: "ud_threads s t = Some Checking \<Longrightarrow> \<not> ud_cancelled s \<Longrightarrow> ud_conns s t = Some conn \<Longrightarrow> \<not> cn_closed conn \<Longrightarrow>
     thread_step s (s\<lparr>ud_threads := (ud_threads s)(t \<mapsto> Reading)\<rparr>)"
| leave: "ud_threads s t = Some Checking \<Longrightarrow> ud_conns s t = Some conn \<Longrightarrow> ud_cancelled s \<or> cn_closed conn \<Longrightarrow>
     thread_step s (handleConn_return t s)"
| served: "ud_threads s t = Some Reading \<Longrightarrow> thread_step s (handleConn_served t now s)"
| failed: "ud_threads s t = Some Reading \<Longrightarrow> thread_step s (handleConn_return t s)"

inductive_cases thread_stepE: "thread_step s s'"

text \<open>A connection that \<open>Accept\<close> has returned, and a pass of the idle checker that has begun, can
  still follow a call of \<open>Stop\<close>.\<close>

inductive server_step :: "uds_Server \<Rightarrow> uds_Server \<Rightarrow> bool" where
  accept: "ud_threads s t = None \<Longrightarrow> server_step s (acceptLoop_body t s)"
| thread: "thread_step s s' \<Longrightarrow> server_step s s'"
| idle: "server_step s (idleChecker_tick visits s)"
| stop: "server_step s (Stop order s)"

inductive server_reach :: "int \<Rightarrow> uds_Server \<Rightarrow> bool" for maxConns :: int where
  server_new: "server_reach maxConns (NewServer maxConns)"
| server_next: "server_reach maxConns s \<Longrightarrow> server_step s s' \<Longrightarrow> server_reach maxConns s'"


section \<open>The invariant of the bookkeeping\<close>

definition serving :: "uds_Server \<Rightarrow> nat set" where
  "serving s = {t. ud_threads s t = Some Checking \<or> ud_threads s t = Some Reading}"

definition conns_inv :: "uds_Server \<Rightarrow> bool" where
  "conns_inv s \<longleftrightarrow> finite (dom (ud_threads s)) \<and> dom (ud_conns s) = serving s \<and>
     ud_connCount s = int (card (serving s))"

lemma serving_threads: "serving s \<subseteq> dom (ud_threads s)"
  by (auto simp: serving_def)

lemma finite_serving: "conns_inv s \<Longrightarrow> finite (serving s)"
  unfolding conns_inv_def by (metis serving_threads finite_subset)

lemma close_conn_simps [simp]:
  "ud_connections (close_conn t s) = ud_connections s" "ud_connCount (close_conn t s) = ud_connCount s"
  "ud_maxConns (close_conn t s) = ud_maxConns s" "ud_cancelled (close_conn t s) = ud_cancelled s"
  "ud_threads (close_conn t s) = ud_threads s" "serving (close_conn t s) = serving s"
  "dom (ud_conns (close_conn t s)) = dom (ud_conns s)"
  by (auto simp: close_conn_def serving_def)

lemma conns_inv_close: "conns_inv s \<Longrightarrow> conns_inv (close_conn t s)"
  by (simp add: conns_inv_def)

lemma conns_inv_idle: "conns_inv s \<Longrightarrow> conns_inv (idleChecker_tick visits s)"
  unfolding idleChecker_tick_def
  by (induction visits arbitrary: s) (auto simp: close_if_idle_def conns_inv_close split: option.split prod.split)

lemma conns_inv_Stop: "conns_inv s \<Longrightarrow> conns_inv (Stop order s)"
proof -
  have "conns_inv s \<Longrightarrow> conns_inv (fold (\<lambda>key s. case ud_connections s key of None \<Rightarrow> s | Some t \<Rightarrow> close_conn t s) order s)" for s
    by (induction order arbitrary: s) (auto simp: conns_inv_close split: option.split)
  then show "conns_inv s \<Longrightarrow> conns_inv (Stop order s)"
    by (simp add: Stop_def conns_inv_def serving_def)
qed

lemma conns_inv_return:
  assumes "conns_inv s" and "t \<in> serving s"
  shows "conns_inv (handleConn_return t s)"
proof -
  obtain conn where conn: "ud_conns s t = Some conn" using assms by (auto simp: conns_inv_def)
  have fin: "finite (serving s)" using assms(1) by (rule finite_serving)
  have "serving (handleConn_return t s) = serving s - {t}" using conn by (auto simp: handleConn_return_def serving_def)
  moreover have "int (card (serving s - {t})) = int (card (serving s)) - 1"
    using fin assms(2) card_Suc_Diff1 by fastforce
  ultimately show ?thesis using assms(1) conn by (auto simp: conns_inv_def handleConn_return_def)
qed

lemma conns_inv_established:
  assumes "conns_inv s" and "ud_threads s t = Some Handshaking"
  shows "conns_inv (handleConn_established t now format codec s)"
proof -
  have "t \<notin> serving s" using assms(2) by (simp add: serving_def)
  moreover have "finite (serving s)" using assms(1) by (rule finite_serving)
  moreover have "serving (handleConn_established t now format codec s) = insert t (serving s)"
    by (auto simp: handleConn_established_def serving_def Let_def)
  ultimately show ?thesis using assms(1) by (auto simp: conns_inv_def handleConn_established_def Let_def)
qed

lemma conns_inv_thread:
  assumes "thread_step s s'" and inv: "conns_inv s"
  shows "conns_inv s'"
  using assms(1)
proof cases
  case (handshake_failed t)
  then have "serving s' = serving s" by (auto simp: serving_def)
  with handshake_failed inv show ?thesis by (auto simp: conns_inv_def)
next
  case (established t now format codec)
  with inv show ?thesis by (simp add: conns_inv_established)
next
  case (continue t conn)
  then have "serving s' = serving s" by (auto simp: serving_def)
  with continue inv show ?thesis by (auto simp: conns_inv_def)
next
  case (served t now)
  then have "serving s' = serving s" by (auto simp: serving_def handleConn_served_def)
  with served inv show ?thesis by (auto simp: conns_inv_def handleConn_served_def)
qed (use inv in \<open>auto intro: conns_inv_return simp: serving_def\<close>)

lemma conns_inv_step: "server_step s s' \<Longrightarrow> conns_inv s \<Longrightarrow> conns_inv s'"
proof (induction rule: server_step.induct)
  case (accept s t)
  then have "serving (acceptLoop_body t s) = serving s" by (auto simp: serving_def acceptLoop_body_def)
  with accept show ?case by (auto simp: conns_inv_def acceptLoop_body_def)
qed (auto intro: conns_inv_thread conns_inv_idle conns_inv_Stop)

lemma conns_inv_reach: "server_reach maxConns s \<Longrightarrow> conns_inv s"
  by (induction rule: server_reach.induct)
    (simp add: conns_inv_def NewServer_def serving_def Let_def, rule conns_inv_step)


text \<open>An entry of the map points to a connection with this identifier.\<close>

definition registered :: "uds_Server \<Rightarrow> bool" where
  "registered s \<longleftrightarrow> (\<forall>k t. ud_connections s k = Some t \<longrightarrow> (\<exists>c. ud_conns s t = Some c \<and> cn_id c = k))"

lemma registered_close: "registered s \<Longrightarrow> registered (close_conn t s)"
  by (fastforce simp: registered_def close_conn_def Close_def)

lemma registered_idle: "registered s \<Longrightarrow> registered (idleChecker_tick visits s)"
  unfolding idleChecker_tick_def
  by (induction visits arbitrary: s) (auto simp: close_if_idle_def registered_close split: option.split prod.split)

lemma registered_Stop: "registered s \<Longrightarrow> registered (Stop order s)"
proof -
  have "registered s \<Longrightarrow> registered (fold (\<lambda>key s. case ud_connections s key of None \<Rightarrow> s | Some t \<Rightarrow> close_conn t s) order s)" for s
    by (induction order arbitrary: s) (auto simp: registered_close split: option.split)
  then show "registered s \<Longrightarrow> registered (Stop order s)" by (simp add: Stop_def registered_def)
qed

lemma registered_established:
  assumes "conns_inv s" and "registered s" and "ud_threads s t = Some Handshaking"
  shows "registered (handleConn_established t now format codec s)"
proof -
  have "t \<notin> serving s" using assms(3) by (simp add: serving_def)
  then have "ud_conns s t = None" using assms(1) by (auto simp: conns_inv_def)
  with assms(2) show ?thesis
    by (fastforce simp: registered_def handleConn_established_def newConnection_def Let_def)
qed

lemma registered_return: "registered s \<Longrightarrow> registered (handleConn_return t s)"
  by (fastforce simp: registered_def handleConn_return_def split: option.split)

lemma registered_served: "registered s \<Longrightarrow> registered (handleConn_served t now s)"
  by (fastforce simp: registered_def handleConn_served_def touch_def)

lemma registered_threads: "registered s \<Longrightarrow> registered (s\<lparr>ud_threads := th\<rparr>)"
  by (simp add: registered_def)

lemma registered_step:
  assumes "server_step s s'" and "conns_inv s" and reg: "registered s"
  shows "registered s'"
  using assms(1)
proof cases
  case thread
  then show ?thesis using assms(2) reg
    by cases (auto intro: registered_threads registered_established registered_return registered_served)
next
  case (idle visits)
  then show ?thesis using registered_idle [OF reg] by simp
next
  case (stop order)
  then show ?thesis using registered_Stop [OF reg] by simp
qed (use reg in \<open>simp add: acceptLoop_body_def registered_threads\<close>)

lemma server_reach_inv: "server_reach maxConns s \<Longrightarrow> conns_inv s \<and> registered s"
proof (induction rule: server_reach.induct)
  case server_new
  then show ?case by (simp add: conns_inv_def registered_def NewServer_def serving_def Let_def)
qed (auto intro: conns_inv_step registered_step)


section \<open>Shutting down\<close>

text \<open>What is left to do for the goroutine of a connection once the context is cancelled.\<close>

fun phase_work :: "conn_phase \<Rightarrow> nat" where
  "phase_work Handshaking = 3"
| "phase_work Reading = 2"
| "phase_work Checking = 1"

definition shutdown_work :: "(nat \<rightharpoonup> conn_phase) \<Rightarrow> nat" where
  "shutdown_work m = (\<Sum>t \<in> dom m. phase_work (the (m t)))"

lemma work_update:
  assumes "finite (dom m)" and "m t = Some p" and "phase_work q < phase_work p"
  shows "shutdown_work (m(t \<mapsto> q)) < shutdown_work m"
proof -
  have "dom (m(t \<mapsto> q)) = dom m" using assms(2) by auto
  with assms show ?thesis
    unfolding shutdown_work_def by (auto intro!: sum_strict_mono_ex1 bexI [of _ t])
qed

lemma work_delete:
  assumes "finite (dom m)" and "m t = Some p"
  shows "shutdown_work (m(t := None)) < shutdown_work m"
proof -
  have "shutdown_work m = phase_work p + (\<Sum>x \<in> dom m - {t}. phase_work (the (m x)))"
    unfolding shutdown_work_def using assms by (subst sum.remove [of _ t]) auto
  moreover have "shutdown_work (m(t := None)) = (\<Sum>x \<in> dom m - {t}. phase_work (the (m x)))"
    unfolding shutdown_work_def by (intro sum.cong) auto
  moreover have "0 < phase_work p" by (cases p) simp_all
  ultimately show ?thesis by simp
qed

lemma handleConn_effects [simp]:
  "ud_threads (handleConn_established t now format codec s) = (ud_threads s)(t \<mapsto> Checking)"
  "ud_threads (handleConn_served t now s) = (ud_threads s)(t \<mapsto> Checking)"
  "ud_threads (handleConn_return t s) = (ud_threads s)(t := None)"
  "ud_cancelled (handleConn_established t now format codec s) = ud_cancelled s"
  "ud_cancelled (handleConn_served t now s) = ud_cancelled s"
  "ud_cancelled (handleConn_return t s) = ud_cancelled s"
  by (simp_all add: handleConn_established_def handleConn_served_def handleConn_return_def Let_def split: option.split)

lemma shutdown_step:
  assumes "thread_step s s'" and "ud_cancelled s" and "finite (dom (ud_threads s))"
  shows "ud_cancelled s' \<and> shutdown_work (ud_threads s') < shutdown_work (ud_threads s)"
  using assms(1)
  by cases (use assms(2,3) in \<open>simp_all add: work_update work_delete\<close>)

lemma no_infinite_run:
  fixes f :: "'a \<Rightarrow> nat"
  assumes down: "\<And>x y. R\<^sup>*\<^sup>* s x \<Longrightarrow> R x y \<Longrightarrow> f y < f x"
  shows "\<nexists>run. run 0 = s \<and> (\<forall>i. R (run i) (run (Suc i)))"
proof
  assume "\<exists>run. run 0 = s \<and> (\<forall>i. R (run i) (run (Suc i)))"
  then obtain run where run: "run 0 = s" "\<And>i. R (run i) (run (Suc i))" by blast
  have reach: "R\<^sup>*\<^sup>* s (run i)" for i
    by (induction i) (auto simp: run intro: rtranclp.rtrancl_into_rtrancl)
  have "f (run n) + n \<le> f (run 0)" for n
  proof (induction n)
    case (Suc n)
    with down [OF reach run(2), of n] show ?case by simp
  qed simp
  from this [of "Suc (f (run 0))"] show False by simp
qed

lemma shutdown_stuck:
  assumes "conns_inv s" and "ud_cancelled s" and "\<nexists>s'. thread_step s s'"
  shows "ud_threads s = Map.empty"
proof (rule ccontr)
  assume "ud_threads s \<noteq> Map.empty"
  then obtain t p where t: "ud_threads s t = Some p" by fastforce
  show False
  proof (cases p)
    case Handshaking
    then show False using t assms(3) handshake_failed by blast
  next
    case Checking
    with t assms(1) obtain conn where "ud_conns s t = Some conn" by (auto simp: conns_inv_def serving_def)
    with Checking t assms(2,3) leave show False by blast
  next
    case Reading
    then show False using t assms(3) failed by blast
  qed
qed


section \<open>Properties of the connections\<close>

text \<open>
  C34: in every reachable state, whatever the interleaving of the goroutines, the counter is
  the number of connections being served, and the connections in the map are among them.
\<close>

theorem connection_count_exact:
  assumes "server_reach maxConns s"
  shows "ConnCount s = int (card (serving s)) \<and> finite (serving s) \<and> ran (ud_connections s) \<subseteq> serving s"
proof -
  have inv: "conns_inv s" "registered s" using server_reach_inv [OF assms] by blast+
  then have "ran (ud_connections s) \<subseteq> dom (ud_conns s)" by (fastforce simp: registered_def ran_def)
  with inv(1) finite_serving [OF inv(1)] show ?thesis by (simp add: conns_inv_def ConnCount_def)
qed

lemma reach_handshakes:
  assumes "0 < maxConns"
  shows "server_reach maxConns ((NewServer maxConns)\<lparr>ud_threads := (\<lambda>t. if t < n then Some Handshaking else None)\<rparr>)"
proof (induction n)
  case 0
  have "(NewServer maxConns)\<lparr>ud_threads := (\<lambda>t. if t < (0::nat) then Some Handshaking else None)\<rparr> = NewServer maxConns"
    by (simp add: NewServer_def Let_def)
  then show ?case using server_new [of maxConns] by simp
next
  case (Suc n)
  let ?s = "(NewServer maxConns)\<lparr>ud_threads := (\<lambda>t. if t < n then Some Handshaking else None)\<rparr>"
  have "acceptLoop_body n ?s = (NewServer maxConns)\<lparr>ud_threads := (\<lambda>t. if t < Suc n then Some Handshaking else None)\<rparr>"
    using assms by (auto simp: acceptLoop_body_def NewServer_def Let_def fun_eq_iff less_Suc_eq)
  with server_next [OF Suc.IH accept [of ?s n]] show ?case by (simp add: NewServer_def Let_def)
qed

lemma reach_established:
  assumes "0 < maxConns" and "k \<le> n"
  shows "\<exists>s. server_reach maxConns s \<and> ConnCount s = int k \<and> (\<forall>t. k \<le> t \<longrightarrow> t < n \<longrightarrow> ud_threads s t = Some Handshaking)"
  using assms(2)
proof (induction k)
  case 0
  then show ?case using reach_handshakes [of maxConns n] assms(1)
    by (intro exI [of _ "(NewServer maxConns)\<lparr>ud_threads := (\<lambda>t. if t < n then Some Handshaking else None)\<rparr>"])
      (simp add: ConnCount_def NewServer_def Let_def)
next
  case (Suc k)
  then obtain s where s: "server_reach maxConns s" "ConnCount s = int k"
      "\<forall>t. k \<le> t \<longrightarrow> t < n \<longrightarrow> ud_threads s t = Some Handshaking"
    by auto
  let ?s' = "handleConn_established k 0 FormatJSON JSONCodec s"
  have "server_reach maxConns ?s'"
    using s(3) Suc.prems by (intro server_next [OF s(1)] thread established) simp
  moreover have "ConnCount ?s' = int (Suc k)" using s(2) by (simp add: ConnCount_def handleConn_established_def Let_def)
  ultimately show ?case using s(3) by (intro exI [of _ ?s']) auto
qed

text \<open>
  C40: the limit on connections does not hold. With any positive limit, any number of
  connections can be served at the same time, because a connection is counted only after its
  handshake.
\<close>

theorem connection_limit_not_enforced:
  assumes "0 < maxConns"
  shows "\<exists>s. server_reach maxConns s \<and> ConnCount s = int n"
  using reach_established [OF assms, of n n] by auto

theorem connection_limit_not_enforced_witness:
  "\<exists>s. server_reach 100 s \<and> ConnCount s = int 101"
  by (rule connection_limit_not_enforced) simp

theorem connection_count_exact_witness:
  "\<exists>s. server_reach 100 s \<and> card (serving s) = 101"
  using reach_established [of 100 101 101] connection_count_exact by (metis nat_int order_refl zero_less_numeral)

lemma cancelled_threads:
  assumes "thread_step\<^sup>*\<^sup>* s s'" and "conns_inv s" and "ud_cancelled s"
  shows "conns_inv s' \<and> ud_cancelled s'"
  using assms
proof (induction rule: rtranclp_induct)
  case (step y z)
  then show ?case using conns_inv_thread shutdown_step [of y z] by (auto simp: conns_inv_def)
qed simp

text \<open>
  Shutting down ends. Once the context is cancelled, the goroutines of the connections
  make finitely many steps more, however they are scheduled, and when none of them can go on
  then none is left and the counter is zero, so the wait in \<open>Stop\<close> is over.
\<close>

theorem shutdown_ends:
  assumes "server_reach maxConns s" and "ud_cancelled s"
  shows "(\<nexists>run. run 0 = s \<and> (\<forall>i. thread_step (run i) (run (Suc i)))) \<and>
         (\<forall>s'. thread_step\<^sup>*\<^sup>* s s' \<and> (\<nexists>s''. thread_step s' s'') \<longrightarrow>
            ud_threads s' = Map.empty \<and> ConnCount s' = 0)"
proof (intro conjI allI impI)
  have keep: "conns_inv s' \<and> ud_cancelled s'" if "thread_step\<^sup>*\<^sup>* s s'" for s'
    using that assms server_reach_inv cancelled_threads by blast
  show "ud_threads s' = Map.empty" and "ConnCount s' = 0" if "thread_step\<^sup>*\<^sup>* s s' \<and> (\<nexists>s''. thread_step s' s'')" for s'
  proof -
    have inv: "conns_inv s'" "ud_cancelled s'" using that keep by blast+
    with that shutdown_stuck show th: "ud_threads s' = Map.empty" by blast
    then have "serving s' = {}" by (simp add: serving_def)
    with inv show "ConnCount s' = 0" by (simp add: conns_inv_def ConnCount_def)
  qed
  show "\<nexists>run. run 0 = s \<and> (\<forall>i. thread_step (run i) (run (Suc i)))"
    using keep shutdown_step by (intro no_infinite_run [where f = "\<lambda>s. shutdown_work (ud_threads s)"]) (auto simp: conns_inv_def)
qed

text \<open>A server with one connection that was accepted, and the same after \<open>Stop\<close>.\<close>

definition one_client :: uds_Server where
  "one_client = handleConn_established 0 7 FormatJSON JSONCodec (acceptLoop_body 0 (NewServer 0))"

lemma one_client_reach: "server_reach 0 one_client"
  unfolding one_client_def
  by (intro server_next [OF server_next [OF server_new accept] thread [OF established]])
    (simp_all add: NewServer_def acceptLoop_body_def Let_def)

theorem shutdown_ends_witness:
  "\<nexists>run. run 0 = Stop [''conn-7''] one_client \<and> (\<forall>i. thread_step (run i) (run (Suc i)))"
proof -
  have "server_reach 0 (Stop [''conn-7''] one_client)" by (rule server_next [OF one_client_reach stop])
  moreover have "ud_cancelled (Stop [''conn-7''] one_client)" by (simp add: Stop_def split: option.split)
  ultimately show ?thesis using shutdown_ends by blast
qed

text \<open>The pass of the idle checker over the map, entry by entry.\<close>

lemma registeredD: "registered s \<Longrightarrow> ud_connections s k = Some t \<Longrightarrow> ud_conns s t = Some c \<Longrightarrow> cn_id c = k"
  by (fastforce simp: registered_def)

lemma close_if_idle_unowned:
  assumes "ud_conns s t = Some c" and "ud_connections s key \<noteq> Some t"
  shows "ud_conns (close_if_idle now key s) t = Some c"
  using assms by (auto simp: close_if_idle_def close_conn_def split: option.split)

lemma close_if_idle_other:
  assumes "registered s" and "ud_conns s t = Some c" and "cn_id c \<noteq> key"
  shows "ud_conns (close_if_idle now key s) t = Some c"
  using assms registeredD by (intro close_if_idle_unowned) auto

lemma registered_close_if_idle: "registered s \<Longrightarrow> registered (close_if_idle now key s)"
  by (auto simp: close_if_idle_def registered_close split: option.split)

lemma close_if_idle_connections [simp]: "ud_connections (close_if_idle now key s) = ud_connections s"
  by (simp add: close_if_idle_def split: option.split)

lemma idle_pass_other:
  assumes "registered s" and "ud_conns s t = Some c" and "cn_id c \<notin> fst ` set visits"
  shows "ud_conns (idleChecker_tick visits s) t = Some c"
  using assms unfolding idleChecker_tick_def
proof (induction visits arbitrary: s)
  case (Cons v visits)
  then show ?case
    by (cases v) (simp add: close_if_idle_other registered_close_if_idle)
qed simp

lemma Close_simps [simp]: "cn_id (Close c) = cn_id c" "cn_closed (Close c)"
  by (simp_all add: Close_def)

lemma idle_pass_visited:
  assumes "registered s" and "ud_conns s t = Some c" and "ud_connections s (cn_id c) = Some t"
    and "distinct (map fst visits)" and "(cn_id c, now) \<in> set visits"
  shows "ud_conns (idleChecker_tick visits s) t = Some (if now - LastActiveTime c > IdleTimeout then Close c else c)"
  using assms unfolding idleChecker_tick_def
proof (induction visits arbitrary: s)
  case (Cons v visits)
  obtain key time where v: "v = (key, time)" by force
  show ?case
  proof (cases "key = cn_id c")
    case True
    with Cons.prems v have "time = now" "cn_id c \<notin> fst ` set visits" by (auto simp: image_iff)
    moreover have "ud_conns (close_if_idle now key s) t = Some (if now - LastActiveTime c > IdleTimeout then Close c else c)"
      using True Cons.prems by (simp add: close_if_idle_def close_conn_def)
    ultimately show ?thesis
      using v idle_pass_other [OF registered_close_if_idle [OF Cons.prems(1)]] by (simp add: idleChecker_tick_def)
  next
    case False
    with Cons v show ?thesis
      by (simp add: close_if_idle_other registered_close_if_idle)
  qed
qed simp

lemma idle_pass_unowned:
  assumes "registered s" and "ud_conns s t = Some c" and "ud_connections s (cn_id c) \<noteq> Some t"
  shows "ud_conns (idleChecker_tick visits s) t = Some c"
  using assms unfolding idleChecker_tick_def
proof (induction visits arbitrary: s)
  case (Cons v visits)
  obtain key time where v: "v = (key, time)" by force
  have "ud_conns (close_if_idle time key s) t = Some c"
    using Cons.prems registeredD by (intro close_if_idle_unowned) auto
  with Cons v show ?case by (simp add: registered_close_if_idle)
qed simp

text \<open>
  C27: a pass of the idle checker closes exactly the idle connections. In every reachable state,
  a pass that visits every entry of the map once closes a registered connection if more than
  the idle timeout has passed since its last request when it is visited, and leaves every other
  connection as it is; it changes neither the map nor the counter.
\<close>

theorem idle_check_exact:
  assumes "server_reach maxConns s" and "distinct (map fst visits)"
    and "fst ` set visits = dom (ud_connections s)" and "ud_conns s t = Some c"
  shows "ud_connections (idleChecker_tick visits s) = ud_connections s \<and>
         ConnCount (idleChecker_tick visits s) = ConnCount s \<and>
         (if \<exists>now. (cn_id c, now) \<in> set visits \<and> ud_connections s (cn_id c) = Some t \<and>
               now - LastActiveTime c > IdleTimeout
          then ud_conns (idleChecker_tick visits s) t = Some (Close c)
          else ud_conns (idleChecker_tick visits s) t = Some c)"
proof -
  have reg: "registered s" using server_reach_inv [OF assms(1)] by blast
  have same: "ud_connections (idleChecker_tick visits s) = ud_connections s \<and>
      ConnCount (idleChecker_tick visits s) = ConnCount s"
    unfolding idleChecker_tick_def ConnCount_def
    by (induction visits arbitrary: s) (auto simp: close_if_idle_def split: option.split)
  show ?thesis
  proof (cases "ud_connections s (cn_id c) = Some t")
    case True
    then obtain now where now: "(cn_id c, now) \<in> set visits" using assms(3) by force
    then have "(\<exists>now. (cn_id c, now) \<in> set visits \<and> ud_connections s (cn_id c) = Some t \<and>
        now - LastActiveTime c > IdleTimeout) \<longleftrightarrow> now - LastActiveTime c > IdleTimeout"
      using True assms(2) by (metis eq_key_imp_eq_value)
    with idle_pass_visited [OF reg assms(4) True assms(2) now] same show ?thesis by simp
  next
    case False
    then show ?thesis using same idle_pass_unowned [OF reg assms(4) False] by simp
  qed
qed

theorem idle_check_exact_witness:
  "ud_conns (idleChecker_tick [(''conn-7'', 61 * time_Second)] one_client) 0 =
     Some (Close \<lparr>cn_id = ''conn-7'', cn_format = FormatJSON, cn_codec = JSONCodec, cn_lastActive = 7, cn_closed = False\<rparr>)"
proof -
  let ?c = "\<lparr>cn_id = ''conn-7'', cn_format = FormatJSON, cn_codec = JSONCodec, cn_lastActive = 7, cn_closed = False\<rparr>"
  have "int_literal 7 = ''7''" by code_simp
  then have "ud_conns one_client 0 = Some ?c" and con: "ud_connections one_client = [''conn-7'' \<mapsto> 0]"
    by (simp_all add: one_client_def handleConn_established_def newConnection_def acceptLoop_body_def NewServer_def Let_def)
  moreover have "61 * time_Second - LastActiveTime ?c > IdleTimeout"
    by (simp add: LastActiveTime_def IdleTimeout_def time_Second_def)
  ultimately show ?thesis
    using idle_check_exact [OF one_client_reach, of "[(''conn-7'', 61 * time_Second)]" 0 ?c] by (simp split: if_splits)
qed

end
