(* ===== verification/Udp_Server.thy ===== *)
theory Udp_Server
  imports Services Json
begin

text \<open>
  The UDP server of \<open>internal/udp/server.go\<close>: one datagram is one authentication request,
  a command line whose part after \<open>-d\<close> is an HTTP form. The package \<open>net/url\<close> is modelled
  as far as \<open>ParseQuery\<close> needs it.
\<close>

section \<open>Strings and forms\<close>

text \<open>\<open>strings.Cut\<close>: the parts before and after the first occurrence of a separator.\<close>

fun str_Cut :: "string \<Rightarrow> string \<Rightarrow> (string \<times> string) option" where
  "str_Cut sep s =
     (if prefix sep s then Some ([], drop (length sep) s)
      else case s of
             [] \<Rightarrow> None
           | c # t \<Rightarrow> map_option (\<lambda>(before, after). (c # before, after)) (str_Cut sep t))"

declare str_Cut.simps [simp del]

text \<open>\<open>url.QueryUnescape\<close>: a percent sign needs two hexadecimal digits after it.\<close>

fun QueryUnescape :: "string \<Rightarrow> string option" where
  "QueryUnescape [] = Some []"
| "QueryUnescape (c # s) =
     (if c = CHR ''%'' then
        (case s of
           a # b # t \<Rightarrow>
             (case (hex_value a, hex_value b) of
                (Some x, Some y) \<Rightarrow> map_option ((#) (char_of (16 * x + y))) (QueryUnescape t)
              | _ \<Rightarrow> None)
         | _ \<Rightarrow> None)
      else map_option ((#) (if c = CHR ''+'' then CHR '' '' else c)) (QueryUnescape s))"

text \<open>The pieces of a query between the ampersands.\<close>

fun split_pieces :: "string \<Rightarrow> string list" where
  "split_pieces [] = [[]]"
| "split_pieces (c # s) =
     (if c = CHR ''&'' then [] # split_pieces s
      else case split_pieces s of p # ps \<Rightarrow> (c # p) # ps | [] \<Rightarrow> [[c]])"

text \<open>One piece: nothing when it is empty, an error (\<^term>\<open>None\<close>), or a key and its value.\<close>

definition parse_piece :: "string \<Rightarrow> (string \<times> string) list option" where
  "parse_piece p =
     (if CHR '';'' \<in> set p then None
      else if p = [] then Some []
      else let (key, value) = (case str_Cut ''='' p of Some kv \<Rightarrow> kv | None \<Rightarrow> (p, []))
           in case (QueryUnescape key, QueryUnescape value) of
                (Some k, Some v) \<Rightarrow> Some [(k, v)]
              | _ \<Rightarrow> None)"

text \<open>
  \<open>url.ParseQuery\<close>: the values in the order they were given. An error in one piece makes the
  whole call return an error, which is all the caller looks at.
\<close>

definition ParseQuery :: "string \<Rightarrow> (string \<times> string) list option" where
  "ParseQuery q =
     foldr (\<lambda>p acc. case (parse_piece p, acc) of
                      (Some kv, Some kvs) \<Rightarrow> Some (kv @ kvs) | _ \<Rightarrow> None) (split_pieces q) (Some [])"

text \<open>\<open>Values.Get\<close>: the first value of a key, or the empty string.\<close>

definition Values_Get :: "(string \<times> string) list \<Rightarrow> string \<Rightarrow> string" where
  "Values_Get values key = (case map_of values key of None \<Rightarrow> [] | Some v \<Rightarrow> v)"


section \<open>The server\<close>

definition parseAuthRequest :: "string \<Rightarrow> (string \<times> string) result" where
  "parseAuthRequest msg =
     (case str_Cut '' -d '' msg of
        None \<Rightarrow> Inl (Errorf ''invalid format'')
      | Some (_, query) \<Rightarrow>
          (case ParseQuery query of
             None \<Rightarrow> Inl (Errorf ''invalid query'')
           | Some values \<Rightarrow>
               let username = Values_Get values ''username'';
                   password = Values_Get values ''pass_word'';
                   password = (if password = [] then Values_Get values ''pass_wd'' else password)
               in if username = [] \<or> password = [] then Inl (Errorf ''missing credentials'')
                  else Inr (username, password)))"

text \<open>The answer that is sent, and the user store afterwards; a failure to set the online
  flag is only logged.\<close>

definition processPacket ::
  "'u user_Store \<Rightarrow> auth_Service \<Rightarrow> time \<Rightarrow> string \<Rightarrow> 'u \<Rightarrow> string \<times> 'u" where
  "processPacket st auth now msg s =
     (case parseAuthRequest msg of
        Inl _ \<Rightarrow> (''FAIL'', s)
      | Inr (username, password) \<Rightarrow>
          (case VerifyCredentials st auth username password s of
             Inl _ \<Rightarrow> (''FAIL'', s)
           | Inr u \<Rightarrow>
               let (_, s) = SetOnline st now (u_ID u) True s
               in (''OK'', s)))"

text \<open>\<open>handlePackets\<close> reads a datagram into a buffer of 2048 bytes; the rest is cut off.\<close>

definition handlePacket ::
  "'u user_Store \<Rightarrow> auth_Service \<Rightarrow> time \<Rightarrow> string \<Rightarrow> 'u \<Rightarrow> string \<times> 'u" where
  "handlePacket st auth now datagram s = processPacket st auth now (take 2048 datagram) s"


section \<open>Forms as a client writes them\<close>

definition upper_hex :: "nat \<Rightarrow> char" where
  "upper_hex n = (if n < 10 then char_of (48 + n) else char_of (55 + n))"

definition unreserved :: "char \<Rightarrow> bool" where
  "unreserved c \<longleftrightarrow> byte_in 48 57 c \<or> byte_in 65 90 c \<or> byte_in 97 122 c \<or>
     c \<in> {CHR ''-'', CHR ''_'', CHR ''.'', CHR ''~''}"

text \<open>\<open>url.QueryEscape\<close>.\<close>

fun QueryEscape :: "string \<Rightarrow> string" where
  "QueryEscape [] = []"
| "QueryEscape (c # s) =
     (if c = CHR '' '' then CHR ''+'' # QueryEscape s
      else if unreserved c then c # QueryEscape s
      else CHR ''%'' # upper_hex (byte c div 16) # upper_hex (byte c mod 16) # QueryEscape s)"

lemma hex_value_upper: "n < 16 \<Longrightarrow> hex_value (upper_hex n) = Some n"
  by (auto simp: hex_value_def upper_hex_def byte_in_def)

lemma unreserved_not: "unreserved c \<Longrightarrow> c \<noteq> CHR ''%'' \<and> c \<noteq> CHR ''+'' \<and> c \<noteq> CHR ''&'' \<and> c \<noteq> CHR '';'' \<and> c \<noteq> CHR ''=''"
  by (auto simp: unreserved_def byte_in_def)

lemma byte_div_16: "byte c div 16 < 16"
proof -
  have "byte c < 256" using range_nat_of_char by (metis atLeastLessThan_iff rangeI)
  then show ?thesis by (simp add: less_mult_imp_div_less)
qed

lemma QueryUnescape_Escape: "QueryUnescape (QueryEscape s) = Some s"
proof (induction s)
  case (Cons c s)
  have "16 * (byte c div 16) + byte c mod 16 = byte c" by simp
  with Cons show ?case
    by (auto simp: unreserved_not hex_value_upper byte_div_16)
qed simp

text \<open>An escaped string has none of the characters that structure a form.\<close>

definition form_safe :: "string \<Rightarrow> bool" where
  "form_safe s \<longleftrightarrow> set s \<inter> {CHR ''&'', CHR '';'', CHR ''=''} = {}"

lemma upper_hex_unreserved: "n < 16 \<Longrightarrow> unreserved (upper_hex n)"
  by (simp add: unreserved_def upper_hex_def byte_in_def)

lemma form_safe_Cons: "form_safe (c # s) \<longleftrightarrow> c \<noteq> CHR ''&'' \<and> c \<noteq> CHR '';'' \<and> c \<noteq> CHR ''='' \<and> form_safe s"
  by (auto simp: form_safe_def)

lemma form_safe_Escape: "form_safe (QueryEscape s)"
proof (induction s)
  case Nil
  then show ?case by (simp add: form_safe_def)
next
  case (Cons c s)
  have "upper_hex n \<noteq> CHR ''&'' \<and> upper_hex n \<noteq> CHR '';'' \<and> upper_hex n \<noteq> CHR ''=''" if "n < 16" for n
    using unreserved_not [OF upper_hex_unreserved [OF that]] by simp
  with Cons show ?case by (simp add: form_safe_Cons unreserved_not byte_div_16)
qed

lemma split_pieces_safe: "CHR ''&'' \<notin> set p \<Longrightarrow> split_pieces (p @ CHR ''&'' # q) = p # split_pieces q"
  by (induction p) auto

lemma split_pieces_last: "CHR ''&'' \<notin> set p \<Longrightarrow> split_pieces p = [p]"
  by (induction p) auto

lemma str_Cut_char: "c \<notin> set k \<Longrightarrow> str_Cut [c] (k @ c # v) = Some (k, v)"
proof (induction k)
  case Nil
  then show ?case by (simp add: str_Cut.simps [of "[c]" "c # _"])
next
  case (Cons x k)
  then show ?case by (simp add: str_Cut.simps [of "[c]" "x # _"])
qed

lemma parse_piece_Escape:
  "parse_piece (QueryEscape k @ CHR ''='' # QueryEscape v) = Some [(k, v)]"
proof -
  have safe: "form_safe (QueryEscape k)" "form_safe (QueryEscape v)" by (rule form_safe_Escape)+
  then have "str_Cut ''='' (QueryEscape k @ CHR ''='' # QueryEscape v) = Some (QueryEscape k, QueryEscape v)"
    by (intro str_Cut_char) (auto simp: form_safe_def)
  moreover have "CHR '';'' \<notin> set (QueryEscape k @ CHR ''='' # QueryEscape v)"
    using safe by (auto simp: form_safe_def)
  ultimately show ?thesis by (simp add: parse_piece_def QueryUnescape_Escape)
qed

lemma ParseQuery_Escape:
  "ParseQuery (QueryEscape k1 @ ''='' @ QueryEscape v1 @ ''&'' @ QueryEscape k2 @ ''='' @ QueryEscape v2) =
     Some [(k1, v1), (k2, v2)]"
proof -
  let ?p = "\<lambda>k v. QueryEscape k @ CHR ''='' # QueryEscape v"
  have amp: "CHR ''&'' \<notin> set (?p k v)" for k v
    using form_safe_Escape [of k] form_safe_Escape [of v] by (auto simp: form_safe_def)
  have "split_pieces (?p k1 v1 @ CHR ''&'' # ?p k2 v2) = [?p k1 v1, ?p k2 v2]"
    by (simp only: split_pieces_safe [OF amp] split_pieces_last [OF amp])
  then show ?thesis by (simp add: ParseQuery_def parse_piece_Escape)
qed


section \<open>Properties\<close>

text \<open>The message that a client sends: a command, then the form.\<close>

definition auth_message :: "string \<Rightarrow> string \<Rightarrow> string \<Rightarrow> string" where
  "auth_message command n p =
     command @ '' -d username='' @ QueryEscape n @ ''&pass_word='' @ QueryEscape p"

lemma str_Cut_after: "CHR '' '' \<notin> set c \<Longrightarrow> str_Cut '' -d '' (c @ '' -d '' @ q) = Some (c, q)"
proof (induction c)
  case Nil
  then show ?case by (simp add: str_Cut.simps [of "'' -d ''" "CHR '' '' # _"])
next
  case (Cons x c)
  then show ?case by (simp add: str_Cut.simps [of "'' -d ''" "x # _"])
qed

text \<open>
  C29: any name and any password, whatever bytes they contain, arrive as they were when a
  client escapes them, unless one of them is empty, and the message is refused then.
\<close>

theorem udp_credentials_round_trip:
  assumes "CHR '' '' \<notin> set command"
  shows "parseAuthRequest (auth_message command n p) =
    (if n = [] \<or> p = [] then Inl (Errorf ''missing credentials'') else Inr (n, p))"
proof -
  from str_Cut_after [OF assms] have
    "str_Cut '' -d '' (auth_message command n p) =
       Some (command, ''username='' @ QueryEscape n @ ''&pass_word='' @ QueryEscape p)"
    by (simp add: auth_message_def)
  moreover have "QueryEscape ''username'' = ''username''" and "QueryEscape ''pass_word'' = ''pass_word''"
    by (simp_all add: unreserved_def byte_in_def)
  with ParseQuery_Escape [of "''username''" n "''pass_word''" p]
  have "ParseQuery (''username='' @ QueryEscape n @ ''&pass_word='' @ QueryEscape p) =
      Some [(''username'', n), (''pass_word'', p)]"
    by simp
  ultimately show ?thesis by (simp add: parseAuthRequest_def Values_Get_def Let_def)
qed

theorem udp_credentials_round_trip_witness:
  "parseAuthRequest (auth_message ''curl'' ''al ice&'' ''x=%+'') = Inr (''al ice&'', ''x=%+'')"
  by (subst udp_credentials_round_trip) simp_all

text \<open>
  C26: a datagram is answered with \<open>OK\<close> exactly when its first 2048 bytes carry the name and
  password of an active user; then that user is online and nothing else has changed. Every
  other datagram is answered with \<open>FAIL\<close> and changes nothing.
\<close>

theorem udp_answer_exact:
  assumes "store_inv s" and "handlePacket (MemoryStore_Store lower) auth now datagram s = (answer, s')"
  shows "if \<exists>n p i u. parseAuthRequest (take 2048 datagram) = Inr (n, p) \<and> ms_users s i = Some u \<and>
              u_Username u = n \<and> u_Status u = UserStatusActive \<and> u_PasswordHash u = p
         then answer = ''OK'' \<and> (\<exists>i u. ms_users s i = Some u \<and>
                parseAuthRequest (take 2048 datagram) = Inr (u_Username u, u_PasswordHash u) \<and>
                ms_users s' = (ms_users s)(i \<mapsto> u\<lparr>u_IsOnline := True, u_UpdatedAt := now\<rparr>) \<and> store_inv s')
         else answer = ''FAIL'' \<and> s' = s"
proof (cases "parseAuthRequest (take 2048 datagram)")
  case (Inl e)
  with assms(2) show ?thesis by (simp add: handlePacket_def processPacket_def)
next
  case (Inr np)
  obtain n p where np: "np = (n, p)" by force
  note ok = mem.verify_ok [OF assms(1), of lower auth n p]
  show ?thesis
  proof (cases "VerifyCredentials (MemoryStore_Store lower) auth n p s")
    case Inl': (Inl e)
    with ok have "\<nexists>i u. ms_users s i = Some u \<and> u_Username u = n \<and> u_Status u = UserStatusActive \<and> u_PasswordHash u = p"
      by auto
    then have "\<not> (\<exists>n p i u. parseAuthRequest (take 2048 datagram) = Inr (n, p) \<and> ms_users s i = Some u \<and>
        u_Username u = n \<and> u_Status u = UserStatusActive \<and> u_PasswordHash u = p)"
      using Inr np by auto
    moreover have "answer = ''FAIL'' \<and> s' = s"
      using Inr np Inl' assms(2) by (simp add: handlePacket_def processPacket_def)
    ultimately show ?thesis by (simp only: if_False simp_thms)
  next
    case Inr': (Inr u)
    with ok obtain i where u: "ms_users s i = Some u" "u_Username u = n" "u_Status u = UserStatusActive" "u_PasswordHash u = p"
      by auto
    have "u_ID u = i" using tbl_ok_id [OF mem.tbl_well_formed [OF assms(1)] u(1)] .
    with mem.set_online [OF assms(1) u(1) active_live [OF u(3)], of lower now True] Inr np Inr' assms(2) u
    show ?thesis
      by (auto simp: handlePacket_def processPacket_def with_online_def split: prod.splits)
  qed
qed

theorem udp_answer_exact_witness:
  "fst (handlePacket (MemoryStore_Store ascii_ToLower) sample_auth 9
     (auth_message ''curl'' ''alice'' ''Alice@8888'') alice_store) = ''OK''"
proof -
  have "length (auth_message ''curl'' ''alice'' ''Alice@8888'') \<le> 2048"
    by (simp add: auth_message_def unreserved_def byte_in_def)
  moreover have "parseAuthRequest (auth_message ''curl'' ''alice'' ''Alice@8888'') = Inr (''alice'', ''Alice@8888'')"
    by (code_simp)
  ultimately have "parseAuthRequest (take 2048 (auth_message ''curl'' ''alice'' ''Alice@8888'')) = Inr (''alice'', ''Alice@8888'')"
    by simp
  then show ?thesis
    using udp_answer_exact [OF alice_store_inv, of ascii_ToLower sample_auth 9 "auth_message ''curl'' ''alice'' ''Alice@8888''"
        "fst (handlePacket (MemoryStore_Store ascii_ToLower) sample_auth 9
          (auth_message ''curl'' ''alice'' ''Alice@8888'') alice_store)"
        "snd (handlePacket (MemoryStore_Store ascii_ToLower) sample_auth 9
          (auth_message ''curl'' ''alice'' ''Alice@8888'') alice_store)"]
    by (simp add: alice_store_eq [THEN arg_cong [where f = ms_users]])
qed

end
