(* ===== verification/System.thy ===== *)
theory System
  imports Rest_Properties Uds_Connections Udp_Server
begin

text \<open>
  The server process of \<open>cmd/main.go\<close>: the configuration and wiring of the services, the
  account that is created at start-up, and the process as a transition system in which
  requests arrive over REST, over the Unix socket and over UDP in any order. One step is one
  request, served to its end; a panic in a handler of the Unix socket ends the process.
\<close>

section \<open>Start-up\<close>

definition bootstrapAdminUser :: string where
  "bootstrapAdminUser = ''admin''"

definition bootstrapAdminPassword :: string where
  "bootstrapAdminPassword = ''Admin@123456''"

definition bootstrapAdminEmail :: string where
  "bootstrapAdminEmail = ''admin@example.com''"

text \<open>\<open>log.Fatalf\<close> ends the process: the result is then the error that was logged.\<close>

definition bootstrapAdmin :: "'u user_Store \<Rightarrow> auth_Service \<Rightarrow> string \<Rightarrow> time \<Rightarrow> 'u \<Rightarrow> unit result \<times> 'u" where
  "bootstrapAdmin store authSvc uuid now s =
     (case HashPassword authSvc bootstrapAdminPassword of
        Inl err \<Rightarrow> (Inl err, s)
      | Inr hash \<Rightarrow>
          let admin = zero_User\<lparr>u_ID := uuid, u_Username := bootstrapAdminUser, u_Email := bootstrapAdminEmail,
                        u_PasswordHash := hash, u_DisplayName := ''System Administrator'',
                        u_Status := UserStatusActive\<rparr>
          in case us_Create store now admin s of
               (Inl err, s) \<Rightarrow> (Inl err, s)
             | (Inr _, s) \<Rightarrow> (Inr (), s))"

text \<open>\<open>getenv\<close> is the environment of the process, with the empty string for a variable not set.\<close>

definition getEnvInt :: "(string \<Rightarrow> string) \<Rightarrow> string \<Rightarrow> int \<Rightarrow> int" where
  "getEnvInt getenv key defaultVal =
     (let val = getenv key
      in if val \<noteq> [] then (case strconv_ParseInt val of
                             None \<Rightarrow> defaultVal
                           | Some i \<Rightarrow> if int64 i then i else defaultVal)
         else defaultVal)"

text \<open>The values that reach \<open>runtime.GOMAXPROCS\<close> and \<open>debug.SetMemoryLimit\<close>.\<close>

definition setResourceLimits :: "(string \<Rightarrow> string) \<Rightarrow> int \<times> int" where
  "setResourceLimits getenv =
     (let cpuLimit = getEnvInt getenv ''CPU_LIMIT'' 1;
          memLimit = getEnvInt getenv ''MEM_LIMIT_MB'' 50
      in (cpuLimit, wrap64 (wrap64 (memLimit * 1024) * 1024)))"

definition main_auth :: auth_Service where
  "main_auth = auth_NewService
     \<lparr>cfg_JWTSecret = ''dev-secret-key-change-in-production'', cfg_TokenExpiry = 0, cfg_BcryptCost = 0\<rparr>"

text \<open>The state of the stores when the servers start, if start-up gets that far.\<close>

definition main_start :: "(string \<Rightarrow> string) \<Rightarrow> string \<Rightarrow> time \<Rightarrow> memory_world result" where
  "main_start lower uuid now =
     (case bootstrapAdmin (MemoryStore_Store lower) main_auth uuid now (w_users empty_world) of
        (Inl err, _) \<Rightarrow> Inl err
      | (Inr _, s) \<Rightarrow> Inr (empty_world\<lparr>w_users := s\<rparr>))"


section \<open>The process\<close>

text \<open>The parts of the surroundings that stay as they are while the process runs.\<close>

record surroundings =
  sr_gin :: gin_lib
  sr_jwt :: jwt_lib
  sr_lower :: "string \<Rightarrow> string"
  sr_pprof :: string

datatype process = Running memory_world | Exited

abbreviation services_of :: "surroundings \<Rightarrow> memory_services" where
  "services_of sr \<equiv> memory_services_of (sr_lower sr) main_auth"

text \<open>\<open>uuid.New()\<close> is new: no stored user has the identifier that a request would take.\<close>

inductive process_step :: "surroundings \<Rightarrow> process \<Rightarrow> process \<Rightarrow> bool" for sr :: surroundings where
  rest: "fresh_uuid env w \<Longrightarrow>
    serve_http (sr_gin sr) (sr_jwt sr) (services_of sr) (SetupRouter (sr_pprof sr)) tnow env rq w = (resp, w') \<Longrightarrow>
    process_step sr (Running w) (Running w')"
| uds: "Handle (services_of sr) env req w = Some (resp, w') \<Longrightarrow> process_step sr (Running w) (Running w')"
| uds_panic: "Handle (services_of sr) env req w = None \<Longrightarrow> process_step sr (Running w) Exited"
| udp: "handlePacket (sv_users (services_of sr)) (sv_auth (services_of sr)) now datagram (w_users w) = (answer, s) \<Longrightarrow>
    process_step sr (Running w) (Running (w\<lparr>w_users := s\<rparr>))"

inductive_cases process_stepE: "process_step sr (Running w) p"
inductive_simps process_step_Exited: "process_step sr Exited p"

inductive process_run :: "surroundings \<Rightarrow> memory_world \<Rightarrow> process \<Rightarrow> bool" for sr :: surroundings and w0 :: memory_world where
  start: "process_run sr w0 (Running w0)"
| step: "process_run sr w0 p \<Longrightarrow> process_step sr p p' \<Longrightarrow> process_run sr w0 p'"


section \<open>The invariants of the stores\<close>

lemma handlePacket_state:
  assumes "handlePacket (MemoryStore_Store lower) auth now datagram s = (answer, s')"
  shows "s' = s \<or> (\<exists>u n p. VerifyCredentials (MemoryStore_Store lower) auth n p s = Inr u \<and>
           s' = snd (SetOnline (MemoryStore_Store lower) now (u_ID u) True s))"
  using assms
  by (auto simp: handlePacket_def processPacket_def Let_def split: sum.splits prod.splits) (metis snd_conv)

lemma Handle_inv:
  "world_inv w \<Longrightarrow> Handle (memory_services_of lower auth) env req w = Some (resp, w') \<Longrightarrow> world_inv w'"
  using registry_sound unfolding sound_handler_def
  by (fastforce simp: Handle_def split: option.splits)

lemma handlePacket_inv:
  assumes "store_inv s" and "handlePacket (MemoryStore_Store lower) auth now datagram s = (answer, s')"
  shows "store_inv s'"
  using handlePacket_state [OF assms(2)] user_methods_inv(5) [OF assms(1)] assms(1) by (metis prod.collapse)

lemma process_step_inv:
  assumes "process_step sr (Running w) (Running w')" and inv: "world_inv w"
  shows "world_inv w'"
  using assms(1)
proof cases
  case (rest env tnow rq resp)
  then show ?thesis using serve_http_inv [OF inv] by blast
next
  case (uds env req resp)
  then show ?thesis using Handle_inv [OF inv] by blast
next
  case (udp now datagram answer s)
  then have "store_inv s" using inv by (auto simp: world_inv_def intro: handlePacket_inv)
  with udp(1) inv show ?thesis by (simp add: world_inv_def)
qed


section \<open>What becomes of an account\<close>

text \<open>
  The user \<open>u\<close> may become \<open>v\<close>: the identity stays, the password stays, and a deleted user
  stays exactly as it is.
\<close>

definition may_become :: "User \<Rightarrow> User \<Rightarrow> bool" where
  "may_become u v \<longleftrightarrow> u_ID v = u_ID u \<and> u_Username v = u_Username u \<and> u_PasswordHash v = u_PasswordHash u \<and>
     u_CreatedAt v = u_CreatedAt u \<and> (u_Status u = UserStatusDeleted \<longrightarrow> v = u)"

definition evolves :: "MemoryStore \<Rightarrow> MemoryStore \<Rightarrow> bool" where
  "evolves s s' \<longleftrightarrow> (\<forall>i u. ms_users s i = Some u \<longrightarrow> (\<exists>v. ms_users s' i = Some v \<and> may_become u v))"

lemma may_become_refl [simp]: "may_become u u"
  by (simp add: may_become_def)

lemma may_become_trans: "may_become u v \<Longrightarrow> may_become v w \<Longrightarrow> may_become u w"
  by (auto simp: may_become_def)

lemma evolves_refl [simp]: "evolves s s"
  by (simp add: evolves_def)

lemma evolves_trans: "evolves s s' \<Longrightarrow> evolves s' s'' \<Longrightarrow> evolves s s''"
  unfolding evolves_def by (meson may_become_trans)

lemma evolves_Update:
  assumes "u_Username u = []" and "u_PasswordHash u = []"
  shows "evolves s (snd (MemoryStore_Update now u s))"
  using assms
  by (auto simp: evolves_def may_become_def MemoryStore_Update_eq merge_user_def tbl_get_Inr live_def split: sum.split)

lemma evolves_Create:
  assumes "store_inv s" and "ms_users s (u_ID u) = None"
  shows "evolves s (snd (MemoryStore_Create now u s))"
  using assms by (auto simp: evolves_def MemoryStore_Create_eq)

lemma evolves_Delete: "evolves s (snd (MemoryStore_Delete now i s))"
  by (auto simp: evolves_def may_become_def MemoryStore_Delete_def split: option.split)

lemma evolves_methods:
  shows "store_inv s \<Longrightarrow> ms_users s uuid = None \<Longrightarrow>
      CreateUser (MemoryStore_Store lower) auth uuid now creq s = (r, s') \<Longrightarrow> evolves s s'"
    and "UpdateUser (MemoryStore_Store lower) now i ureq s = (r, s') \<Longrightarrow> evolves s s'"
    and "DeleteUser (MemoryStore_Store lower) now i s = (d, s') \<Longrightarrow> evolves s s'"
    and "SetOnline (MemoryStore_Store lower) now i b s = (d, s') \<Longrightarrow> evolves s s'"
    and "Logout (MemoryStore_Store lower) now i s = (d, s') \<Longrightarrow> evolves s s'"
    and "Login (MemoryStore_Store lower) lib auth now now' now'' n p s = (l, s') \<Longrightarrow> evolves s s'"
proof -
  show upd: "SetOnline (MemoryStore_Store lower) now i b s = (d, s') \<Longrightarrow> evolves s s'" for now i b d
    using evolves_Update [of "zero_User\<lparr>u_ID := i, u_IsOnline := b\<rparr>"] by (simp add: SetOnline_def) (metis snd_conv)
  then show "Logout (MemoryStore_Store lower) now i s = (d, s') \<Longrightarrow> evolves s s'"
    by (simp add: Logout_SetOnline)
  show "Login (MemoryStore_Store lower) lib auth now now' now'' n p s = (l, s') \<Longrightarrow> evolves s s'"
    using upd by (auto simp: Login_def SetOnline_def Let_def split: sum.splits prod.splits)
  show "DeleteUser (MemoryStore_Store lower) now i s = (d, s') \<Longrightarrow> evolves s s'"
    using evolves_Delete [of s now i] by (simp add: DeleteUser_def)
  show "UpdateUser (MemoryStore_Store lower) now i ureq s = (r, s') \<Longrightarrow> evolves s s'"
    using evolves_Update [of "zero_User\<lparr>u_ID := i, u_Email := uu_Email ureq,
        u_DisplayName := uu_DisplayName ureq, u_Status := uu_Status ureq\<rparr>" s now]
    by (auto simp: UpdateUser_def split: prod.splits sum.splits)
  show "store_inv s \<Longrightarrow> ms_users s uuid = None \<Longrightarrow>
      CreateUser (MemoryStore_Store lower) auth uuid now creq s = (r, s') \<Longrightarrow> evolves s s'"
    using evolves_Create [of s "zero_User\<lparr>u_ID := uuid, u_Username := cu_Username creq, u_Email := cu_Email creq,
        u_PasswordHash := cu_Password creq, u_DisplayName := cu_DisplayName creq, u_Status := UserStatusActive\<rparr>" now]
    by (cases "8 \<le> length (cu_Password creq)") (simp_all add: CreateUser_def HashPassword_def)
qed


section \<open>What a request may do to the stores\<close>

text \<open>
  Accounts evolve, and a membership that a request adds is that of a user in the table.
\<close>

definition progress :: "memory_world \<Rightarrow> memory_world \<Rightarrow> bool" where
  "progress w w' \<longleftrightarrow> evolves (w_users w) (w_users w') \<and>
     (\<forall>r \<in> org_rels (w_orgs w'). r \<in> org_rels (w_orgs w) \<or> ms_users (w_users w) (r_UserID r) \<noteq> None) \<and>
     (\<forall>m \<in> grp_rels (w_groups w'). m \<in> grp_rels (w_groups w) \<or> ms_users (w_users w) (m_UserID m) \<noteq> None)"

lemma progress_refl [simp]: "progress w w"
  by (simp add: progress_def)

lemma progress_users: "evolves (w_users w) s \<Longrightarrow> progress w (w\<lparr>w_users := s\<rparr>)"
  by (simp add: progress_def)

lemma progress_jobs [simp]: "progress w (w\<lparr>w_jobs := j\<rparr>)"
  by (simp add: progress_def)

lemma progress_orgs:
  "(\<And>r. r \<in> org_rels s \<Longrightarrow> r \<in> org_rels (w_orgs w) \<or> ms_users (w_users w) (r_UserID r) \<noteq> None) \<Longrightarrow>
     progress w (w\<lparr>w_orgs := s\<rparr>)"
  by (simp add: progress_def)

lemma progress_groups:
  "(\<And>m. m \<in> grp_rels s \<Longrightarrow> m \<in> grp_rels (w_groups w) \<or> ms_users (w_users w) (m_UserID m) \<noteq> None) \<Longrightarrow>
     progress w (w\<lparr>w_groups := s\<rparr>)"
  by (simp add: progress_def)

lemma progress_org_methods:
  assumes inv: "world_inv w"
  shows "CreateOrg MemoryOrgStore_Store uuid now creq (w_orgs w) = (r, s) \<Longrightarrow> progress w (w\<lparr>w_orgs := s\<rparr>)"
    and "UpdateOrg MemoryOrgStore_Store now i ureq (w_orgs w) = (r, s) \<Longrightarrow> progress w (w\<lparr>w_orgs := s\<rparr>)"
    and "DeleteOrg MemoryOrgStore_Store i (w_orgs w) = (d, s) \<Longrightarrow> progress w (w\<lparr>w_orgs := s\<rparr>)"
    and "AddOrgMember MemoryOrgStore_Store (MemoryStore_Store lower) i areq (w_users w) (w_orgs w) = (a, s) \<Longrightarrow>
           progress w (w\<lparr>w_orgs := s\<rparr>)"
    and "RemoveOrgMember MemoryOrgStore_Store i x (w_orgs w) = (d, s) \<Longrightarrow> progress w (w\<lparr>w_orgs := s\<rparr>)"
proof -
  have oi: "org_inv (w_orgs w)" and ui: "store_inv (w_users w)" using inv by (simp_all add: world_inv_def)
  show "CreateOrg MemoryOrgStore_Store uuid now creq (w_orgs w) = (r, s) \<Longrightarrow> progress w (w\<lparr>w_orgs := s\<rparr>)"
    using mem_org.create_ok mem_org.create_err
    by (cases r) (fastforce simp: CreateOrg_def intro: progress_orgs)+
  show "UpdateOrg MemoryOrgStore_Store now i ureq (w_orgs w) = (r, s) \<Longrightarrow> progress w (w\<lparr>w_orgs := s\<rparr>)"
    using mem_org.update_ok mem_org.update_err
    by (fastforce simp: UpdateOrg_def intro: progress_orgs split: prod.splits sum.splits)
  show "DeleteOrg MemoryOrgStore_Store i (w_orgs w) = (d, s) \<Longrightarrow> progress w (w\<lparr>w_orgs := s\<rparr>)"
    using mem_org.delete_ok [OF oi] mem_org.delete_err
    by (cases d) (fastforce simp: DeleteOrg_def intro: progress_orgs)+
  show "RemoveOrgMember MemoryOrgStore_Store i x (w_orgs w) = (d, s) \<Longrightarrow> progress w (w\<lparr>w_orgs := s\<rparr>)"
    using mem_org.remove_ok [OF oi] mem_org.remove_err [OF oi]
    by (cases d) (fastforce simp: RemoveOrgMember_def intro: progress_orgs)+
  show "progress w (w\<lparr>w_orgs := s\<rparr>)"
    if "AddOrgMember MemoryOrgStore_Store (MemoryStore_Store lower) i areq (w_users w) (w_orgs w) = (a, s)"
    using mem_dir.add_org_member [OF ui oi that]
    by (intro progress_orgs) (auto simp: tbl_get_Inr split: sum.splits if_splits)
qed

lemma progress_group_methods:
  assumes inv: "world_inv w"
  shows "CreateGroup MemoryGroupStore_Store uuid now creq (w_groups w) = (r, s) \<Longrightarrow> progress w (w\<lparr>w_groups := s\<rparr>)"
    and "UpdateGroup MemoryGroupStore_Store now i ureq (w_groups w) = (r, s) \<Longrightarrow> progress w (w\<lparr>w_groups := s\<rparr>)"
    and "DeleteGroup MemoryGroupStore_Store i (w_groups w) = (d, s) \<Longrightarrow> progress w (w\<lparr>w_groups := s\<rparr>)"
    and "AddGroupMember MemoryGroupStore_Store (MemoryStore_Store lower) now i areq (w_users w) (w_groups w) = (a, s) \<Longrightarrow>
           progress w (w\<lparr>w_groups := s\<rparr>)"
    and "RemoveGroupMember MemoryGroupStore_Store i x (w_groups w) = (d, s) \<Longrightarrow> progress w (w\<lparr>w_groups := s\<rparr>)"
proof -
  have gi: "grp_inv (w_groups w)" and ui: "store_inv (w_users w)" using inv by (simp_all add: world_inv_def)
  show "CreateGroup MemoryGroupStore_Store uuid now creq (w_groups w) = (r, s) \<Longrightarrow> progress w (w\<lparr>w_groups := s\<rparr>)"
    using mem_grp.create_ok mem_grp.create_err
    by (cases r) (fastforce simp: CreateGroup_def intro: progress_groups)+
  show "UpdateGroup MemoryGroupStore_Store now i ureq (w_groups w) = (r, s) \<Longrightarrow> progress w (w\<lparr>w_groups := s\<rparr>)"
    using mem_grp.update_ok mem_grp.update_err
    by (fastforce simp: UpdateGroup_def intro: progress_groups split: prod.splits sum.splits)
  show "DeleteGroup MemoryGroupStore_Store i (w_groups w) = (d, s) \<Longrightarrow> progress w (w\<lparr>w_groups := s\<rparr>)"
    using mem_grp.delete_ok [OF gi] mem_grp.delete_err
    by (cases d) (fastforce simp: DeleteGroup_def intro: progress_groups)+
  show "RemoveGroupMember MemoryGroupStore_Store i x (w_groups w) = (d, s) \<Longrightarrow> progress w (w\<lparr>w_groups := s\<rparr>)"
    using mem_grp.remove_ok [OF gi] mem_grp.remove_err [OF gi]
    by (cases d) (fastforce simp: RemoveGroupMember_def intro: progress_groups)+
  show "progress w (w\<lparr>w_groups := s\<rparr>)"
    if "AddGroupMember MemoryGroupStore_Store (MemoryStore_Store lower) now i areq (w_users w) (w_groups w) = (a, s)"
    using mem_dir.add_group_member [OF ui gi that]
    by (intro progress_groups) (auto simp: tbl_get_Inr split: sum.splits if_splits)
qed

lemmas progress_user_methods = evolves_methods [THEN progress_users]

text \<open>Every endpoint of the REST interface and every action of the Unix socket is such a step.\<close>

definition progressive_endpoint :: "(MemoryStore, MemorySyncJobStore, MemoryOrgStore, MemoryGroupStore) http_handler \<Rightarrow> bool" where
  "progressive_endpoint h \<longleftrightarrow> (\<forall>gin lib lower auth env rq c w resp w'. world_inv w \<longrightarrow> fresh_uuid env w \<longrightarrow>
     h gin lib (memory_services_of lower auth) env rq c w = Some (resp, w') \<longrightarrow> progress w w')"

lemma progressive_endpointI:
  assumes "\<And>gin lib lower auth env rq c w resp w'. world_inv w \<Longrightarrow> fresh_uuid env w \<Longrightarrow>
     h gin lib (memory_services_of lower auth) env rq c w = Some (resp, w') \<Longrightarrow> progress w w'"
  shows "progressive_endpoint h"
  using assms unfolding progressive_endpoint_def by blast

lemma progressive_user_endpoints:
  "progressive_endpoint Handler_CreateUser" "progressive_endpoint Handler_GetUser" "progressive_endpoint Handler_UpdateUser"
  "progressive_endpoint Handler_DeleteUser" "progressive_endpoint Handler_ListUsers" "progressive_endpoint Handler_Login"
  "progressive_endpoint Handler_CreateSyncJob" "progressive_endpoint Handler_GetSyncJob"
  "progressive_endpoint Handler_GetOnlineCount" "progressive_endpoint Handler_Logout" "progressive_endpoint Handler_Online"
  "progressive_endpoint Health" "progressive_endpoint (Pprof name)"
  by (rule progressive_endpointI; auto simp: user_endpoint_defs Let_def world_inv_def fresh_uuid_def
      split: endpoint_splits dest: progress_user_methods)+

lemma progressive_org_endpoints:
  "progressive_endpoint DirectoryHandler_CreateOrg" "progressive_endpoint DirectoryHandler_GetOrg"
  "progressive_endpoint DirectoryHandler_UpdateOrg" "progressive_endpoint DirectoryHandler_DeleteOrg"
  "progressive_endpoint DirectoryHandler_ListOrgs" "progressive_endpoint DirectoryHandler_ListOrgChildren"
  "progressive_endpoint DirectoryHandler_AddOrgMember" "progressive_endpoint DirectoryHandler_RemoveOrgMember"
  "progressive_endpoint DirectoryHandler_ListOrgMembers" "progressive_endpoint DirectoryHandler_GetUserOrgs"
  by (rule progressive_endpointI; auto simp: org_endpoint_defs Let_def
      split: endpoint_splits dest: progress_org_methods)+

lemma progressive_group_endpoints:
  "progressive_endpoint DirectoryHandler_CreateGroup" "progressive_endpoint DirectoryHandler_GetGroup"
  "progressive_endpoint DirectoryHandler_UpdateGroup" "progressive_endpoint DirectoryHandler_DeleteGroup"
  "progressive_endpoint DirectoryHandler_ListGroups" "progressive_endpoint DirectoryHandler_AddGroupMember"
  "progressive_endpoint DirectoryHandler_RemoveGroupMember" "progressive_endpoint DirectoryHandler_ListGroupMembers"
  "progressive_endpoint DirectoryHandler_GetUserGroups"
  by (rule progressive_endpointI; auto simp: group_endpoint_defs Let_def
      split: endpoint_splits dest: progress_group_methods)+

lemma progressive_endpoints: "progressive_endpoint (endpoint_handler ep)"
  by (cases ep) (simp_all add: progressive_user_endpoints progressive_org_endpoints progressive_group_endpoints)

lemma serve_http_progress:
  assumes "world_inv w" and "fresh_uuid env w"
    and "serve_http gin lib (memory_services_of lower auth) router tnow env rq w = (resp, w')"
  shows "progress w w'"
proof -
  have "progress w w'" if "endpoint_handler ep gin lib (memory_services_of lower auth) env rq c w = Some (resp, w')"
    for ep c
    using progressive_endpoints [of ep] assms(1,2) that unfolding progressive_endpoint_def by blast
  with assms show ?thesis
    by (auto simp: serve_http_def Let_def split: option.splits prod.splits sum.splits if_splits)
qed

definition progressive_handler :: "(MemoryStore, MemorySyncJobStore, MemoryOrgStore, MemoryGroupStore) ActionHandler \<Rightarrow> bool" where
  "progressive_handler h \<longleftrightarrow> (\<forall>lower auth env payload i w resp w'. world_inv w \<longrightarrow>
     h (memory_services_of lower auth) env payload i w = Some (resp, w') \<longrightarrow> progress w w')"

lemma progressive_handlerI:
  assumes "\<And>lower auth env payload i w resp w'. world_inv w \<Longrightarrow>
     h (memory_services_of lower auth) env payload i w = Some (resp, w') \<Longrightarrow> progress w w'"
  shows "progressive_handler h"
  using assms unfolding progressive_handler_def by blast

lemma progressive_user_handlers:
  "progressive_handler handleAuth" "progressive_handler handleGetUser" "progressive_handler handleTriggerSync"
  "progressive_handler handlePing"
  by (rule progressive_handlerI; auto simp: user_handler_defs Let_def split: handler_splits)+

lemma progressive_org_handlers:
  "progressive_handler handleCreateOrg" "progressive_handler handleGetOrg" "progressive_handler handleListOrgs"
  "progressive_handler handleAddOrgMember" "progressive_handler handleRemoveOrgMember"
  "progressive_handler handleListOrgMembers" "progressive_handler handleGetUserOrgs"
  by (rule progressive_handlerI; auto simp: org_handler_defs Let_def split: handler_splits
      dest: progress_org_methods)+

lemma progressive_group_handlers:
  "progressive_handler handleCreateGroup" "progressive_handler handleGetGroup" "progressive_handler handleListGroups"
  "progressive_handler handleAddGroupMember" "progressive_handler handleRemoveGroupMember"
  "progressive_handler handleListGroupMembers" "progressive_handler handleGetUserGroups"
  by (rule progressive_handlerI; auto simp: group_handler_defs Let_def split: handler_splits
      dest: progress_group_methods)+

lemma registry_progressive: "NewHandlerRegistry action = Some h \<Longrightarrow> progressive_handler h"
  by (auto simp: NewHandlerRegistry_def register_def progressive_user_handlers progressive_org_handlers
      progressive_group_handlers split: if_splits)

lemma Handle_progress:
  "world_inv w \<Longrightarrow> Handle (memory_services_of lower auth) env req w = Some (resp, w') \<Longrightarrow> progress w w'"
  using registry_progressive unfolding progressive_handler_def
  by (fastforce simp: Handle_def split: option.splits)

lemma handlePacket_evolves:
  assumes "handlePacket (MemoryStore_Store lower) auth now datagram s = (answer, s')"
  shows "evolves s s'"
  using handlePacket_state [OF assms] evolves_methods(4) by (metis evolves_refl prod.collapse)

lemma process_step_progress:
  assumes "process_step sr (Running w) (Running w')" and inv: "world_inv w"
  shows "progress w w'"
  using assms(1)
proof cases
  case (rest env tnow rq resp)
  then show ?thesis using serve_http_progress [OF inv] by blast
next
  case (uds env req resp)
  then show ?thesis using Handle_progress [OF inv] by blast
next
  case (udp now datagram answer s)
  then show ?thesis by (auto intro: progress_users handlePacket_evolves)
qed

text \<open>Over a whole run: accounts evolve, and every member is a user.\<close>

definition members_known :: "memory_world \<Rightarrow> bool" where
  "members_known w \<longleftrightarrow>
     (\<forall>r \<in> org_rels (w_orgs w). ms_users (w_users w) (r_UserID r) \<noteq> None) \<and>
     (\<forall>m \<in> grp_rels (w_groups w). ms_users (w_users w) (m_UserID m) \<noteq> None)"

lemma progress_members_known: "progress w w' \<Longrightarrow> members_known w \<Longrightarrow> members_known w'"
  unfolding progress_def members_known_def evolves_def by (metis option.distinct(1) option.exhaust)

lemma process_run_history:
  assumes "process_run sr w0 p" and "world_inv w0" and "p = Running w"
  shows "world_inv w \<and> evolves (w_users w0) (w_users w) \<and> (members_known w0 \<longrightarrow> members_known w)"
  using assms
proof (induction arbitrary: w)
  case (step p p')
  then obtain w1 where p: "p = Running w1" by (cases p) (auto simp: process_step_Exited)
  then have w1: "world_inv w1" "evolves (w_users w0) (w_users w1)" "members_known w0 \<longrightarrow> members_known w1"
    using step by blast+
  have "process_step sr (Running w1) (Running w)" using step p by simp
  then have "world_inv w" and pr: "progress w1 w"
    using process_step_inv process_step_progress w1(1) by blast+
  moreover have "evolves (w_users w0) (w_users w)"
    using evolves_trans [OF w1(2)] pr by (simp add: progress_def)
  ultimately show ?case using w1(3) progress_members_known by blast
qed simp

end
