(* ===== verification/Traceback.thy ===== *)
theory Traceback
  imports System
begin

text \<open>
  Facts of the user table are traced back to the requests that brought them about: who
  made an account, and why a user is online.
\<close>

section \<open>What a request adds to the user table\<close>

text \<open>Between two states only the identifiers \<open>N\<close> are new, and only users in \<open>S\<close> have come online.\<close>

definition adds :: "string set \<Rightarrow> string set \<Rightarrow> MemoryStore \<Rightarrow> MemoryStore \<Rightarrow> bool" where
  "adds N S s s' \<longleftrightarrow> (\<forall>i u. ms_users s' i = Some u \<longrightarrow>
     (case ms_users s i of
        None \<Rightarrow> i \<in> N \<and> \<not> u_IsOnline u
      | Some v \<Rightarrow> u_IsOnline u \<longrightarrow> u_IsOnline v \<or> i \<in> S))"

lemma adds_refl [simp]: "adds N S s s"
  by (simp add: adds_def)

lemma adds_new: "adds N S s s' \<Longrightarrow> ms_users s' i = Some u \<Longrightarrow> ms_users s i = None \<Longrightarrow> i \<in> N"
  unfolding adds_def by (auto dest!: spec [of _ i])

lemma adds_online:
  "adds N S s s' \<Longrightarrow> ms_users s' i = Some u \<Longrightarrow> u_IsOnline u \<Longrightarrow> (\<exists>v. ms_users s i = Some v \<and> u_IsOnline v) \<or> i \<in> S"
  unfolding adds_def by (cases "ms_users s i") (auto dest!: spec [of _ i])

lemma adds_mono: "adds N S s s' \<Longrightarrow> N \<subseteq> N' \<Longrightarrow> S \<subseteq> S' \<Longrightarrow> adds N' S' s s'"
  unfolding adds_def by (fastforce split: option.splits)

lemma adds_Update: "adds {} (if u_IsOnline u then {u_ID u} else {}) s (snd (MemoryStore_Update now u s))"
  by (auto simp: adds_def MemoryStore_Update_eq tbl_get_Inr merge_user_def Let_def split: sum.split option.split)

lemma adds_Delete: "adds {} {} s (snd (MemoryStore_Delete now i s))"
  by (auto simp: adds_def MemoryStore_Delete_def split: option.splits if_splits)

lemma adds_Create: "\<not> u_IsOnline u \<Longrightarrow> ms_users s (u_ID u) = None \<Longrightarrow> adds {u_ID u} {} s (snd (MemoryStore_Create now u s))"
  by (auto simp: adds_def MemoryStore_Create_eq stamp_new_user_def Let_def split: option.splits)

lemma adds_methods:
  shows "ms_users s uuid = None \<Longrightarrow>
      CreateUser (MemoryStore_Store lower) auth uuid now creq s = (r, s') \<Longrightarrow> adds {uuid} {} s s'"
    and "UpdateUser (MemoryStore_Store lower) now i ureq s = (r, s') \<Longrightarrow> adds {} {} s s'"
    and "DeleteUser (MemoryStore_Store lower) now i s = (d, s') \<Longrightarrow> adds {} {} s s'"
    and "SetOnline (MemoryStore_Store lower) now i True s = (d, s') \<Longrightarrow> adds {} {i} s s'"
    and "Logout (MemoryStore_Store lower) now i s = (d, s') \<Longrightarrow> adds {} {} s s'"
proof -
  show "SetOnline (MemoryStore_Store lower) now i True s = (d, s') \<Longrightarrow> adds {} {i} s s'"
    using adds_Update [of "zero_User\<lparr>u_ID := i, u_IsOnline := True\<rparr>" s now] by (simp add: SetOnline_def)
  show "Logout (MemoryStore_Store lower) now i s = (d, s') \<Longrightarrow> adds {} {} s s'"
    using adds_Update [of "zero_User\<lparr>u_ID := i, u_IsOnline := False\<rparr>" s now] by (simp add: Logout_def)
  show "DeleteUser (MemoryStore_Store lower) now i s = (d, s') \<Longrightarrow> adds {} {} s s'"
    using adds_Delete [of s now i] by (simp add: DeleteUser_def)
  show "UpdateUser (MemoryStore_Store lower) now i ureq s = (r, s') \<Longrightarrow> adds {} {} s s'"
    using adds_Update [of "zero_User\<lparr>u_ID := i, u_Email := uu_Email ureq,
        u_DisplayName := uu_DisplayName ureq, u_Status := uu_Status ureq\<rparr>" s now]
    by (auto simp: UpdateUser_def split: prod.splits sum.splits)
  show "ms_users s uuid = None \<Longrightarrow>
      CreateUser (MemoryStore_Store lower) auth uuid now creq s = (r, s') \<Longrightarrow> adds {uuid} {} s s'"
    using adds_Create [of "zero_User\<lparr>u_ID := uuid, u_Username := cu_Username creq, u_Email := cu_Email creq,
        u_PasswordHash := cu_Password creq, u_DisplayName := cu_DisplayName creq, u_Status := UserStatusActive\<rparr>" s now]
    by (cases "8 \<le> length (cu_Password creq)") (simp_all add: CreateUser_def HashPassword_def)
qed

lemma adds_Login:
  assumes "Login (MemoryStore_Store lower) lib auth now now' now'' n p s = (l, s')"
  shows "adds {} {u_ID u |u. VerifyCredentials (MemoryStore_Store lower) auth n p s = Inr u} s s'"
proof (cases "VerifyCredentials (MemoryStore_Store lower) auth n p s")
  case (Inr u)
  have "s' = snd (MemoryStore_Update now (zero_User\<lparr>u_ID := u_ID u, u_IsOnline := True\<rparr>) s)"
    using assms Inr by (auto simp: Login_def Let_def split: sum.splits prod.splits)
  with adds_Update [of "zero_User\<lparr>u_ID := u_ID u, u_IsOnline := True\<rparr>" s now] Inr show ?thesis by simp
qed (use assms in \<open>simp add: Login_def\<close>)


section \<open>Every endpoint and action\<close>

text \<open>The users that a call of an endpoint may bring online.\<close>

definition signs_on :: "gin_lib \<Rightarrow> (string \<Rightarrow> string) \<Rightarrow> auth_Service \<Rightarrow> endpoint \<Rightarrow> http_request \<Rightarrow> gin_Context \<Rightarrow> MemoryStore \<Rightarrow> string set" where
  "signs_on gin lower auth ep rq c s =
     (if ep = EpLogin then
        {u_ID u |u req. gl_Login gin (rq_body rq) = Inr req \<and>
           VerifyCredentials (MemoryStore_Store lower) auth (lg_Username req) (lg_Password req) s = Inr u}
      else if ep = EpOnline then {GetString_user_id c} else {})"

definition quiet_endpoint :: "(MemoryStore, MemorySyncJobStore, MemoryOrgStore, MemoryGroupStore) http_handler \<Rightarrow> bool" where
  "quiet_endpoint h \<longleftrightarrow> (\<forall>gin lib lower auth env rq c w resp w'.
     h gin lib (memory_services_of lower auth) env rq c w = Some (resp, w') \<longrightarrow> adds {} {} (w_users w) (w_users w'))"

lemma quiet_endpointI:
  assumes "\<And>gin lib lower auth env rq c w resp w'.
     h gin lib (memory_services_of lower auth) env rq c w = Some (resp, w') \<Longrightarrow> adds {} {} (w_users w) (w_users w')"
  shows "quiet_endpoint h"
  using assms unfolding quiet_endpoint_def by blast

lemma quiet_user_endpoints:
  "quiet_endpoint Handler_GetUser" "quiet_endpoint Handler_UpdateUser" "quiet_endpoint Handler_DeleteUser"
  "quiet_endpoint Handler_ListUsers" "quiet_endpoint Handler_CreateSyncJob" "quiet_endpoint Handler_GetSyncJob"
  "quiet_endpoint Handler_GetOnlineCount" "quiet_endpoint Handler_Logout" "quiet_endpoint Health" "quiet_endpoint (Pprof name)"
  by (rule quiet_endpointI; auto simp: user_endpoint_defs Let_def split: endpoint_splits dest: adds_methods)+

lemma quiet_org_endpoints:
  "quiet_endpoint DirectoryHandler_CreateOrg" "quiet_endpoint DirectoryHandler_GetOrg"
  "quiet_endpoint DirectoryHandler_UpdateOrg" "quiet_endpoint DirectoryHandler_DeleteOrg"
  "quiet_endpoint DirectoryHandler_ListOrgs" "quiet_endpoint DirectoryHandler_ListOrgChildren"
  "quiet_endpoint DirectoryHandler_AddOrgMember" "quiet_endpoint DirectoryHandler_RemoveOrgMember"
  "quiet_endpoint DirectoryHandler_ListOrgMembers" "quiet_endpoint DirectoryHandler_GetUserOrgs"
  by (rule quiet_endpointI; auto simp: org_endpoint_defs Let_def split: endpoint_splits)+

lemma quiet_group_endpoints:
  "quiet_endpoint DirectoryHandler_CreateGroup" "quiet_endpoint DirectoryHandler_GetGroup"
  "quiet_endpoint DirectoryHandler_UpdateGroup" "quiet_endpoint DirectoryHandler_DeleteGroup"
  "quiet_endpoint DirectoryHandler_ListGroups" "quiet_endpoint DirectoryHandler_AddGroupMember"
  "quiet_endpoint DirectoryHandler_RemoveGroupMember" "quiet_endpoint DirectoryHandler_ListGroupMembers"
  "quiet_endpoint DirectoryHandler_GetUserGroups"
  by (rule quiet_endpointI; auto simp: group_endpoint_defs Let_def split: endpoint_splits)+

lemma quiet_endpoints: "ep \<notin> {EpCreateUser, EpLogin, EpOnline} \<Longrightarrow> quiet_endpoint (endpoint_handler ep)"
  by (cases ep) (simp_all add: quiet_user_endpoints quiet_org_endpoints quiet_group_endpoints)

lemma endpoint_adds:
  assumes h: "endpoint_handler ep gin lib (memory_services_of lower auth) env rq c w = Some (resp, w')"
    and fresh: "fresh_uuid env w"
  shows "adds (if ep = EpCreateUser then {ev_uuid env} else {}) (signs_on gin lower auth ep rq c (w_users w)) (w_users w) (w_users w')"
proof -
  consider "ep = EpCreateUser" | "ep = EpLogin" | "ep = EpOnline" | "ep \<notin> {EpCreateUser, EpLogin, EpOnline}" by blast
  then show ?thesis
  proof cases
    case 1
    with h fresh show ?thesis
      by (auto simp: Handler_CreateUser_def signs_on_def fresh_uuid_def split: endpoint_splits dest: adds_methods(1))
  next
    case 2
    with h show ?thesis
      by (auto simp: Handler_Login_def signs_on_def split: endpoint_splits dest: adds_Login)
  next
    case 3
    with h show ?thesis
      by (auto simp: Handler_Online_def signs_on_def Let_def split: endpoint_splits dest: adds_methods(4))
  next
    case 4
    with h quiet_endpoints [OF 4] show ?thesis unfolding quiet_endpoint_def signs_on_def by auto
  qed
qed

lemma Handle_adds: "Handle (memory_services_of lower auth) env req w = Some (resp, w') \<Longrightarrow> w_users w' = w_users w"
  by (auto simp: Handle_def NewHandlerRegistry_def register_def user_handler_defs org_handler_defs group_handler_defs Let_def
      split: handler_splits)


section \<open>Tracing back\<close>

text \<open>
  Why a user comes online in a step: its credentials are right in a login over REST or in a
  datagram, or a token names it in a request to go online.
\<close>

definition sign_on_cause :: "surroundings \<Rightarrow> memory_world \<Rightarrow> string \<Rightarrow> bool" where
  "sign_on_cause sr w i \<longleftrightarrow>
     (\<exists>body req u. gl_Login (sr_gin sr) body = Inr req \<and> u_ID u = i \<and>
        VerifyCredentials (MemoryStore_Store (sr_lower sr)) main_auth (lg_Username req) (lg_Password req) (w_users w) = Inr u) \<or>
     (\<exists>(rq::http_request) tnow claims. JWTMiddleware (sr_jwt sr) main_auth tnow rq = Inr claims \<and> c_UserID claims = i) \<or>
     (\<exists>datagram n p u. parseAuthRequest (take 2048 datagram) = Inr (n, p) \<and> u_ID u = i \<and>
        VerifyCredentials (MemoryStore_Store (sr_lower sr)) main_auth n p (w_users w) = Inr u)"

text \<open>A request that creates the account \<open>i\<close> between two states.\<close>

definition creates_account ::
  "surroundings \<Rightarrow> memory_world \<Rightarrow> http_request \<Rightarrow> Claims \<Rightarrow> CreateUserRequest \<Rightarrow> string \<Rightarrow> memory_world \<Rightarrow> bool" where
  "creates_account sr w rq claims creq i w' \<longleftrightarrow>
     ms_users (w_users w) i = None \<and> gl_CreateUser (sr_gin sr) (rq_body rq) = Inr creq \<and>
     (\<exists>tnow. JWTMiddleware (sr_jwt sr) main_auth tnow rq = Inr claims) \<and>
     (\<exists>u. ms_users (w_users w') i = Some u \<and> u_Username u = cu_Username creq \<and> u_PasswordHash u = cu_Password creq)"

lemma created_user:
  assumes "CreateUser (MemoryStore_Store lower) auth uuid now creq s = (r, s')" and "ms_users s i = None" and "ms_users s' i = Some u"
  shows "u_Username u = cu_Username creq \<and> u_PasswordHash u = cu_Password creq"
  using assms
  by (cases "8 \<le> length (cu_Password creq)")
    (auto simp: CreateUser_def HashPassword_def MemoryStore_Create_eq stamp_new_user_def Let_def split: if_splits)

lemma create_endpoint_exact:
  assumes "Handler_CreateUser gin lib (memory_services_of lower auth) env rq c w = Some (resp, w')"
    and "ms_users (w_users w) i = None" and "ms_users (w_users w') i = Some u"
  shows "\<exists>creq. gl_CreateUser gin (rq_body rq) = Inr creq \<and> u_Username u = cu_Username creq \<and> u_PasswordHash u = cu_Password creq"
proof -
  from assms obtain creq r s where creq: "gl_CreateUser gin (rq_body rq) = Inr creq" and w': "w_users w' = s"
    and c: "CreateUser (MemoryStore_Store lower) auth (ev_uuid env) (ev_now env) creq (w_users w) = (r, s)"
    by (auto simp: Handler_CreateUser_def split: endpoint_splits)
  have "u_Username u = cu_Username creq \<and> u_PasswordHash u = cu_Password creq"
    using created_user [OF c assms(2)] assms(3) w' by simp
  with creq show ?thesis by blast
qed

text \<open>Which endpoint ran, and that it ran behind the token check if its route asks for one.\<close>

lemma serve_http_ran:
  assumes "serve_http gin lib sv router tnow env rq w = (resp, w')" and "gin_routes gin"
  shows "w' = w \<or> (\<exists>m path protected ep c. (m, path, protected, ep) \<in> set router \<and>
    endpoint_handler ep gin lib sv env rq c w = Some (resp, w') \<and>
    (if protected then \<exists>claims. JWTMiddleware lib (sv_auth sv) tnow rq = Inr claims \<and> cx_claims c = Some claims else cx_claims c = None))"
proof (cases "gl_find gin router (rq_method rq) (rq_path rq)")
  case (Some found)
  then obtain m path protected ep params where f: "found = ((m, path, protected, ep), params)"
    by (metis prod.exhaust)
  with Some assms(2) have mem: "(m, path, protected, ep) \<in> set router" unfolding gin_routes_def by blast
  show ?thesis
  proof (cases protected)
    case True
    with assms(1) Some f mem show ?thesis
      by (fastforce simp: serve_http_def Let_def split: option.splits sum.splits)
  next
    case False
    with assms(1) Some f mem show ?thesis
      by (fastforce simp: serve_http_def Let_def split: option.splits)
  qed
qed (use assms(1) in \<open>simp add: serve_http_def\<close>)

lemma protected_endpoints:
  "(m, path, protected, ep) \<in> set (SetupRouter pprof) \<Longrightarrow> ep = EpCreateUser \<or> ep = EpOnline \<Longrightarrow> protected"
  using unprotected_routes [of m path ep pprof] by (cases protected) auto

lemma rest_step_traced:
  assumes "gin_routes (sr_gin sr)" and fresh: "fresh_uuid env w"
    and "serve_http (sr_gin sr) (sr_jwt sr) (services_of sr) (SetupRouter (sr_pprof sr)) tnow env rq w = (resp, w')"
  shows "ms_users (w_users w) i = None \<Longrightarrow> ms_users (w_users w') i = Some u \<Longrightarrow>
      \<exists>rq claims creq. creates_account sr w rq claims creq i w'"
    and "ms_users (w_users w') i = Some u \<Longrightarrow> u_IsOnline u \<Longrightarrow>
      (\<exists>v. ms_users (w_users w) i = Some v \<and> u_IsOnline v) \<or> sign_on_cause sr w i"
proof -
  consider "w' = w" | m path protected ep c where "(m, path, protected, ep) \<in> set (SetupRouter (sr_pprof sr))"
    "endpoint_handler ep (sr_gin sr) (sr_jwt sr) (services_of sr) env rq c w = Some (resp, w')"
    "if protected then \<exists>claims. JWTMiddleware (sr_jwt sr) main_auth tnow rq = Inr claims \<and> cx_claims c = Some claims else cx_claims c = None"
    using serve_http_ran [OF assms(3,1)] unfolding memory_services_simps by blast
  note ran = this
  show "\<exists>rq claims creq. creates_account sr w rq claims creq i w'"
    if new: "ms_users (w_users w) i = None" and u: "ms_users (w_users w') i = Some u"
    using ran
  proof cases
    case 2
    have ep: "ep = EpCreateUser"
      using adds_new [OF endpoint_adds [OF 2(2) fresh] u new] by (auto split: if_splits)
    then have protected using protected_endpoints [OF 2(1)] by simp
    with 2(3) obtain claims where "JWTMiddleware (sr_jwt sr) main_auth tnow rq = Inr claims" by auto
    moreover obtain creq where "gl_CreateUser (sr_gin sr) (rq_body rq) = Inr creq"
      "u_Username u = cu_Username creq \<and> u_PasswordHash u = cu_Password creq"
      using create_endpoint_exact [OF 2(2) [unfolded ep endpoint_handler.simps] new u] by blast
    ultimately show ?thesis using new u unfolding creates_account_def by blast
  qed (use new u in simp)
  show "(\<exists>v. ms_users (w_users w) i = Some v \<and> u_IsOnline v) \<or> sign_on_cause sr w i"
    if u: "ms_users (w_users w') i = Some u" "u_IsOnline u"
    using ran
  proof cases
    case 2
    from adds_online [OF endpoint_adds [OF 2(2) fresh] u]
    consider "\<exists>v. ms_users (w_users w) i = Some v \<and> u_IsOnline v"
      | "i \<in> signs_on (sr_gin sr) (sr_lower sr) main_auth ep rq c (w_users w)" by blast
    then show ?thesis
    proof cases
      case on: 2
      then consider "ep = EpLogin" | "ep = EpOnline" by (auto simp: signs_on_def split: if_splits)
      then show ?thesis
      proof cases
        case 1
        with on show ?thesis unfolding sign_on_cause_def by (auto simp: signs_on_def)
      next
        case ep: 2
        then have protected using protected_endpoints [OF 2(1)] by simp
        with 2(3) obtain claims where "JWTMiddleware (sr_jwt sr) main_auth tnow rq = Inr claims" "cx_claims c = Some claims" by auto
        with on ep show ?thesis unfolding sign_on_cause_def by (auto simp: signs_on_def GetString_user_id_def)
      qed
    qed blast
  qed (use u in blast)
qed

lemma udp_step_traced:
  assumes "handlePacket (MemoryStore_Store (sr_lower sr)) main_auth now datagram (w_users w) = (answer, s)"
  shows "adds {} {i. sign_on_cause sr w i} (w_users w) s"
proof (cases "parseAuthRequest (take 2048 datagram)")
  case (Inr np)
  obtain n p where np: "np = (n, p)" by force
  show ?thesis
  proof (cases "VerifyCredentials (MemoryStore_Store (sr_lower sr)) main_auth n p (w_users w)")
    case (Inr u)
    with \<open>parseAuthRequest (take 2048 datagram) = Inr np\<close> np have "sign_on_cause sr w (u_ID u)"
      unfolding sign_on_cause_def by blast
    moreover have "\<exists>d. SetOnline (MemoryStore_Store (sr_lower sr)) now (u_ID u) True (w_users w) = (d, s)"
      using assms \<open>parseAuthRequest (take 2048 datagram) = Inr np\<close> np Inr
      by (auto simp: handlePacket_def processPacket_def Let_def split: prod.splits)
    ultimately show ?thesis using adds_methods(4) adds_mono by (metis Collect_mem_eq empty_subsetI insert_subset mem_Collect_eq)
  qed (use assms Inr np in \<open>simp add: handlePacket_def processPacket_def\<close>)
qed (use assms in \<open>simp add: handlePacket_def processPacket_def\<close>)

lemma process_step_traced:
  assumes "process_step sr (Running w) (Running w')" and "gin_routes (sr_gin sr)" and u: "ms_users (w_users w') i = Some u"
  shows "(ms_users (w_users w) i = None \<longrightarrow> (\<exists>rq claims creq. creates_account sr w rq claims creq i w')) \<and>
    (u_IsOnline u \<longrightarrow> (\<exists>v. ms_users (w_users w) i = Some v \<and> u_IsOnline v) \<or> sign_on_cause sr w i)"
  using assms(1)
proof cases
  case (rest env tnow rq resp)
  then show ?thesis using rest_step_traced [OF assms(2) rest, of i u] u by blast
next
  case (uds env req resp)
  then have "w_users w' = w_users w" by (rule Handle_adds)
  with u show ?thesis by simp
next
  case (udp now datagram answer s)
  have a: "adds {} {i. sign_on_cause sr w i} (w_users w) s"
    using udp(2) by (intro udp_step_traced) simp
  show ?thesis using adds_new [OF a, of i u] adds_online [OF a, of i u] udp(1) u by auto
qed

text \<open>Runs can be put together.\<close>

lemma process_run_trans: "process_run sr w1 p \<Longrightarrow> process_run sr w0 (Running w1) \<Longrightarrow> process_run sr w0 p"
  by (induction rule: process_run.induct) (auto intro: process_run.step)

text \<open>The last step of a run that made something true which was false at the start.\<close>

lemma process_run_cause:
  assumes "process_run sr w0 p" and "p = Running w" and "P w" and "\<not> P w0"
  shows "\<exists>w1 w2. process_run sr w0 (Running w1) \<and> process_step sr (Running w1) (Running w2) \<and> process_run sr w2 (Running w) \<and>
    \<not> P w1 \<and> P w2"
  using assms
proof (induction arbitrary: w)
  case (step p p')
  then obtain w1 where p: "p = Running w1" by (cases p) (auto simp: process_step_Exited)
  show ?case
  proof (cases "P w1")
    case True
    from step.IH [OF p True step.prems(3)] obtain w2 w3 where
      "process_run sr w0 (Running w2)" "process_step sr (Running w2) (Running w3)" "process_run sr w3 (Running w1)" "\<not> P w2" "P w3"
      by blast
    then show ?thesis using process_run.step step.hyps(2) step.prems(1) p by blast
  next
    case False
    with step.hyps step.prems p process_run.start show ?thesis by blast
  qed
qed simp

end
