(* ===== verification/Lifecycle.thy ===== *)
theory Lifecycle
  imports System
begin

text \<open>
  Starting and stopping: \<open>Start\<close> and \<open>Stop\<close> of the servers in \<open>internal/uds/server.go\<close> and
  \<open>internal/udp/server.go\<close>, and the order in which \<open>main\<close> of \<open>cmd/main.go\<close> calls them. The
  packages \<open>os\<close> and \<open>net\<close> act on a \<open>host\<close>: the files and the addresses on which somebody listens.
\<close>

section \<open>The host\<close>

text \<open>Files have a mode. \<open>ho_listening\<close> holds the addresses at which a listener can be reached: for a
  socket file, the path. \<open>faults\<close> says which calls the operating system refuses.\<close>

record host =
  ho_files :: "string \<rightharpoonup> nat"
  ho_listening :: "string set"

record faults =
  fa_Remove :: "error option"
  fa_Listen :: "error option"
  fa_Chmod :: "error option"
  fa_ResolveUDPAddr :: "error option"
  fa_ListenUDP :: "error option"

definition no_faults :: faults where
  "no_faults = \<lparr>fa_Remove = None, fa_Listen = None, fa_Chmod = None, fa_ResolveUDPAddr = None, fa_ListenUDP = None\<rparr>"

text \<open>The error of \<open>os.Remove\<close> that \<open>os.IsNotExist\<close> recognizes is \<^term>\<open>None\<close> here.\<close>

definition os_Remove :: "faults \<Rightarrow> string \<Rightarrow> host \<Rightarrow> (error option + unit) \<times> host" where
  "os_Remove fa path h =
     (case ho_files h path of
        None \<Rightarrow> (Inl None, h)
      | Some _ \<Rightarrow>
          (case fa_Remove fa of
             Some err \<Rightarrow> (Inl (Some err), h)
           | None \<Rightarrow> (Inr (), h\<lparr>ho_files := (ho_files h)(path := None), ho_listening := ho_listening h - {path}\<rparr>)))"

text \<open>Listening on a path makes the file, and fails when there is one; closing the listener unlinks it.\<close>

definition net_Listen :: "faults \<Rightarrow> string \<Rightarrow> host \<Rightarrow> unit result \<times> host" where
  "net_Listen fa path h =
     (case fa_Listen fa of
        Some err \<Rightarrow> (Inl err, h)
      | None \<Rightarrow>
          if ho_files h path \<noteq> None then (Inl (Errorf ''bind: address already in use''), h)
          else (Inr (), h\<lparr>ho_files := (ho_files h)(path \<mapsto> 0x1ED), ho_listening := insert path (ho_listening h)\<rparr>))"

definition listener_Close :: "string \<Rightarrow> host \<Rightarrow> host" where
  "listener_Close path h = h\<lparr>ho_files := (ho_files h)(path := None), ho_listening := ho_listening h - {path}\<rparr>"

definition os_Chmod :: "faults \<Rightarrow> string \<Rightarrow> nat \<Rightarrow> host \<Rightarrow> unit result \<times> host" where
  "os_Chmod fa path mode h =
     (case fa_Chmod fa of
        Some err \<Rightarrow> (Inl err, h)
      | None \<Rightarrow> (Inr (), h\<lparr>ho_files := (ho_files h)(path \<mapsto> mode)\<rparr>))"

definition net_ListenUDP :: "faults \<Rightarrow> string \<Rightarrow> host \<Rightarrow> unit result \<times> host" where
  "net_ListenUDP fa addr h =
     (case fa_ListenUDP fa of
        Some err \<Rightarrow> (Inl err, h)
      | None \<Rightarrow>
          if addr \<in> ho_listening h then (Inl (Errorf ''bind: address already in use''), h)
          else (Inr (), h\<lparr>ho_listening := insert addr (ho_listening h)\<rparr>))"

text \<open>A process that exits leaves its files; nobody listens on its sockets any more.\<close>

definition os_Exit :: "string set \<Rightarrow> host \<Rightarrow> host" where
  "os_Exit own h = h\<lparr>ho_listening := ho_listening h - own\<rparr>"


section \<open>The Unix socket server\<close>

text \<open>The server with its listener and the goroutines that its \<open>WaitGroup\<close> counts besides
  those of the connections.\<close>

record uds_run =
  ur_socketPath :: string
  ur_listener :: bool
  ur_accepting :: bool
  ur_checking :: bool
  ur_server :: uds_Server

definition uds_New :: "string \<Rightarrow> int \<Rightarrow> uds_run" where
  "uds_New path maxConns = \<lparr>ur_socketPath = path, ur_listener = False, ur_accepting = False, ur_checking = False,
     ur_server = NewServer maxConns\<rparr>"

definition uds_Start :: "faults \<Rightarrow> uds_run \<Rightarrow> host \<Rightarrow> unit result \<times> uds_run \<times> host" where
  "uds_Start fa s h =
     (case os_Remove fa (ur_socketPath s) h of
        (Inl (Some err), h) \<Rightarrow> (Inl (Errorf (''failed to remove old socket: '' @ error_text err)), s, h)
      | (_, h) \<Rightarrow>
          (case net_Listen fa (ur_socketPath s) h of
             (Inl err, h) \<Rightarrow> (Inl (Errorf (''failed to listen on '' @ ur_socketPath s @ '': '' @ error_text err)), s, h)
           | (Inr _, h) \<Rightarrow>
               (case os_Chmod fa (ur_socketPath s) 0x1B0 h of
                  (Inl err, h) \<Rightarrow>
                    (Inl (Errorf (''failed to chmod socket: '' @ error_text err)), s, listener_Close (ur_socketPath s) h)
                | (Inr _, h) \<Rightarrow> (Inr (), s\<lparr>ur_listener := True, ur_accepting := True, ur_checking := True\<rparr>, h))))"

text \<open>
  \<open>Stop\<close> up to the wait, and after it. The error of the last \<open>Remove\<close> is ignored.
\<close>

definition uds_Stop :: "string list \<Rightarrow> uds_run \<Rightarrow> host \<Rightarrow> uds_run \<times> host" where
  "uds_Stop order s h =
     (s\<lparr>ur_listener := False, ur_server := Stop order (ur_server s)\<rparr>,
      if ur_listener s then listener_Close (ur_socketPath s) h else h)"

definition uds_Stopped :: "faults \<Rightarrow> uds_run \<Rightarrow> host \<Rightarrow> host" where
  "uds_Stopped fa s h = snd (os_Remove fa (ur_socketPath s) h)"

text \<open>
  The goroutines. The accept loop takes connections while the listener is open; when
  \<open>Accept\<close> fails it returns if the context is cancelled. The idle checker makes a pass at a tick
  and returns at the cancelled context; when both are ready, \<open>select\<close> may choose either.
\<close>

inductive uds_run_step :: "uds_run \<Rightarrow> uds_run \<Rightarrow> bool" where
  accepts: "ur_accepting s \<Longrightarrow> ur_listener s \<Longrightarrow> ud_threads (ur_server s) t = None \<Longrightarrow>
    uds_run_step s (s\<lparr>ur_server := acceptLoop_body t (ur_server s)\<rparr>)"
| accept_returns: "ur_accepting s \<Longrightarrow> \<not> ur_listener s \<Longrightarrow> ud_cancelled (ur_server s) \<Longrightarrow>
    uds_run_step s (s\<lparr>ur_accepting := False\<rparr>)"
| checker_returns: "ur_checking s \<Longrightarrow> ud_cancelled (ur_server s) \<Longrightarrow> uds_run_step s (s\<lparr>ur_checking := False\<rparr>)"
| ticks: "ur_checking s \<Longrightarrow> uds_run_step s (s\<lparr>ur_server := idleChecker_tick visits (ur_server s)\<rparr>)"
| connection: "thread_step (ur_server s) s' \<Longrightarrow> uds_run_step s (s\<lparr>ur_server := s'\<rparr>)"

definition wg_done :: "uds_run \<Rightarrow> bool" where
  "wg_done s \<longleftrightarrow> \<not> ur_accepting s \<and> \<not> ur_checking s \<and> ud_threads (ur_server s) = Map.empty"


section \<open>The UDP server\<close>

record udp_run =
  up_addr :: string
  up_conn :: bool

definition udp_New :: "string \<Rightarrow> udp_run" where
  "udp_New addr = \<lparr>up_addr = addr, up_conn = False\<rparr>"

definition udp_Start :: "faults \<Rightarrow> udp_run \<Rightarrow> host \<Rightarrow> unit result \<times> udp_run \<times> host" where
  "udp_Start fa s h =
     (case fa_ResolveUDPAddr fa of
        Some err \<Rightarrow> (Inl err, s, h)
      | None \<Rightarrow>
          (case net_ListenUDP fa (up_addr s) h of
             (Inl err, h) \<Rightarrow> (Inl err, s, h)
           | (Inr _, h) \<Rightarrow> (Inr (), s\<lparr>up_conn := True\<rparr>, h)))"

definition udp_Stop :: "udp_run \<Rightarrow> host \<Rightarrow> host" where
  "udp_Stop s h = (if up_conn s then h\<lparr>ho_listening := ho_listening h - {up_addr s}\<rparr> else h)"

text \<open>
  \<open>handlePackets\<close>: the data that it hands to a goroutine for each datagram, and whether it goes on
  reading. The first read that fails ends it.
\<close>

fun handlePackets :: "string result list \<Rightarrow> string list \<times> bool" where
  "handlePackets [] = ([], True)"
| "handlePackets (Inl err # reads) = ([], False)"
| "handlePackets (Inr datagram # reads) =
     (let (packets, goes_on) = handlePackets reads in (take 2048 datagram # packets, goes_on))"


section \<open>main\<close>

text \<open>\<open>log.Fatalf\<close> ends the process with a message.\<close>

datatype boot = Fatal string host | Serving memory_world uds_run udp_run host

definition main_boot :: "(string \<Rightarrow> string) \<Rightarrow> string \<Rightarrow> time \<Rightarrow> faults \<Rightarrow> host \<Rightarrow> boot" where
  "main_boot lower uuid now fa h =
     (case main_start lower uuid now of
        Inl err \<Rightarrow> Fatal (''Failed to create bootstrap admin: '' @ error_text err) h
      | Inr w \<Rightarrow>
          (case uds_Start fa (uds_New ''/tmp/idp-uds.sock'' 100) h of
             (Inl err, udsServer, h) \<Rightarrow> Fatal (''Failed to start UDS server: '' @ error_text err) h
           | (Inr _, udsServer, h) \<Rightarrow>
               (case udp_Start fa (udp_New '':8888'') h of
                  (Inl err, udpServer, h) \<Rightarrow>
                    Fatal (''Failed to start UDP server: '' @ error_text err) (os_Exit {''/tmp/idp-uds.sock''} h)
                | (Inr _, udpServer, h) \<Rightarrow> Serving w udsServer udpServer h)))"

text \<open>After the signal: the UDP server, then the Unix socket server. The wait of the latter is
  over when \<open>wg_done\<close> holds; \<open>s\<close> is the server then.\<close>

definition main_stop :: "string list \<Rightarrow> uds_run \<Rightarrow> udp_run \<Rightarrow> host \<Rightarrow> uds_run \<times> host" where
  "main_stop order udsServer udpServer h = uds_Stop order udsServer (udp_Stop udpServer h)"


section \<open>Properties\<close>

text \<open>
  A start that fails leaves nothing behind. When \<open>Start\<close> of the Unix socket server returns
  an error, no goroutine runs, nobody listens who did not before, and no file is there that was
  not; when the mode of the new socket cannot be set, the listener is closed again.
\<close>

theorem failed_start_leaves_nothing:
  assumes "uds_Start fa s h = (Inl err, s', h')"
  shows "s' = s \<and> ho_listening h' \<subseteq> ho_listening h \<and> dom (ho_files h') \<subseteq> dom (ho_files h) \<and>
    (\<forall>path. path \<noteq> ur_socketPath s \<longrightarrow> ho_files h' path = ho_files h path)"
  using assms
  by (auto simp: uds_Start_def os_Remove_def net_Listen_def os_Chmod_def listener_Close_def
      split: sum.splits option.splits prod.splits if_splits)

theorem failed_start_leaves_nothing_witness:
  "\<exists>err h'. uds_Start (no_faults\<lparr>fa_Chmod := Some (Errorf ''denied'')\<rparr>) (uds_New ''/tmp/s'' 0) \<lparr>ho_files = Map.empty, ho_listening = {}\<rparr> =
     (Inl err, uds_New ''/tmp/s'' 0, h') \<and> ho_listening h' = {} \<and> ho_files h' = Map.empty"
proof -
  let ?fa = "no_faults\<lparr>fa_Chmod := Some (Errorf ''denied'')\<rparr>" and ?h = "\<lparr>ho_files = Map.empty, ho_listening = {}\<rparr>"
  obtain err s' h' where st: "uds_Start ?fa (uds_New ''/tmp/s'' 0) ?h = (Inl err, s', h')"
    by (simp add: uds_Start_def os_Remove_def net_Listen_def os_Chmod_def no_faults_def)
  from failed_start_leaves_nothing [OF this] st show ?thesis by auto
qed

text \<open>The host while the service is up.\<close>

definition up :: "host \<Rightarrow> host" where
  "up h = \<lparr>ho_files = (ho_files h)(''/tmp/idp-uds.sock'' \<mapsto> 0x1B0),
     ho_listening = insert '':8888'' (insert ''/tmp/idp-uds.sock'' (ho_listening h))\<rparr>"

lemma boot_serves:
  assumes "'':8888'' \<notin> ho_listening h"
  shows "\<exists>w. main_boot lower uuid now no_faults h = Serving w
     ((uds_New ''/tmp/idp-uds.sock'' 100)\<lparr>ur_listener := True, ur_accepting := True, ur_checking := True\<rparr>)
     ((udp_New '':8888'')\<lparr>up_conn := True\<rparr>) (up h)"
proof -
  obtain w where "main_start lower uuid now = Inr w"
    by (simp add: main_start_def bootstrapAdmin_def HashPassword_def bootstrapAdminPassword_def MemoryStore_Create_eq
        empty_world_def NewMemoryStore_def)
  with assms show ?thesis
    by (auto simp: main_boot_def uds_Start_def udp_Start_def os_Remove_def net_Listen_def os_Chmod_def net_ListenUDP_def
        no_faults_def uds_New_def udp_New_def up_def split: option.split)
qed

text \<open>
  C28: the service can be restarted. If the UDP port is free and the system refuses nothing, the
  process comes up whatever socket file an earlier one left; the socket has mode 660. After
  a regular shutdown the host is as before without the socket file, and after a shutdown
  as well as after a crash the next start succeeds.
\<close>

theorem service_restarts:
  assumes "'':8888'' \<notin> ho_listening h"
  shows "\<exists>w u p. main_boot lower uuid now no_faults h = Serving w u p (up h) \<and> ho_files (up h) ''/tmp/idp-uds.sock'' = Some 0x1B0 \<and>
    (\<forall>order fa. let (u', h') = main_stop order u p (up h); h'' = uds_Stopped fa u' h' in
       ho_files h'' = (ho_files h)(''/tmp/idp-uds.sock'' := None) \<and>
       ho_listening h'' = ho_listening h - {''/tmp/idp-uds.sock''} \<and>
       (\<exists>w u p. main_boot lower uuid' now' no_faults h'' = Serving w u p (up h''))) \<and>
    (\<exists>w u p h'. main_boot lower uuid' now' no_faults (os_Exit {''/tmp/idp-uds.sock'', '':8888''} (up h)) = Serving w u p h')"
proof -
  let ?u = "(uds_New ''/tmp/idp-uds.sock'' 100)\<lparr>ur_listener := True, ur_accepting := True, ur_checking := True\<rparr>"
  let ?p = "(udp_New '':8888'')\<lparr>up_conn := True\<rparr>"
  let ?h = "\<lparr>ho_files = (ho_files h)(''/tmp/idp-uds.sock'' := None), ho_listening = ho_listening h - {''/tmp/idp-uds.sock''}\<rparr>"
  have stop: "main_stop order ?u ?p (up h) = (?u\<lparr>ur_listener := False, ur_server := Stop order (NewServer 100)\<rparr>, ?h)" for order
    using assms by (auto simp: main_stop_def uds_Stop_def udp_Stop_def listener_Close_def up_def uds_New_def udp_New_def)
  have stopped: "uds_Stopped fa s ?h = ?h" if "ur_socketPath s = ''/tmp/idp-uds.sock''" for fa s
    by (simp add: uds_Stopped_def os_Remove_def that)
  have path: "ur_socketPath (uds_New ''/tmp/idp-uds.sock'' 100) = ''/tmp/idp-uds.sock''"
    by (simp add: uds_New_def)
  obtain w where "main_boot lower uuid now no_faults h = Serving w ?u ?p (up h)" using boot_serves [OF assms] by blast
  moreover have "\<exists>w u p. main_boot lower uuid' now' no_faults ?h = Serving w u p (up ?h)"
    using boot_serves [of ?h lower uuid' now'] assms by fastforce
  moreover have "\<exists>w u p h'. main_boot lower uuid' now' no_faults (os_Exit {''/tmp/idp-uds.sock'', '':8888''} (up h)) = Serving w u p h'"
    using boot_serves [of "os_Exit {''/tmp/idp-uds.sock'', '':8888''} (up h)" lower uuid' now'] by (fastforce simp: os_Exit_def)
  moreover have "ho_files (up h) ''/tmp/idp-uds.sock'' = Some 0x1B0" by (simp add: up_def)
  ultimately show ?thesis
    by (intro exI [of _ w] exI [of _ ?u] exI [of _ ?p]) (simp add: stop stopped path)
qed

theorem service_restarts_witness:
  "\<exists>w u p h'. main_boot ascii_ToLower ''a1'' 8 no_faults
     (os_Exit {''/tmp/idp-uds.sock'', '':8888''} (up \<lparr>ho_files = Map.empty, ho_listening = {}\<rparr>)) = Serving w u p h'"
  using service_restarts [of "\<lparr>ho_files = Map.empty, ho_listening = {}\<rparr>" ascii_ToLower "''a0''" 7 "''a1''" 8] by force

text \<open>
  C38: a second instance breaks the first. When the program is started while it runs already, it
  removes the socket file of the running instance and ends because the UDP port is taken; the
  file that it leaves is one nobody listens on, so the first instance cannot be reached over
  the Unix socket any more.
\<close>

theorem second_start_takes_socket:
  "\<exists>h'. main_boot lower uuid now no_faults (up h) =
     Fatal ''Failed to start UDP server: bind: address already in use'' h' \<and>
   '':8888'' \<in> ho_listening h' \<and> ''/tmp/idp-uds.sock'' \<notin> ho_listening h' \<and> ho_files h' ''/tmp/idp-uds.sock'' \<noteq> None"
proof -
  obtain w where "main_start lower uuid now = Inr w"
    by (simp add: main_start_def bootstrapAdmin_def HashPassword_def bootstrapAdminPassword_def MemoryStore_Create_eq
        empty_world_def NewMemoryStore_def)
  then show ?thesis
    by (simp add: main_boot_def uds_Start_def udp_Start_def os_Remove_def net_Listen_def os_Chmod_def net_ListenUDP_def
        no_faults_def uds_New_def udp_New_def up_def os_Exit_def)
qed


section \<open>The wait in Stop\<close>

definition uds_work :: "uds_run \<Rightarrow> nat" where
  "uds_work s = shutdown_work (ud_threads (ur_server s)) + (if ur_accepting s then 1 else 0) + (if ur_checking s then 1 else 0)"

definition stopping :: "uds_run \<Rightarrow> bool" where
  "stopping s \<longleftrightarrow> conns_inv (ur_server s) \<and> ud_cancelled (ur_server s) \<and> \<not> ur_listener s"

lemma idleChecker_tick_keeps [simp]:
  "ud_threads (idleChecker_tick visits s) = ud_threads s" "ud_cancelled (idleChecker_tick visits s) = ud_cancelled s"
  unfolding idleChecker_tick_def
  by (induction visits arbitrary: s) (auto simp: close_if_idle_def split: option.splits if_splits)

lemma stopping_step:
  assumes "uds_run_step s s'" and "stopping s"
  shows "stopping s' \<and> (\<not> ur_checking s \<longrightarrow> \<not> ur_checking s' \<and> uds_work s' < uds_work s)"
  using assms(1)
proof cases
  case (connection x)
  then show ?thesis
    using assms(2) shutdown_step [of "ur_server s" x] conns_inv_thread [of "ur_server s" x]
    by (auto simp: stopping_def uds_work_def conns_inv_def)
qed (use assms(2) conns_inv_idle in \<open>auto simp: stopping_def uds_work_def\<close>)

lemma stopping_steps: "uds_run_step\<^sup>*\<^sup>* s s' \<Longrightarrow> stopping s \<Longrightarrow> stopping s'"
  by (induction rule: rtranclp_induct) (auto dest: stopping_step)

lemma stopping_stuck:
  assumes "stopping s" and "\<nexists>s'. uds_run_step s s'"
  shows "wg_done s"
proof -
  have "\<not> ur_accepting s" "\<not> ur_checking s"
    using assms accept_returns checker_returns unfolding stopping_def by blast+
  moreover have "ud_threads (ur_server s) = Map.empty"
    using assms connection shutdown_stuck unfolding stopping_def by blast
  ultimately show ?thesis by (simp add: wg_done_def)
qed

lemma Stop_cancels: "ud_cancelled (Stop order s)"
proof -
  have "ud_cancelled (fold (\<lambda>key s. case ud_connections s key of None \<Rightarrow> s | Some t \<Rightarrow> close_conn t s) ks s)" if "ud_cancelled s" for ks s
    using that by (induction ks arbitrary: s) (auto split: option.split)
  then show ?thesis by (simp add: Stop_def)
qed

lemma no_run_without_checker:
  assumes "stopping s" and "\<not> ur_checking s"
  shows "\<nexists>run. run 0 = s \<and> (\<forall>i. uds_run_step (run i) (run (Suc i)))"
proof -
  have "stopping x \<and> \<not> ur_checking x" if "uds_run_step\<^sup>*\<^sup>* s x" for x
    using that assms by (induction rule: rtranclp_induct) (auto dest: stopping_step)
  then show ?thesis using stopping_step by (intro no_infinite_run [where f = uds_work]) blast
qed

text \<open>
  C12: \<open>Stop\<close> of the Unix socket server returns. From whatever state the server had reached, after
  \<open>Stop\<close> has cancelled the context and closed the listener and the connections, the goroutines run on
  for ever in no way but one in which the idle checker never chooses the cancelled context over
  a tick; and when none of them can go on all have returned, which is what \<open>Wait\<close> waits for.
\<close>

theorem uds_Stop_returns:
  assumes "server_reach maxConns (ur_server s)" and "uds_Stop order s h = (s', h')"
  shows "(\<nexists>run i. run 0 = s' \<and> (\<forall>i. uds_run_step (run i) (run (Suc i))) \<and> \<not> ur_checking (run i)) \<and>
    (\<forall>t. uds_run_step\<^sup>*\<^sup>* s' t \<and> (\<nexists>t'. uds_run_step t t') \<longrightarrow> wg_done t)"
proof (intro conjI allI impI notI)
  have "server_reach maxConns (Stop order (ur_server s))" using server_next [OF assms(1) stop] .
  then have st: "stopping s'"
    using assms(2) server_reach_inv Stop_cancels by (auto simp: uds_Stop_def stopping_def)
  show "wg_done t" if "uds_run_step\<^sup>*\<^sup>* s' t \<and> (\<nexists>t'. uds_run_step t t')" for t
    using that stopping_steps st stopping_stuck by blast
  assume "\<exists>run i. run 0 = s' \<and> (\<forall>i. uds_run_step (run i) (run (Suc i))) \<and> \<not> ur_checking (run i)"
  then obtain run i where run: "run 0 = s'" "\<And>i. uds_run_step (run i) (run (Suc i))" "\<not> ur_checking (run i)" by blast
  have "uds_run_step\<^sup>*\<^sup>* s' (run i)" for i
    by (induction i) (auto simp: run intro: rtranclp.rtrancl_into_rtrancl)
  then have "stopping (run i)" using stopping_steps st by blast
  from no_run_without_checker [OF this run(3)] run(2) show False
    by (auto dest: spec [of _ "\<lambda>j. run (i + j)"])
qed

theorem uds_Stop_returns_witness:
  "\<nexists>run i. run 0 = fst (uds_Stop [''conn-7''] ((uds_New ''/tmp/s'' 0)\<lparr>ur_accepting := True, ur_server := one_client\<rparr>)
       \<lparr>ho_files = Map.empty, ho_listening = {}\<rparr>) \<and>
     (\<forall>i. uds_run_step (run i) (run (Suc i))) \<and> \<not> ur_checking (run i)"
proof -
  let ?s = "(uds_New ''/tmp/s'' 0)\<lparr>ur_accepting := True, ur_server := one_client\<rparr>"
  have "server_reach 0 (ur_server ?s)" using one_client_reach by simp
  from uds_Stop_returns [OF this prod.collapse [symmetric]] show ?thesis by blast
qed

end
