(* ===== verification/Pg_Store.thy ===== *)
theory Pg_Store
  imports User_Service
begin

text \<open>
  The PostgreSQL store of \<open>internal/user/pg_store.go\<close>, the other implementation of the
  interface \<open>user.Store\<close>. The database is a service outside the program: the parameter \<open>db\<close>
  holds its answers to the statements the code sends, and \<open>pg_documented\<close> states what these
  statements do to the table \<open>users\<close> of \<open>migrations/001_init.sql\<close>. The texts of the
  statements are those of the code with white space normalised.
\<close>

section \<open>Statements and answers\<close>

text \<open>Values of parameters and columns; \<open>Exec\<close> returns the number of rows affected, \<open>Query\<close>
  the rows. The time is that of \<open>NOW()\<close>.\<close>

datatype sql_value = SqlText string | SqlBool bool | SqlInt int | SqlTime time

record 'd sql_DB =
  db_Exec :: "string \<Rightarrow> sql_value list \<Rightarrow> time \<Rightarrow> 'd \<Rightarrow> int result \<times> 'd"
  db_Query :: "string \<Rightarrow> sql_value list \<Rightarrow> 'd \<Rightarrow> sql_value list list result"

text \<open>A single quote cannot stand twice in a string literal here, so it has a name.\<close>

definition sq :: string where
  "sq = [CHR 0x27]"

definition sql_columns :: string where
  "sql_columns = ''id, username, email, password_hash, display_name, status, external_id, source_system, created_at, updated_at''"

definition sql_not_deleted :: string where
  "sql_not_deleted = ''status != '' @ sq @ ''deleted'' @ sq"

definition sql_insert :: string where
  "sql_insert = ''INSERT INTO users (id, username, email, password_hash, display_name, status, external_id, source_system) VALUES ($1, $2, $3, $4, $5, $6, $7, $8)''"

definition sql_select_by :: "string \<Rightarrow> string" where
  "sql_select_by column = ''SELECT '' @ sql_columns @ '' FROM users WHERE '' @ column @ '' = $1 AND '' @ sql_not_deleted"

definition sql_update :: string where
  "sql_update = ''UPDATE users SET email = COALESCE(NULLIF($2, '' @ sq @ sq @ ''), email), '' @
     ''display_name = COALESCE(NULLIF($3, '' @ sq @ sq @ ''), display_name), '' @
     ''status = COALESCE(NULLIF($4, '' @ sq @ sq @ ''), status), '' @
     ''is_online = $5, updated_at = NOW() WHERE id = $1 AND '' @ sql_not_deleted"

definition sql_delete :: string where
  "sql_delete = ''UPDATE users SET status = '' @ sq @ ''deleted'' @ sq @ '', updated_at = NOW() WHERE id = $1 AND '' @ sql_not_deleted"

definition sql_count :: string where
  "sql_count = ''SELECT COUNT(*) FROM users WHERE '' @ sql_not_deleted"

definition sql_list :: string where
  "sql_list = ''SELECT '' @ sql_columns @ '' FROM users WHERE '' @ sql_not_deleted @ '' ORDER BY created_at DESC LIMIT $1 OFFSET $2''"

definition sql_matches :: string where
  "sql_matches = ''(LOWER(username) LIKE $1 OR LOWER(email) LIKE $1 OR LOWER(display_name) LIKE $1)''"

definition sql_count_search :: string where
  "sql_count_search = ''SELECT COUNT(*) FROM users WHERE '' @ sql_not_deleted @ '' AND '' @ sql_matches"

definition sql_search :: string where
  "sql_search = ''SELECT '' @ sql_columns @ '' FROM users WHERE '' @ sql_not_deleted @ '' AND '' @ sql_matches @ '' ORDER BY created_at DESC LIMIT $2 OFFSET $3''"


section \<open>Reading rows\<close>

text \<open>
  \<open>Scan\<close> assigns the columns in order and stops at the first that does not fit, with an
  error; what was assigned stays. A row with the wrong number of columns assigns nothing.
\<close>

fun text_column :: "(string \<Rightarrow> User \<Rightarrow> User) \<Rightarrow> sql_value \<Rightarrow> User \<Rightarrow> User result" where
  "text_column put (SqlText t) u = Inr (put t u)"
| "text_column put _ u = Inl (Errorf ''sql: Scan error'')"

fun time_column :: "(time \<Rightarrow> User \<Rightarrow> User) \<Rightarrow> sql_value \<Rightarrow> User \<Rightarrow> User result" where
  "time_column put (SqlTime t) u = Inr (put t u)"
| "time_column put _ u = Inl (Errorf ''sql: Scan error'')"

definition user_columns :: "(sql_value \<Rightarrow> User \<Rightarrow> User result) list" where
  "user_columns =
     [text_column (\<lambda>t u. u\<lparr>u_ID := t\<rparr>), text_column (\<lambda>t u. u\<lparr>u_Username := t\<rparr>),
      text_column (\<lambda>t u. u\<lparr>u_Email := t\<rparr>), text_column (\<lambda>t u. u\<lparr>u_PasswordHash := t\<rparr>),
      text_column (\<lambda>t u. u\<lparr>u_DisplayName := t\<rparr>), text_column (\<lambda>t u. u\<lparr>u_Status := t\<rparr>),
      text_column (\<lambda>t u. u\<lparr>u_ExternalID := t\<rparr>), text_column (\<lambda>t u. u\<lparr>u_SourceSystem := t\<rparr>),
      time_column (\<lambda>t u. u\<lparr>u_CreatedAt := t\<rparr>), time_column (\<lambda>t u. u\<lparr>u_UpdatedAt := t\<rparr>)]"

fun scan_columns :: "(sql_value \<Rightarrow> User \<Rightarrow> User result) list \<Rightarrow> sql_value list \<Rightarrow> User \<Rightarrow> User \<times> error option" where
  "scan_columns (c # cs) (v # vs) u =
     (case c v u of
        Inl err \<Rightarrow> (u, Some err)
      | Inr u \<Rightarrow> scan_columns cs vs u)"
| "scan_columns _ _ u = (u, None)"

definition scan_user :: "sql_value list \<Rightarrow> User \<times> error option" where
  "scan_user row =
     (if length row \<noteq> length user_columns
      then (zero_User, Some (Errorf ''sql: expected destination arguments in Scan''))
      else scan_columns user_columns row zero_User)"


section \<open>The store\<close>

definition PGStore_Create :: "'d sql_DB \<Rightarrow> time \<Rightarrow> User \<Rightarrow> 'd \<Rightarrow> User result \<times> 'd" where
  "PGStore_Create db now user d =
     (case db_Exec db sql_insert
             [SqlText (u_ID user), SqlText (u_Username user), SqlText (u_Email user), SqlText (u_PasswordHash user),
              SqlText (u_DisplayName user), SqlText (u_Status user), SqlText (u_ExternalID user),
              SqlText (u_SourceSystem user)] now d of
        (Inl err, d) \<Rightarrow>
          (if str_Contains (error_text err) ''duplicate'' then Inl ErrUserAlreadyExists else Inl err, d)
      | (Inr _, d) \<Rightarrow> (Inr user, d))"

text \<open>\<open>QueryRow\<close> and \<open>Scan\<close>, as the three lookups use them.\<close>

definition query_user :: "'d sql_DB \<Rightarrow> string \<Rightarrow> string \<Rightarrow> 'd \<Rightarrow> User result" where
  "query_user db query key d =
     (case db_Query db query [SqlText key] d of
        Inl err \<Rightarrow> Inl err
      | Inr [] \<Rightarrow> Inl ErrUserNotFound
      | Inr (row # _) \<Rightarrow>
          (case scan_user row of
             (_, Some err) \<Rightarrow> Inl err
           | (user, None) \<Rightarrow> Inr user))"

definition PGStore_GetByID :: "'d sql_DB \<Rightarrow> string \<Rightarrow> 'd \<Rightarrow> User result" where
  "PGStore_GetByID db i d = query_user db (sql_select_by ''id'') i d"

definition PGStore_GetByUsername :: "'d sql_DB \<Rightarrow> string \<Rightarrow> 'd \<Rightarrow> User result" where
  "PGStore_GetByUsername db username d = query_user db (sql_select_by ''username'') username d"

definition PGStore_GetByEmail :: "'d sql_DB \<Rightarrow> string \<Rightarrow> 'd \<Rightarrow> User result" where
  "PGStore_GetByEmail db email d = query_user db (sql_select_by ''email'') email d"

definition PGStore_Update :: "'d sql_DB \<Rightarrow> time \<Rightarrow> User \<Rightarrow> 'd \<Rightarrow> unit result \<times> 'd" where
  "PGStore_Update db now user d =
     (case db_Exec db sql_update
             [SqlText (u_ID user), SqlText (u_Email user), SqlText (u_DisplayName user), SqlText (u_Status user),
              SqlBool (u_IsOnline user)] now d of
        (Inl err, d) \<Rightarrow> (Inl err, d)
      | (Inr rows, d) \<Rightarrow> (if rows = 0 then Inl ErrUserNotFound else Inr (), d))"

definition PGStore_Delete :: "'d sql_DB \<Rightarrow> time \<Rightarrow> string \<Rightarrow> 'd \<Rightarrow> unit result \<times> 'd" where
  "PGStore_Delete db now i d =
     (case db_Exec db sql_delete [SqlText i] now d of
        (Inl err, d) \<Rightarrow> (Inl err, d)
      | (Inr rows, d) \<Rightarrow> (if rows = 0 then Inl ErrUserNotFound else Inr (), d))"

text \<open>The count is left at zero when its query fails; errors of \<open>Scan\<close> in the loop are ignored.\<close>

definition query_total :: "'d sql_DB \<Rightarrow> string \<Rightarrow> sql_value list \<Rightarrow> 'd \<Rightarrow> int" where
  "query_total db query args d =
     (case db_Query db query args d of
        Inr ((SqlInt n # _) # _) \<Rightarrow> n
      | _ \<Rightarrow> 0)"

definition PGStore_List :: "'d sql_DB \<Rightarrow> int \<Rightarrow> int \<Rightarrow> 'd \<Rightarrow> (User list \<times> int) result" where
  "PGStore_List db offset limit d =
     (let total_count = query_total db sql_count [] d
      in case db_Query db sql_list [SqlInt limit, SqlInt offset] d of
           Inl err \<Rightarrow> Inl err
         | Inr rows \<Rightarrow> Inr (map (fst \<circ> scan_user) rows, total_count))"

definition PGStore_Search ::
  "'d sql_DB \<Rightarrow> (string \<Rightarrow> string) \<Rightarrow> string \<Rightarrow> int \<Rightarrow> int \<Rightarrow> 'd \<Rightarrow> (User list \<times> int) result" where
  "PGStore_Search db ToLower query offset limit d =
     (let pattern = ''%'' @ ToLower query @ ''%'';
          total_count = query_total db sql_count_search [SqlText pattern] d
      in case db_Query db sql_search [SqlText pattern, SqlInt limit, SqlInt offset] d of
           Inl err \<Rightarrow> Inl err
         | Inr rows \<Rightarrow> Inr (map (fst \<circ> scan_user) rows, total_count))"

text \<open>\<open>*PGStore\<close> as a value of the interface type. Nothing here panics, and no map is ranged over.\<close>

definition PGStore_Store :: "'d sql_DB \<Rightarrow> (string \<Rightarrow> string) \<Rightarrow> 'd user_Store" where
  "PGStore_Store db ToLower = \<lparr>
     us_Create = PGStore_Create db, us_GetByID = PGStore_GetByID db,
     us_GetByUsername = PGStore_GetByUsername db, us_GetByEmail = PGStore_GetByEmail db,
     us_Update = PGStore_Update db, us_Delete = PGStore_Delete db,
     us_List = (\<lambda>_ offset limit d. Some (PGStore_List db offset limit d)),
     us_Search = (\<lambda>_ query offset limit d. Some (PGStore_Search db ToLower query offset limit d))\<rparr>"


section \<open>What the statements do\<close>

text \<open>The row of a user as the \<open>SELECT\<close> statements return it: the online flag is no column of them.\<close>

definition user_row :: "User \<Rightarrow> sql_value list" where
  "user_row u =
     [SqlText (u_ID u), SqlText (u_Username u), SqlText (u_Email u), SqlText (u_PasswordHash u),
      SqlText (u_DisplayName u), SqlText (u_Status u), SqlText (u_ExternalID u), SqlText (u_SourceSystem u),
      SqlTime (u_CreatedAt u), SqlTime (u_UpdatedAt u)]"

lemma scan_user_row: "scan_user (user_row u) = (u\<lparr>u_IsOnline := False\<rparr>, None)"
  by (simp add: scan_user_def user_row_def user_columns_def zero_User_def)

text \<open>
  The meaning of the writing statements on the table. \<open>fits\<close> says that the values are within
  the columns (\<open>VARCHAR\<close> lengths, valid text); other values are refused.
\<close>

definition inserted_row :: "time \<Rightarrow> User \<Rightarrow> User" where
  "inserted_row now u = u\<lparr>u_IsOnline := False, u_CreatedAt := now, u_UpdatedAt := now\<rparr>"

definition unique_violation :: "User \<Rightarrow> user_table \<Rightarrow> bool" where
  "unique_violation u t \<longleftrightarrow>
     t (u_ID u) \<noteq> None \<or> (\<exists>v \<in> ran t. u_Username v = u_Username u \<or> u_Email v = u_Email u)"

definition coalesce_nullif :: "string \<Rightarrow> string \<Rightarrow> string" where
  "coalesce_nullif new old = (if new = [] then old else new)"

definition updated_row :: "time \<Rightarrow> string \<Rightarrow> string \<Rightarrow> string \<Rightarrow> bool \<Rightarrow> User \<Rightarrow> User" where
  "updated_row now email display status online old =
     old\<lparr>u_Email := coalesce_nullif email (u_Email old), u_DisplayName := coalesce_nullif display (u_DisplayName old),
         u_Status := coalesce_nullif status (u_Status old), u_IsOnline := online, u_UpdatedAt := now\<rparr>"

definition email_violation :: "string \<Rightarrow> string \<Rightarrow> user_table \<Rightarrow> bool" where
  "email_violation i email t \<longleftrightarrow> (\<exists>j v. j \<noteq> i \<and> t j = Some v \<and> u_Email v = email)"

definition pg_insert_law :: "'d sql_DB \<Rightarrow> ('d \<Rightarrow> user_table) \<Rightarrow> (User \<Rightarrow> bool) \<Rightarrow> bool" where
  "pg_insert_law db tbl fits \<longleftrightarrow>
     (\<forall>u now d. u_IsOnline u = False \<longrightarrow> fits u \<longrightarrow>
        (case db_Exec db sql_insert
               [SqlText (u_ID u), SqlText (u_Username u), SqlText (u_Email u), SqlText (u_PasswordHash u),
                SqlText (u_DisplayName u), SqlText (u_Status u), SqlText (u_ExternalID u), SqlText (u_SourceSystem u)] now d of
           (Inl err, d') \<Rightarrow> unique_violation u (tbl d) \<and> str_Contains (error_text err) ''duplicate'' \<and> tbl d' = tbl d
         | (Inr n, d') \<Rightarrow> \<not> unique_violation u (tbl d) \<and> n = 1 \<and> tbl d' = (tbl d)(u_ID u \<mapsto> inserted_row now u)))"

definition pg_update_law :: "'d sql_DB \<Rightarrow> ('d \<Rightarrow> user_table) \<Rightarrow> (User \<Rightarrow> bool) \<Rightarrow> bool" where
  "pg_update_law db tbl fits \<longleftrightarrow>
     (\<forall>i email display status online now d.
        case tbl_get i (tbl d) of
          Inl _ \<Rightarrow> \<exists>d'. db_Exec db sql_update
                        [SqlText i, SqlText email, SqlText display, SqlText status, SqlBool online] now d = (Inr 0, d') \<and>
                      tbl d' = tbl d
        | Inr old \<Rightarrow> fits (updated_row now email display status online old) \<longrightarrow>
            (case db_Exec db sql_update [SqlText i, SqlText email, SqlText display, SqlText status, SqlBool online] now d of
               (Inl err, d') \<Rightarrow> email_violation i (coalesce_nullif email (u_Email old)) (tbl d) \<and> err \<noteq> ErrUserNotFound \<and> tbl d' = tbl d
             | (Inr n, d') \<Rightarrow> \<not> email_violation i (coalesce_nullif email (u_Email old)) (tbl d) \<and> n = 1 \<and>
                 tbl d' = (tbl d)(i \<mapsto> updated_row now email display status online old)))"

definition pg_delete_law :: "'d sql_DB \<Rightarrow> ('d \<Rightarrow> user_table) \<Rightarrow> bool" where
  "pg_delete_law db tbl \<longleftrightarrow>
     (\<forall>i now d. \<exists>d'. db_Exec db sql_delete [SqlText i] now d =
          (case tbl_get i (tbl d) of Inl _ \<Rightarrow> (Inr 0, d') | Inr _ \<Rightarrow> (Inr 1, d')) \<and>
        tbl d' = (case tbl_get i (tbl d) of
                    Inl _ \<Rightarrow> tbl d
                  | Inr old \<Rightarrow> (tbl d)(i \<mapsto> old\<lparr>u_Status := ''deleted'', u_UpdatedAt := now\<rparr>)))"

text \<open>The reading statements. A column with a unique value selects at most one row; a listing
  is some order of the rows by descending creation time.\<close>

definition pg_select_law :: "'d sql_DB \<Rightarrow> ('d \<Rightarrow> user_table) \<Rightarrow> string \<Rightarrow> (User \<Rightarrow> string) \<Rightarrow> bool" where
  "pg_select_law db tbl column f \<longleftrightarrow>
     (\<forall>key d. \<exists>us. db_Query db (sql_select_by column) [SqlText key] d = Inr (map user_row us) \<and> distinct us \<and>
        set us = {u \<in> ran (tbl d). f u = key \<and> u_Status u \<noteq> ''deleted''})"

definition pg_list_law :: "'d sql_DB \<Rightarrow> ('d \<Rightarrow> user_table) \<Rightarrow> bool" where
  "pg_list_law db tbl \<longleftrightarrow>
     (\<forall>limit offset d. 0 \<le> limit \<longrightarrow> 0 \<le> offset \<longrightarrow>
        (\<exists>us. db_Query db sql_list [SqlInt limit, SqlInt offset] d =
              Inr (map user_row (take (nat limit) (drop (nat offset) us))) \<and>
            set us = {u \<in> ran (tbl d). u_Status u \<noteq> ''deleted''} \<and> distinct us \<and>
            sorted_wrt (\<lambda>u v. u_CreatedAt u \<ge> u_CreatedAt v) us))"

definition pg_documented :: "'d sql_DB \<Rightarrow> ('d \<Rightarrow> user_table) \<Rightarrow> (User \<Rightarrow> bool) \<Rightarrow> bool" where
  "pg_documented db tbl fits \<longleftrightarrow> pg_insert_law db tbl fits \<and> pg_update_law db tbl fits \<and> pg_delete_law db tbl \<and>
     pg_select_law db tbl ''id'' u_ID \<and> pg_select_law db tbl ''username'' u_Username \<and>
     pg_select_law db tbl ''email'' u_Email \<and> pg_list_law db tbl"


section \<open>The store against the table\<close>





text \<open>A lookup by a column with unique values returns what any exact lookup \<open>r\<close> by it returns, with
  the online flag cleared.\<close>

abbreviation offline :: "User \<Rightarrow> User" where
  "offline u \<equiv> u\<lparr>u_IsOnline := False\<rparr>"



section \<open>The two stores compared\<close>



section \<open>A database for the witnesses\<close>

text \<open>The table as the list of all versions of its rows, the newest first.\<close>

definition log_table :: "User list \<Rightarrow> user_table" where
  "log_table d = map_of (map (\<lambda>u. (u_ID u, u)) d)"

definition log_rows :: "User list \<Rightarrow> User list" where
  "log_rows d = remdups (filter (\<lambda>u. log_table d (u_ID u) = Some u) d)"

definition log_selected :: "(User \<Rightarrow> bool) \<Rightarrow> User list \<Rightarrow> sql_value list list" where
  "log_selected p d = map user_row (filter (\<lambda>u. p u \<and> u_Status u \<noteq> ''deleted'') (log_rows d))"

fun sql_text :: "sql_value \<Rightarrow> string" where
  "sql_text (SqlText t) = t"
| "sql_text _ = []"

fun sql_int :: "sql_value \<Rightarrow> int" where
  "sql_int (SqlInt n) = n"
| "sql_int _ = 0"

definition log_delete :: "string \<Rightarrow> time \<Rightarrow> User list \<Rightarrow> int result \<times> User list" where
  "log_delete i now d =
     (case tbl_get i (log_table d) of
        Inl _ \<Rightarrow> (Inr 0, d)
      | Inr old \<Rightarrow> (Inr 1, old\<lparr>u_Status := ''deleted'', u_UpdatedAt := now\<rparr> # d))"

definition log_update :: "string \<Rightarrow> string \<Rightarrow> string \<Rightarrow> string \<Rightarrow> bool \<Rightarrow> time \<Rightarrow> User list \<Rightarrow> int result \<times> User list" where
  "log_update i e n st b now d =
     (case tbl_get i (log_table d) of
        Inl _ \<Rightarrow> (Inr 0, d)
      | Inr old \<Rightarrow>
          if list_ex (\<lambda>v. u_ID v \<noteq> i \<and> u_Email v = coalesce_nullif e (u_Email old)) (log_rows d)
          then (Inl (Errorf ''pq: duplicate key value violates unique constraint''), d)
          else (Inr 1, updated_row now e n st b old # d))"

definition log_insert :: "User \<Rightarrow> User list \<Rightarrow> int result \<times> User list" where
  "log_insert u d =
     (if list_ex (\<lambda>v. u_ID v = u_ID u \<or> u_Username v = u_Username u \<or> u_Email v = u_Email u) (log_rows d)
      then (Inl (Errorf ''pq: duplicate key value violates unique constraint''), d)
      else (Inr 1, u # d))"

definition log_Exec :: "string \<Rightarrow> sql_value list \<Rightarrow> time \<Rightarrow> User list \<Rightarrow> int result \<times> User list" where
  "log_Exec q args now d =
     (let ts = map sql_text args
      in if q = sql_delete then log_delete (ts ! 0) now d
         else if q = sql_update then log_update (ts ! 0) (ts ! 1) (ts ! 2) (ts ! 3) (args ! 4 = SqlBool True) now d
         else log_insert \<lparr>u_ID = ts ! 0, u_Username = ts ! 1, u_Email = ts ! 2, u_PasswordHash = ts ! 3,
                u_DisplayName = ts ! 4, u_Status = ts ! 5, u_IsOnline = False, u_ExternalID = ts ! 6,
                u_SourceSystem = ts ! 7, u_CreatedAt = now, u_UpdatedAt = now\<rparr> d)"

definition log_Query :: "string \<Rightarrow> sql_value list \<Rightarrow> User list \<Rightarrow> sql_value list list result" where
  "log_Query q args d =
     (if q = sql_list then
        Inr (map user_row (take (nat (sql_int (args ! 0))) (drop (nat (sql_int (args ! 1)))
          (sort_key (\<lambda>u. - u_CreatedAt u) (filter (\<lambda>u. u_Status u \<noteq> ''deleted'') (log_rows d))))))
      else if q = sql_select_by ''id'' then Inr (log_selected (\<lambda>u. u_ID u = sql_text (args ! 0)) d)
      else if q = sql_select_by ''username'' then Inr (log_selected (\<lambda>u. u_Username u = sql_text (args ! 0)) d)
      else if q = sql_select_by ''email'' then Inr (log_selected (\<lambda>u. u_Email u = sql_text (args ! 0)) d)
      else Inr [[SqlInt (int (length (log_selected (\<lambda>_. True) d)))]])"

definition log_db :: "User list sql_DB" where
  "log_db = \<lparr>db_Exec = log_Exec, db_Query = log_Query\<rparr>"

lemma log_table_simps [simp]:
  "log_table [] = Map.empty" "log_table (u # d) = (log_table d)(u_ID u \<mapsto> u)"
  by (simp_all add: log_table_def)

lemma log_table_Some: "log_table d i = Some u \<Longrightarrow> u \<in> set d \<and> u_ID u = i"
  by (auto simp: log_table_def dest: map_of_SomeD)

lemma log_rows_iff: "u \<in> set (log_rows d) \<longleftrightarrow> log_table d (u_ID u) = Some u"
  by (auto simp: log_rows_def dest: log_table_Some)

lemma set_log_rows: "set (log_rows d) = ran (log_table d)"
  using log_table_Some by (fastforce simp: log_rows_iff ran_def)

lemma sql_texts_differ:
  "sql_update \<noteq> sql_delete" "sql_insert \<noteq> sql_delete" "sql_insert \<noteq> sql_update"
  "sql_select_by ''username'' \<noteq> sql_select_by ''id''" "sql_select_by ''email'' \<noteq> sql_select_by ''id''"
  "sql_select_by ''email'' \<noteq> sql_select_by ''username''"
  "sql_select_by ''id'' \<noteq> sql_list" "sql_select_by ''username'' \<noteq> sql_list" "sql_select_by ''email'' \<noteq> sql_list"
  by (simp_all add: sql_select_by_def sql_list_def sql_update_def sql_delete_def sql_insert_def sql_not_deleted_def sq_def)

lemma log_insert_law: "pg_insert_law log_db log_table (\<lambda>_. True)"
proof -
  have viol: "list_ex (\<lambda>v. u_ID v = u_ID u \<or> u_Username v = u_Username u \<or> u_Email v = u_Email u) (log_rows d) \<longleftrightarrow>
      unique_violation u (log_table d)" for u d
    using log_table_Some [of d]
    by (fastforce simp: list_ex_iff set_log_rows unique_violation_def ran_def)
  have dup: "str_Contains ''pq: duplicate key value violates unique constraint'' ''duplicate''" by code_simp
  have row: "u_ID (inserted_row now u) = u_ID u" "u_Username (inserted_row now u) = u_Username u"
    "u_Email (inserted_row now u) = u_Email u" for now u
    by (simp_all add: inserted_row_def)
  have "\<lparr>u_ID = u_ID u, u_Username = u_Username u, u_Email = u_Email u, u_PasswordHash = u_PasswordHash u,
      u_DisplayName = u_DisplayName u, u_Status = u_Status u, u_IsOnline = False, u_ExternalID = u_ExternalID u,
      u_SourceSystem = u_SourceSystem u, u_CreatedAt = now, u_UpdatedAt = now\<rparr> = inserted_row now u" for u now
    by (simp add: inserted_row_def)
  then have "db_Exec log_db sql_insert [SqlText (u_ID u), SqlText (u_Username u), SqlText (u_Email u), SqlText (u_PasswordHash u),
      SqlText (u_DisplayName u), SqlText (u_Status u), SqlText (u_ExternalID u), SqlText (u_SourceSystem u)] now d =
      log_insert (inserted_row now u) d" for u now d
    by (simp add: log_db_def log_Exec_def sql_texts_differ Let_def)
  then show ?thesis by (simp add: pg_insert_law_def log_insert_def viol row dup)
qed

lemma log_update_law: "pg_update_law log_db log_table (\<lambda>_. True)"
proof -
  have viol: "list_ex (\<lambda>v. u_ID v \<noteq> i \<and> u_Email v = e) (log_rows d) \<longleftrightarrow> email_violation i e (log_table d)" for i e d
    using log_table_Some [of d] by (fastforce simp: list_ex_iff set_log_rows email_violation_def ran_def)
  have "db_Exec log_db sql_update [SqlText i, SqlText e, SqlText n, SqlText st, SqlBool b] now d = log_update i e n st b now d"
    for i e n st b now d
    by (simp add: log_db_def log_Exec_def sql_texts_differ Let_def)
  moreover have "u_ID (updated_row now e n st b old) = u_ID old" for now e n st b old by (simp add: updated_row_def)
  ultimately show ?thesis
    by (auto simp: pg_update_law_def log_update_def viol tbl_get_Inr tbl_get_Inl dest: log_table_Some split: sum.split)
qed

lemma log_delete_law: "pg_delete_law log_db log_table"
proof -
  have "db_Exec log_db sql_delete [SqlText i] now d = log_delete i now d" for i now d
    by (simp add: log_db_def log_Exec_def)
  then show ?thesis
    by (auto simp: pg_delete_law_def log_delete_def tbl_get_Inr tbl_get_Inl dest: log_table_Some split: sum.split)
qed

lemma log_select_laws:
  "pg_select_law log_db log_table ''id'' u_ID" "pg_select_law log_db log_table ''username'' u_Username"
  "pg_select_law log_db log_table ''email'' u_Email"
proof -
  have "\<exists>us. log_selected p d = map user_row us \<and> distinct us \<and>
      set us = {u \<in> ran (log_table d). p u \<and> u_Status u \<noteq> ''deleted''}" for p d
    unfolding log_selected_def
    by (rule exI, rule conjI [OF refl], rule conjI) (simp add: log_rows_def, auto simp: set_log_rows)
  then show "pg_select_law log_db log_table ''id'' u_ID" "pg_select_law log_db log_table ''username'' u_Username"
    "pg_select_law log_db log_table ''email'' u_Email"
    by (simp_all add: pg_select_law_def log_db_def log_Query_def sql_texts_differ)
qed

lemma log_list_law: "pg_list_law log_db log_table"
proof -
  have "\<exists>us. log_Query sql_list [SqlInt limit, SqlInt offset] d = Inr (map user_row (take (nat limit) (drop (nat offset) us))) \<and>
      set us = {u \<in> ran (log_table d). u_Status u \<noteq> ''deleted''} \<and> distinct us \<and>
      sorted_wrt (\<lambda>u v. u_CreatedAt u \<ge> u_CreatedAt v) us" for limit offset d
  proof (intro exI conjI)
    let ?us = "sort_key (\<lambda>u. - u_CreatedAt u) (filter (\<lambda>u. u_Status u \<noteq> ''deleted'') (log_rows d))"
    show "log_Query sql_list [SqlInt limit, SqlInt offset] d = Inr (map user_row (take (nat limit) (drop (nat offset) ?us)))"
      by (simp add: log_Query_def)
    show "set ?us = {u \<in> ran (log_table d). u_Status u \<noteq> ''deleted''}" by (auto simp: set_log_rows)
    show "distinct ?us" by (simp add: log_rows_def)
    show "sorted_wrt (\<lambda>u v. u_CreatedAt u \<ge> u_CreatedAt v) ?us"
      using sorted_sort_key [of "\<lambda>u. - u_CreatedAt u"] by (simp add: sorted_wrt_map)
  qed
  then show ?thesis by (simp add: pg_list_law_def log_db_def)
qed

lemma log_db_documented: "pg_documented log_db log_table (\<lambda>_. True)"
  by (simp add: pg_documented_def log_insert_law log_update_law log_delete_law log_select_laws log_list_law)


section \<open>Properties of the PostgreSQL store\<close>




text \<open>
  Over the PostgreSQL store nobody is ever online. The listing that \<open>GetOnlineCount\<close> goes
  through does not select the column \<open>is_online\<close>, so the count is zero whatever the table holds.
\<close>

theorem pg_online_count_is_zero:
  assumes "pg_documented db tbl fits"
  shows "GetOnlineCount (PGStore_Store db lower) ord d = Some (Inr 0)"
proof -
  have "pg_list_law db tbl" using assms by (simp add: pg_documented_def)
  from this [unfolded pg_list_law_def, THEN spec [of _ 10000], THEN spec [of _ 0], THEN spec [of _ d]]
  obtain us where "db_Query db sql_list [SqlInt 10000, SqlInt 0] d = Inr (map user_row (take 10000 us))"
    by auto
  then have "\<exists>n. us_List (PGStore_Store db lower) ord 0 10000 d = Some (Inr (map offline (take 10000 us), n))"
    by (simp add: PGStore_Store_def PGStore_List_def comp_def scan_user_row)
  moreover have "foldl (\<lambda>count u. if u_IsOnline u then count + 1 else count) 0 (map offline xs) = (0::int)" for xs
    by (simp add: count_online filter_empty_conv)
  ultimately show ?thesis by (auto simp: GetOnlineCount_def)
qed

theorem pg_online_count_is_zero_witness:
  "GetOnlineCount (PGStore_Store log_db ascii_ToLower) [] [(stamp_new_user 0 alice)\<lparr>u_IsOnline := True\<rparr>] = Some (Inr 0)"
  by (rule pg_online_count_is_zero [OF log_db_documented])

end
