(* ===== verification/User_Store_Races.thy ===== *)
theory User_Store_Races
  imports User_Store
begin

text \<open>
  The in-memory user store under concurrent calls. \<open>MemoryStore\<close> holds three \<open>sync.Map\<close>
  values and no lock, so a method is a sequence of atomic map operations, and the methods of
  different goroutines interleave between them. Here each writing method of
  \<open>internal/user/memory_store.go\<close> is cut at its map operations; run alone it is the method
  of \<open>User_Store\<close>.
\<close>

section \<open>Methods in steps\<close>

text \<open>
  The point that a call has reached, with the local variables that it still needs. \<open>now\<close> is
  what the call reads from the clock, \<open>existing\<close> the user it has loaded.
\<close>

datatype call_point =
    Create_username time User
  | Create_email time User
  | Create_undo User
  | Create_store time User
  | Update_load time User
  | Update_email time User User
  | Update_unindex time User User
  | Update_store time User User
  | Delete_load time string
  | Delete_store time string User
  | Returned "unit result"

text \<open>One map operation and the local work up to the next.\<close>

fun call_step :: "call_point \<Rightarrow> MemoryStore \<Rightarrow> call_point \<times> MemoryStore" where
  "call_step (Create_username now user) s =
     (let ((_, exists), byUsername) = LoadOrStore (u_Username user) (u_ID user) (ms_byUsername s);
          s = s\<lparr>ms_byUsername := byUsername\<rparr>
      in (if exists then Returned (Inl ErrUserAlreadyExists) else Create_email now user, s))"
| "call_step (Create_email now user) s =
     (let ((_, exists), byEmail) = LoadOrStore (u_Email user) (u_ID user) (ms_byEmail s);
          s = s\<lparr>ms_byEmail := byEmail\<rparr>
      in (if exists then Create_undo user else Create_store now user, s))"
| "call_step (Create_undo user) s =
     (Returned (Inl ErrUserAlreadyExists), s\<lparr>ms_byUsername := (ms_byUsername s)(u_Username user := None)\<rparr>)"
| "call_step (Create_store now user) s =
     (Returned (Inr ()), s\<lparr>ms_users := (ms_users s)(u_ID user \<mapsto> stamp_new_user now user)\<rparr>)"
| "call_step (Update_load now user) s =
     (case ms_users s (u_ID user) of
        None \<Rightarrow> (Returned (Inl ErrUserNotFound), s)
      | Some existing \<Rightarrow>
          (if u_Status existing = UserStatusDeleted then Returned (Inl ErrUserNotFound)
           else if u_Email user \<noteq> [] \<and> u_Email user \<noteq> u_Email existing then Update_email now user existing
           else Update_store now user existing, s))"
| "call_step (Update_email now user existing) s =
     (let ((_, exists), byEmail) = LoadOrStore (u_Email user) (u_ID user) (ms_byEmail s);
          s = s\<lparr>ms_byEmail := byEmail\<rparr>
      in (if exists then Returned (Inl ErrUserAlreadyExists) else Update_unindex now user existing, s))"
| "call_step (Update_unindex now user existing) s =
     (Update_store now user existing, s\<lparr>ms_byEmail := (ms_byEmail s)(u_Email existing := None)\<rparr>)"
| "call_step (Update_store now user existing) s =
     (Returned (Inr ()), s\<lparr>ms_users := (ms_users s)(u_ID user \<mapsto> merge_user now user existing)\<rparr>)"
| "call_step (Delete_load now uid) s =
     (case ms_users s uid of
        None \<Rightarrow> (Returned (Inl ErrUserNotFound), s)
      | Some u \<Rightarrow>
          (if u_Status u = UserStatusDeleted then Returned (Inl ErrUserNotFound) else Delete_store now uid u, s))"
| "call_step (Delete_store now uid u) s =
     (Returned (Inr ()), s\<lparr>ms_users := (ms_users s)(uid \<mapsto> u\<lparr>u_Status := UserStatusDeleted, u_UpdatedAt := now\<rparr>)\<rparr>)"
| "call_step (Returned r) s = (Returned r, s)"

text \<open>A call on its own: at most four steps.\<close>

fun run_call :: "nat \<Rightarrow> call_point \<times> MemoryStore \<Rightarrow> call_point \<times> MemoryStore" where
  "run_call 0 c = c"
| "run_call (Suc n) c = run_call n (call_step (fst c) (snd c))"

lemma run_Create:
  "run_call 4 (Create_username now u, s) =
     (Returned (map_sum (\<lambda>e. e) (\<lambda>_. ()) (fst (MemoryStore_Create now u s))), snd (MemoryStore_Create now u s))"
  by (auto simp: numeral_eq_Suc MemoryStore_Create_def LoadOrStore_def Let_def stamp_new_user_def split: option.split)

lemma run_Update:
  "run_call 4 (Update_load now u, s) = (Returned (fst (MemoryStore_Update now u s)), snd (MemoryStore_Update now u s))"
  by (auto simp: numeral_eq_Suc MemoryStore_Update_def LoadOrStore_def Let_def split: option.split)

lemma run_Delete:
  "run_call 4 (Delete_load now i, s) = (Returned (fst (MemoryStore_Delete now i s)), snd (MemoryStore_Delete now i s))"
  by (auto simp: numeral_eq_Suc MemoryStore_Delete_def split: option.split)


section \<open>Interleaving\<close>

text \<open>The calls of the goroutines, and a step of any of them.\<close>

record race_state =
  rc_calls :: "nat \<rightharpoonup> call_point"
  rc_store :: MemoryStore

inductive race_step :: "race_state \<Rightarrow> race_state \<Rightarrow> bool" where
  interleave: "rc_calls c t = Some p \<Longrightarrow> call_step p (rc_store c) = (p', s') \<Longrightarrow>
    race_step c (c\<lparr>rc_calls := (rc_calls c)(t \<mapsto> p'), rc_store := s'\<rparr>)"

text \<open>A schedule names the goroutine of each step.\<close>

fun run_schedule :: "nat list \<Rightarrow> race_state \<Rightarrow> race_state" where
  "run_schedule [] c = c"
| "run_schedule (t # ts) c =
     (case rc_calls c t of
        None \<Rightarrow> run_schedule ts c
      | Some p \<Rightarrow>
          (case call_step p (rc_store c) of
             (p', s') \<Rightarrow> run_schedule ts (c\<lparr>rc_calls := (rc_calls c)(t \<mapsto> p'), rc_store := s'\<rparr>)))"

lemma run_schedule_steps: "race_step\<^sup>*\<^sup>* c (run_schedule ts c)"
proof (induction ts c rule: run_schedule.induct)
  case (2 t ts c)
  show ?case
  proof (cases "rc_calls c t")
    case None
    with 2(1) show ?thesis by simp
  next
    case (Some p)
    obtain p' s' where step: "call_step p (rc_store c) = (p', s')" by force
    have "race_step c (c\<lparr>rc_calls := (rc_calls c)(t \<mapsto> p'), rc_store := s'\<rparr>)"
      using Some step by (rule interleave)
    moreover have "race_step\<^sup>*\<^sup>* (c\<lparr>rc_calls := (rc_calls c)(t \<mapsto> p'), rc_store := s'\<rparr>)
        (run_schedule ts (c\<lparr>rc_calls := (rc_calls c)(t \<mapsto> p'), rc_store := s'\<rparr>))"
      using 2(2) [OF Some step [symmetric]] by simp
    ultimately show ?thesis using Some step by (simp add: converse_rtranclp_into_rtranclp)
  qed
qed simp

text \<open>The user that a call is still creating, whether it has taken the name yet, and the user
  that a call has loaded for writing it back.\<close>

fun creating :: "call_point \<Rightarrow> User option" where
  "creating (Create_username now u) = Some u"
| "creating (Create_email now u) = Some u"
| "creating (Create_undo u) = Some u"
| "creating (Create_store now u) = Some u"
| "creating _ = None"

fun claiming :: "call_point \<Rightarrow> User option" where
  "claiming (Create_email now u) = Some u"
| "claiming (Create_undo u) = Some u"
| "claiming (Create_store now u) = Some u"
| "claiming _ = None"

fun loaded :: "call_point \<Rightarrow> (string \<times> User) option" where
  "loaded (Update_email now u e) = Some (u_ID u, e)"
| "loaded (Update_unindex now u e) = Some (u_ID u, e)"
| "loaded (Update_store now u e) = Some (u_ID u, e)"
| "loaded (Delete_store now i e) = Some (i, e)"
| "loaded _ = None"

text \<open>
  The invariant. A user is stored under its identifier and indexed under its name, and the
  index leads to no user of another name. A call that creates a user finds its identifier unused
  but for the name, which it holds once it has taken it; what a call has loaded is stored
  still, under the same name. Calls create users with different identifiers.
\<close>

definition index_ok :: "(string \<rightharpoonup> User) \<Rightarrow> (string \<rightharpoonup> string) \<Rightarrow> bool" where
  "index_ok U N \<longleftrightarrow>
     (\<forall>i u. U i = Some u \<longrightarrow> u_ID u = i \<and> N (u_Username u) = Some i) \<and>
     (\<forall>n i u. N n = Some i \<longrightarrow> U i = Some u \<longrightarrow> u_Username u = n)"

definition call_ok :: "call_point \<Rightarrow> (string \<rightharpoonup> User) \<Rightarrow> (string \<rightharpoonup> string) \<Rightarrow> bool" where
  "call_ok p U N \<longleftrightarrow>
     (\<forall>u. creating p = Some u \<longrightarrow> U (u_ID u) = None \<and> (\<forall>n. N n = Some (u_ID u) \<longrightarrow> n = u_Username u)) \<and>
     (\<forall>u. claiming p = Some u \<longrightarrow> N (u_Username u) = Some (u_ID u)) \<and>
     (\<forall>i e. loaded p = Some (i, e) \<longrightarrow> u_ID e = i \<and> (\<exists>v. U i = Some v \<and> u_Username v = u_Username e))"

definition apart :: "call_point \<Rightarrow> call_point \<Rightarrow> bool" where
  "apart p q \<longleftrightarrow> (\<forall>u v. creating p = Some u \<longrightarrow> creating q = Some v \<longrightarrow> u_ID u \<noteq> u_ID v)"

definition race_inv :: "race_state \<Rightarrow> bool" where
  "race_inv c \<longleftrightarrow> index_ok (ms_users (rc_store c)) (ms_byUsername (rc_store c)) \<and>
     (\<forall>t p. rc_calls c t = Some p \<longrightarrow> call_ok p (ms_users (rc_store c)) (ms_byUsername (rc_store c))) \<and>
     (\<forall>t t' p q. rc_calls c t = Some p \<longrightarrow> rc_calls c t' = Some q \<longrightarrow> t \<noteq> t' \<longrightarrow> apart p q)"

lemma claiming_creating: "claiming p = Some u \<Longrightarrow> creating p = Some u"
  by (cases p) simp_all

text \<open>What has to be shown of a step: the acting call and the index are right afterwards, and
  calls that create other users do not notice.\<close>

lemma race_inv_update:
  assumes inv: "race_inv c" and t: "rc_calls c t = Some p"
    and ids: "creating p' = None \<or> creating p' = creating p"
    and idx: "index_ok (ms_users s') (ms_byUsername s')"
    and own: "call_ok p' (ms_users s') (ms_byUsername s')"
    and others: "\<And>q. call_ok q (ms_users (rc_store c)) (ms_byUsername (rc_store c)) \<Longrightarrow> apart p q \<Longrightarrow>
      call_ok q (ms_users s') (ms_byUsername s')"
  shows "race_inv (c\<lparr>rc_calls := (rc_calls c)(t \<mapsto> p'), rc_store := s'\<rparr>)"
proof -
  have ap: "apart p q" "apart q p" if "rc_calls c t' = Some q" "t' \<noteq> t" for t' q
    using inv t that unfolding race_inv_def by blast+
  have old: "call_ok q (ms_users (rc_store c)) (ms_byUsername (rc_store c))" if "rc_calls c t' = Some q" for t' q
    using inv that unfolding race_inv_def by blast
  have "apart p' q" "apart q p'" if "rc_calls c t' = Some q" "t' \<noteq> t" for t' q
    using ap [OF that] ids unfolding apart_def by auto
  moreover have "apart q q'" if "rc_calls c t1 = Some q" "rc_calls c t2 = Some q'" "t1 \<noteq> t2" for t1 t2 q q'
    using inv that unfolding race_inv_def by blast
  ultimately show ?thesis
    using idx own others [OF old ap(1)] unfolding race_inv_def by (simp add: fun_upd_def)
qed

lemma call_okI:
  assumes "\<And>u. creating p = Some u \<Longrightarrow> U (u_ID u) = None"
    and "\<And>u n. creating p = Some u \<Longrightarrow> N n = Some (u_ID u) \<Longrightarrow> n = u_Username u"
    and "\<And>u. claiming p = Some u \<Longrightarrow> N (u_Username u) = Some (u_ID u)"
    and "\<And>i e. loaded p = Some (i, e) \<Longrightarrow> u_ID e = i"
    and "\<And>i e. loaded p = Some (i, e) \<Longrightarrow> \<exists>v. U i = Some v \<and> u_Username v = u_Username e"
  shows "call_ok p U N"
  using assms unfolding call_ok_def by metis

lemma call_okD:
  assumes "call_ok p U N"
  shows "creating p = Some u \<Longrightarrow> U (u_ID u) = None"
    and "creating p = Some u \<Longrightarrow> N n = Some (u_ID u) \<Longrightarrow> n = u_Username u"
    and "claiming p = Some u \<Longrightarrow> N (u_Username u) = Some (u_ID u)"
    and "loaded p = Some (i, e) \<Longrightarrow> u_ID e = i"
    and "loaded p = Some (i, e) \<Longrightarrow> \<exists>v. U i = Some v \<and> u_Username v = u_Username e"
  using assms unfolding call_ok_def by simp_all

text \<open>How the parts of the invariant survive the changes that steps make.\<close>

lemma call_ok_take_name:
  assumes ok: "call_ok q U N" and free: "N (u_Username u) = None" and "creating p = Some u" and "apart p q"
  shows "call_ok q U (N(u_Username u \<mapsto> u_ID u))"
proof (rule call_okI)
  fix w assume w: "creating q = Some w"
  then have "u_ID u \<noteq> u_ID w" using assms(3,4) by (simp add: apart_def)
  then show "n = u_Username w" if "(N(u_Username u \<mapsto> u_ID u)) n = Some (u_ID w)" for n
    using that call_okD(2) [OF ok w] by (simp split: if_splits)
  show "U (u_ID w) = None" using w by (rule call_okD(1) [OF ok])
next
  fix w assume "claiming q = Some w"
  with call_okD(3) [OF ok] free show "(N(u_Username u \<mapsto> u_ID u)) (u_Username w) = Some (u_ID w)"
    by (cases "u_Username w = u_Username u") auto
qed (rule call_okD(4,5) [OF ok], assumption)+

lemma call_ok_drop_name:
  assumes ok: "call_ok q U N" and "N (u_Username u) = Some (u_ID u)" and "creating p = Some u" and "apart p q"
  shows "call_ok q U (N(u_Username u := None))"
proof (rule call_okI)
  fix w assume w: "claiming q = Some w"
  then have "u_ID u \<noteq> u_ID w" using assms(3,4) claiming_creating by (simp add: apart_def)
  with call_okD(3) [OF ok w] assms(2) show "(N(u_Username u := None)) (u_Username w) = Some (u_ID w)"
    by (cases "u_Username w = u_Username u") auto
next
  fix w n assume "creating q = Some w" and "(N(u_Username u := None)) n = Some (u_ID w)"
  then show "n = u_Username w" by (auto intro: call_okD(2) [OF ok] split: if_splits)
qed (rule call_okD(1,4,5) [OF ok], assumption)+

lemma call_ok_new_user:
  assumes ok: "call_ok q U N" and new: "U (u_ID u) = None" and "creating p = Some u" and "apart p q"
  shows "call_ok q (U(u_ID u \<mapsto> v)) N"
proof (rule call_okI)
  fix w assume w: "creating q = Some w"
  then have "u_ID u \<noteq> u_ID w" using assms(3,4) by (simp add: apart_def)
  with call_okD(1) [OF ok w] show "(U(u_ID u \<mapsto> v)) (u_ID w) = None" by simp
next
  fix i e assume "loaded q = Some (i, e)"
  from call_okD(5) [OF ok this] new show "\<exists>v'. (U(u_ID u \<mapsto> v)) i = Some v' \<and> u_Username v' = u_Username e"
    by (cases "i = u_ID u") auto
qed (erule call_okD(2,3,4) [OF ok], assumption?)+

lemma call_ok_write_back:
  assumes ok: "call_ok q U N" and "U i = Some w" and "u_Username v = u_Username w"
  shows "call_ok q (U(i \<mapsto> v)) N"
proof (rule call_okI)
  fix u assume "creating q = Some u"
  from call_okD(1) [OF ok this] assms(2) show "(U(i \<mapsto> v)) (u_ID u) = None" by auto
next
  fix j e assume "loaded q = Some (j, e)"
  from call_okD(5) [OF ok this] assms(2,3) show "\<exists>v'. (U(i \<mapsto> v)) j = Some v' \<and> u_Username v' = u_Username e"
    by (cases "j = i") auto
qed (erule call_okD(2,3,4) [OF ok], assumption?)+

lemma index_okI:
  assumes "\<And>i u. U i = Some u \<Longrightarrow> u_ID u = i" and "\<And>i u. U i = Some u \<Longrightarrow> N (u_Username u) = Some i"
    and "\<And>n i u. N n = Some i \<Longrightarrow> U i = Some u \<Longrightarrow> u_Username u = n"
  shows "index_ok U N"
  using assms unfolding index_ok_def by blast

lemma index_okD:
  assumes "index_ok U N"
  shows "U i = Some u \<Longrightarrow> u_ID u = i" and "U i = Some u \<Longrightarrow> N (u_Username u) = Some i"
    and "N n = Some i \<Longrightarrow> U i = Some u \<Longrightarrow> u_Username u = n"
  using assms unfolding index_ok_def by simp_all

lemma index_ok_put:
  assumes ok: "index_ok U N" and "N (u_Username v) = Some i" and "\<And>n. N n = Some i \<Longrightarrow> n = u_Username v" and "u_ID v = i"
  shows "index_ok (U(i \<mapsto> v)) N"
proof (rule index_okI)
  fix n j u assume "N n = Some j" and "(U(i \<mapsto> v)) j = Some u"
  then show "u_Username u = n"
    using assms(3) [of n] index_okD(3) [OF ok] by (cases "j = i") auto
qed (use assms(2,4) index_okD(1,2) [OF ok] in \<open>auto split: if_splits\<close>)

lemma index_ok_names:
  assumes ok: "index_ok U N" and "U i = None"
  shows "N n = None \<Longrightarrow> index_ok U (N(n \<mapsto> i))" and "N n = Some i \<Longrightarrow> index_ok U (N(n := None))"
  by (rule index_okI; use assms(2) index_okD [OF ok] in \<open>force split: if_splits\<close>)+

text \<open>The four steps that change the users or the index of names.\<close>

abbreviation step_ok :: "call_point \<Rightarrow> call_point \<Rightarrow> (string \<rightharpoonup> User) \<Rightarrow> (string \<rightharpoonup> string) \<Rightarrow>
    (string \<rightharpoonup> User) \<Rightarrow> (string \<rightharpoonup> string) \<Rightarrow> bool" where
  "step_ok p p' U N U' N' \<equiv> index_ok U' N' \<and> call_ok p' U' N' \<and> (\<forall>q. call_ok q U N \<longrightarrow> apart p q \<longrightarrow> call_ok q U' N')"

lemma Returned_ok [simp]: "call_ok (Returned r) U N"
  by (simp add: call_ok_def)

lemma step_ok_take_name:
  assumes "index_ok U N" and ok: "call_ok (Create_username now u) U N" and free: "N (u_Username u) = None"
  shows "step_ok (Create_username now u) (Create_email now u) U N U (N(u_Username u \<mapsto> u_ID u))"
proof (intro conjI allI impI)
  have new: "U (u_ID u) = None" using call_okD(1) [OF ok] by simp
  show "index_ok U (N(u_Username u \<mapsto> u_ID u))" by (rule index_ok_names(1) [OF assms(1) new free])
  have "n = u_Username u" if "(N(u_Username u \<mapsto> u_ID u)) n = Some (u_ID u)" for n
    using that call_okD(2) [OF ok, of u n] by (simp split: if_splits)
  then show "call_ok (Create_email now u) U (N(u_Username u \<mapsto> u_ID u))"
    using new by (intro call_okI) (simp, metis creating.simps(2) option.inject, simp_all)
  show "call_ok q U (N(u_Username u \<mapsto> u_ID u))" if "call_ok q U N" and "apart (Create_username now u) q" for q
    using that(1) free _ that(2) by (rule call_ok_take_name) simp
qed

lemma step_ok_drop_name:
  assumes "index_ok U N" and ok: "call_ok (Create_undo u) U N"
  shows "step_ok (Create_undo u) (Returned r) U N U (N(u_Username u := None))"
proof (intro conjI allI impI)
  have new: "U (u_ID u) = None" and taken: "N (u_Username u) = Some (u_ID u)" using call_okD(1,3) [OF ok] by simp_all
  show "index_ok U (N(u_Username u := None))" by (rule index_ok_names(2) [OF assms(1) new taken])
  show "call_ok q U (N(u_Username u := None))" if "call_ok q U N" and "apart (Create_undo u) q" for q
    using that(1) taken _ that(2) by (rule call_ok_drop_name) simp
qed simp

lemma step_ok_new_user:
  assumes "index_ok U N" and ok: "call_ok (Create_store now u) U N" and "u_Username v = u_Username u" and "u_ID v = u_ID u"
  shows "step_ok (Create_store now u) (Returned r) U N (U(u_ID u \<mapsto> v)) N"
proof (intro conjI allI impI)
  have new: "U (u_ID u) = None" and taken: "N (u_Username u) = Some (u_ID u)" using call_okD(1,3) [OF ok] by simp_all
  show "index_ok (U(u_ID u \<mapsto> v)) N"
  proof (rule index_ok_put [OF assms(1)])
    show "n = u_Username v" if "N n = Some (u_ID u)" for n
      using call_okD(2) [OF ok _ that] assms(3) by simp
  qed (simp_all add: taken assms(3,4))
  show "call_ok q (U(u_ID u \<mapsto> v)) N" if "call_ok q U N" and "apart (Create_store now u) q" for q
    using that(1) new _ that(2) by (rule call_ok_new_user) simp
qed simp

lemma step_ok_write_back:
  assumes idx: "index_ok U N" and ok: "call_ok p U N" and l: "loaded p = Some (i, e)"
    and "u_Username v = u_Username e" and "u_ID v = u_ID e"
  shows "step_ok p (Returned r) U N (U(i \<mapsto> v)) N"
proof (intro conjI allI impI)
  obtain w where w: "U i = Some w" "u_Username w = u_Username e" using call_okD(5) [OF ok l] by blast
  show "index_ok (U(i \<mapsto> v)) N"
  proof (rule index_ok_put [OF idx])
    show "N (u_Username v) = Some i" using index_okD(2) [OF idx w(1)] w(2) assms(4) by simp
    show "n = u_Username v" if "N n = Some i" for n
      using index_okD(3) [OF idx that w(1)] w(2) assms(4) by simp
    show "u_ID v = i" using call_okD(4) [OF ok l] assms(5) by simp
  qed
  show "call_ok q (U(i \<mapsto> v)) N" if "call_ok q U N" for q
    using call_ok_write_back [OF that w(1)] w(2) assms(4) by simp
qed simp

lemma call_ok_local:
  assumes ok: "call_ok p U N" and "creating p' = None \<or> creating p' = creating p"
    and "claiming p' = None \<or> claiming p' = claiming p" and "loaded p' = None \<or> loaded p' = loaded p"
  shows "call_ok p' U N"
  using assms unfolding call_ok_def by (elim disjE) simp_all

lemma call_ok_load:
  assumes "index_ok U N" and "U i = Some e" and "loaded p = Some (i, e)" and "creating p = None" and "claiming p = None"
  shows "call_ok p U N"
  using assms(2-5) index_okD(1) [OF assms(1,2)] by (intro call_okI) simp_all

text \<open>Every step is one of these, or it leaves users and names as they are.\<close>

lemma call_step_ok:
  assumes idx: "index_ok (ms_users s) (ms_byUsername s)" and ok: "call_ok p (ms_users s) (ms_byUsername s)"
    and step: "call_step p s = (p', s')"
  shows "step_ok p p' (ms_users s) (ms_byUsername s) (ms_users s') (ms_byUsername s')"
proof (cases p)
  case (Create_username now u)
  show ?thesis
  proof (cases "ms_byUsername s (u_Username u)")
    case None
    with step Create_username step_ok_take_name [OF idx ok [unfolded Create_username]] show ?thesis
      by (auto simp: LoadOrStore_def)
  qed (use step Create_username idx in \<open>auto simp: LoadOrStore_def\<close>)
next
  case (Create_undo u)
  with step step_ok_drop_name [OF idx ok [unfolded Create_undo]] show ?thesis by auto
next
  case (Create_store now u)
  have "u_Username (stamp_new_user now u) = u_Username u" "u_ID (stamp_new_user now u) = u_ID u"
    by (simp_all add: stamp_new_user_def Let_def)
  with Create_store step step_ok_new_user [OF idx ok [unfolded Create_store]] show ?thesis by auto
next
  case (Update_store now u e)
  have "u_Username (merge_user now u e) = u_Username e" "u_ID (merge_user now u e) = u_ID e"
    by (simp_all add: merge_user_def Let_def)
  with Update_store step step_ok_write_back [OF idx ok, of "u_ID u" e] show ?thesis by auto
next
  case (Delete_store now i e)
  with step step_ok_write_back [OF idx ok, of i e] show ?thesis by auto
next
  case (Create_email now u)
  then have "call_ok p' (ms_users s) (ms_byUsername s)"
    using step by (intro call_ok_local [OF ok]) (auto simp: LoadOrStore_def split: option.splits)
  with Create_email step idx show ?thesis by (auto simp: LoadOrStore_def split: option.splits)
next
  case (Update_email now u e)
  then have "call_ok p' (ms_users s) (ms_byUsername s)"
    using step by (intro call_ok_local [OF ok]) (auto simp: LoadOrStore_def split: option.splits)
  with Update_email step idx show ?thesis by (auto simp: LoadOrStore_def split: option.splits)
next
  case (Update_unindex now u e)
  then have "call_ok p' (ms_users s) (ms_byUsername s)"
    using step by (intro call_ok_local [OF ok]) auto
  with Update_unindex step idx show ?thesis by auto
next
  case (Update_load now u)
  have "call_ok p' (ms_users s) (ms_byUsername s)"
  proof (cases "ms_users s (u_ID u)")
    case (Some e)
    with step Update_load show ?thesis
      using call_ok_load [OF idx Some, of "Update_email now u e"] call_ok_load [OF idx Some, of "Update_store now u e"]
      by (auto split: if_splits)
  qed (use step Update_load in auto)
  with Update_load step idx show ?thesis by (auto split: option.splits)
next
  case (Delete_load now i)
  have "call_ok p' (ms_users s) (ms_byUsername s)"
  proof (cases "ms_users s i")
    case (Some e)
    with step Delete_load show ?thesis
      using call_ok_load [OF idx Some, of "Delete_store now i e"] by (auto split: if_splits)
  qed (use step Delete_load in auto)
  with Delete_load step idx show ?thesis by (auto split: option.splits)
next
  case (Returned r)
  with step idx show ?thesis by auto
qed

lemma race_inv_step:
  assumes "race_step c c'" and inv: "race_inv c"
  shows "race_inv c'"
  using assms(1)
proof cases
  case (interleave t p p' s')
  let ?U = "ms_users (rc_store c)" and ?N = "ms_byUsername (rc_store c)"
  have idx: "index_ok ?U ?N" and ok: "call_ok p ?U ?N"
    using inv interleave(2) unfolding race_inv_def by blast+
  note upd = race_inv_update [OF inv interleave(2)]
  have "creating p' = None \<or> creating p' = creating p"
    using interleave(3) by (cases p) (auto simp: LoadOrStore_def split: option.splits if_splits)
  moreover have "index_ok (ms_users s') (ms_byUsername s') \<and> call_ok p' (ms_users s') (ms_byUsername s') \<and>
      (\<forall>q. call_ok q ?U ?N \<longrightarrow> apart p q \<longrightarrow> call_ok q (ms_users s') (ms_byUsername s'))"
    using call_step_ok [OF idx ok] interleave(3) by simp
  ultimately show ?thesis using upd interleave(1) by simp
qed

text \<open>An entry of the name index leads to a stored user or to one that a call is still creating.\<close>

definition claims :: "call_point \<Rightarrow> string \<Rightarrow> string \<Rightarrow> bool" where
  "claims p n i \<longleftrightarrow> (case claiming p of None \<Rightarrow> False | Some u \<Rightarrow> u_ID u = i \<and> u_Username u = n)"

definition names_backed :: "race_state \<Rightarrow> bool" where
  "names_backed c \<longleftrightarrow> (\<forall>n i. ms_byUsername (rc_store c) n = Some i \<longrightarrow>
     ms_users (rc_store c) i \<noteq> None \<or> (\<exists>t p. rc_calls c t = Some p \<and> claims p n i))"

lemma call_step_backs:
  assumes "call_step p s = (p', s')" and "ms_byUsername s' n = Some i"
  shows "ms_users s' i \<noteq> None \<or> claims p' n i \<or>
    ms_byUsername s n = Some i \<and> ms_users s i = None \<and> \<not> claims p n i \<or> ms_byUsername s n = Some i \<and> ms_users s i \<noteq> None"
  using assms
  by (cases p) (auto simp: claims_def LoadOrStore_def Let_def split: option.splits if_splits)

lemma call_step_keeps_users:
  assumes "call_step p s = (p', s')" and "ms_users s i \<noteq> None"
  shows "ms_users s' i \<noteq> None"
  using assms by (cases p) (auto simp: LoadOrStore_def Let_def split: option.splits if_splits)

lemma names_backed_step:
  assumes "race_step c c'" and backed: "names_backed c"
  shows "names_backed c'"
  unfolding names_backed_def
proof (intro allI impI)
  fix n i assume entry: "ms_byUsername (rc_store c') n = Some i"
  from assms(1) show "ms_users (rc_store c') i \<noteq> None \<or> (\<exists>t p. rc_calls c' t = Some p \<and> claims p n i)"
  proof cases
    case (interleave t p p' s')
    from call_step_backs [OF interleave(3)] entry interleave(1)
    consider "ms_users s' i \<noteq> None" | "claims p' n i"
      | "ms_byUsername (rc_store c) n = Some i" "ms_users (rc_store c) i = None" "\<not> claims p n i"
      | "ms_users (rc_store c) i \<noteq> None"
      by auto
    then show ?thesis
    proof cases
      case 3
      with backed obtain t' q where q: "rc_calls c t' = Some q" "claims q n i"
        unfolding names_backed_def by blast
      with 3(3) interleave(2) have "t' \<noteq> t" by auto
      with q interleave(1) show ?thesis by (auto intro: exI [of _ t'])
    next
      case 4
      from call_step_keeps_users [OF interleave(3) this] interleave(1) show ?thesis by simp
    qed (use interleave(1) in \<open>auto intro: exI [of _ t]\<close>)
  qed
qed







text \<open>Calls that have not begun, on a store at rest; every new user has an identifier of its own.\<close>

fun at_start :: "call_point \<Rightarrow> bool" where
  "at_start (Create_username now u) = True"
| "at_start (Update_load now u) = True"
| "at_start (Delete_load now i) = True"
| "at_start _ = False"

definition fresh_calls :: "(nat \<rightharpoonup> call_point) \<Rightarrow> MemoryStore \<Rightarrow> bool" where
  "fresh_calls calls s \<longleftrightarrow>
     (\<forall>t p. calls t = Some p \<longrightarrow> at_start p \<and> (\<forall>u. creating p = Some u \<longrightarrow> ms_users s (u_ID u) = None)) \<and>
     (\<forall>t t' p q. calls t = Some p \<longrightarrow> calls t' = Some q \<longrightarrow> t \<noteq> t' \<longrightarrow> apart p q)"

lemma at_start_local: "at_start p \<Longrightarrow> claiming p = None \<and> loaded p = None"
  by (cases p) simp_all

lemma race_inv_start:
  assumes inv: "store_inv s" and fresh: "fresh_calls calls s"
  shows "race_inv \<lparr>rc_calls = calls, rc_store = s\<rparr>" and "names_backed \<lparr>rc_calls = calls, rc_store = s\<rparr>"
proof -
  have local: "claiming p = None \<and> loaded p = None" if "calls t = Some p" for t p
    using fresh that at_start_local unfolding fresh_calls_def by blast
  have "call_ok p (ms_users s) (ms_byUsername s)" if "calls t = Some p" for t p
  proof (rule call_okI)
    fix u assume u: "creating p = Some u"
    show new: "ms_users s (u_ID u) = None" using fresh that u unfolding fresh_calls_def by blast
    show "n = u_Username u" if "ms_byUsername s n = Some (u_ID u)" for n
      using that new store_inv_username [OF inv] by auto
  qed (use local [OF that] in simp_all)
  moreover have "index_ok (ms_users s) (ms_byUsername s)"
    using store_inv_id [OF inv] store_inv_username [OF inv] by (intro index_okI) auto
  ultimately show "race_inv \<lparr>rc_calls = calls, rc_store = s\<rparr>"
    using fresh unfolding race_inv_def fresh_calls_def by simp
  show "names_backed \<lparr>rc_calls = calls, rc_store = s\<rparr>"
    using store_inv_username [OF inv] by (auto simp: names_backed_def)
qed

lemma race_inv_reachable:
  assumes "race_step\<^sup>*\<^sup>* c c'" and "race_inv c" and "names_backed c"
  shows "race_inv c' \<and> names_backed c'"
  using assms by (induction rule: rtranclp_induct) (auto intro: race_inv_step names_backed_step)


section \<open>Properties\<close>



text \<open>
  Cutting a method at its map operations does not change it. A call of \<open>Create\<close>,
  \<open>Update\<close> or \<open>Delete\<close> that runs without another between its steps returns after at most
  four of them, with the answer and the store of the method.
\<close>

theorem call_alone_is_method:
  "run_call 4 (Create_username now u, s) =
     (Returned (map_sum (\<lambda>e. e) (\<lambda>_. ()) (fst (MemoryStore_Create now u s))), snd (MemoryStore_Create now u s)) \<and>
   run_call 4 (Update_load now u, s) = (Returned (fst (MemoryStore_Update now u s)), snd (MemoryStore_Update now u s)) \<and>
   run_call 4 (Delete_load now i, s) = (Returned (fst (MemoryStore_Delete now i s)), snd (MemoryStore_Delete now i s))"
  by (simp add: run_Create run_Update run_Delete)

text \<open>
  C13: user names stay unique however calls interleave. From a store at rest, with any number of
  goroutines in \<open>Create\<close>, \<open>Update\<close> and \<open>Delete\<close>, in every state between two map operations no
  two stored users share a name and \<open>GetByUsername\<close> finds nobody but the user of that
  name; and when every call has returned, the index of names holds the stored users exactly, so no
  failed \<open>Create\<close> has left a name behind.
\<close>

theorem names_unique_under_races:
  assumes "store_inv s" and "fresh_calls calls s" and "race_step\<^sup>*\<^sup>* \<lparr>rc_calls = calls, rc_store = s\<rparr> c"
  shows "(\<forall>i j u v. ms_users (rc_store c) i = Some u \<longrightarrow> ms_users (rc_store c) j = Some v \<longrightarrow>
            u_Username u = u_Username v \<longrightarrow> i = j) \<and>
    (\<forall>n u. MemoryStore_GetByUsername n (rc_store c) = Inr u \<longrightarrow> u_Username u = n) \<and>
    ((\<forall>t p. rc_calls c t = Some p \<longrightarrow> (\<exists>r. p = Returned r)) \<longrightarrow>
       (\<forall>n i. ms_byUsername (rc_store c) n = Some i \<longleftrightarrow> (\<exists>u. ms_users (rc_store c) i = Some u \<and> u_Username u = n)))"
proof -
  have idx: "index_ok (ms_users (rc_store c)) (ms_byUsername (rc_store c))" and backed: "names_backed c"
    using race_inv_reachable [OF assms(3) race_inv_start [OF assms(1,2)]] unfolding race_inv_def by blast+
  have found: "u_Username u = n" if "MemoryStore_GetByUsername n (rc_store c) = Inr u" for n u
  proof -
    from that obtain i where "ms_byUsername (rc_store c) n = Some i" and "ms_users (rc_store c) i = Some u"
      by (auto simp: MemoryStore_GetByUsername_def MemoryStore_GetByID_def split: option.splits if_splits)
    then show ?thesis by (rule index_okD(3) [OF idx])
  qed
  have exact: "ms_byUsername (rc_store c) n = Some i \<longleftrightarrow> (\<exists>u. ms_users (rc_store c) i = Some u \<and> u_Username u = n)"
    if rest: "\<forall>t p. rc_calls c t = Some p \<longrightarrow> (\<exists>r. p = Returned r)" for n i
  proof
    assume entry: "ms_byUsername (rc_store c) n = Some i"
    have "\<not> claims p n i" if call: "rc_calls c t = Some p" for t p
    proof -
      obtain r where "p = Returned r" using rest call by blast
      then show ?thesis by (simp add: claims_def)
    qed
    with backed entry have "ms_users (rc_store c) i \<noteq> None" unfolding names_backed_def by blast
    with index_okD(3) [OF idx entry] show "\<exists>u. ms_users (rc_store c) i = Some u \<and> u_Username u = n" by blast
  next
    assume "\<exists>u. ms_users (rc_store c) i = Some u \<and> u_Username u = n"
    with index_okD(2) [OF idx] show "ms_byUsername (rc_store c) n = Some i" by blast
  qed
  have "i = j" if "ms_users (rc_store c) i = Some u" "ms_users (rc_store c) j = Some v" "u_Username u = u_Username v" for i j u v
    using index_okD(2) [OF idx that(1)] index_okD(2) [OF idx that(2)] that(3) by simp
  with found exact show ?thesis by blast
qed

definition sample_calls :: "nat \<rightharpoonup> call_point" where
  "sample_calls = [0 \<mapsto> Create_username 1 bob, 1 \<mapsto> Update_load 2 (alice\<lparr>u_Email := ''al@example.com''\<rparr>),
     2 \<mapsto> Delete_load 3 ''u1'']"

lemma sample_calls_fresh: "fresh_calls sample_calls alice_store"
  by (auto simp: fresh_calls_def sample_calls_def apart_def alice_store_eq)

lemma sample_calls_return:
  "rc_calls (run_schedule [0, 1, 2, 0, 1, 2, 0, 1, 1] \<lparr>rc_calls = sample_calls, rc_store = alice_store\<rparr>) t = Some p \<Longrightarrow>
    \<exists>r. p = Returned r"
  by (auto simp: sample_calls_def LoadOrStore_def alice_store_eq stamp_new_user_def alice_def bob_def
      UserStatusActive_def UserStatusDeleted_def split: if_splits)

theorem names_unique_under_races_witness:
  "\<exists>c. race_step\<^sup>*\<^sup>* \<lparr>rc_calls = sample_calls, rc_store = alice_store\<rparr> c \<and>
     (\<forall>n i. ms_byUsername (rc_store c) n = Some i \<longleftrightarrow> (\<exists>u. ms_users (rc_store c) i = Some u \<and> u_Username u = n))"
proof (intro exI conjI)
  let ?ts = "[0, 1, 2, 0, 1, 2, 0, 1, 1]" and ?c = "\<lparr>rc_calls = sample_calls, rc_store = alice_store\<rparr>"
  show "race_step\<^sup>*\<^sup>* ?c (run_schedule ?ts ?c)" by (rule run_schedule_steps)
  show "\<forall>n i. ms_byUsername (rc_store (run_schedule ?ts ?c)) n = Some i \<longleftrightarrow>
      (\<exists>u. ms_users (rc_store (run_schedule ?ts ?c)) i = Some u \<and> u_Username u = n)"
    using names_unique_under_races [OF alice_store_inv sample_calls_fresh run_schedule_steps [of _ ?ts]] sample_calls_return by blast
qed







end
