(* ===== verification/Idpctl.thy ===== *)
theory Idpctl
  imports Rest_Properties Uds_Server "HOL-Library.AList" "HOL-Library.List_Lexorder" "HOL-Library.Char_ord"
begin

text \<open>
  The command-line client of \<open>cmd/idpctl\<close>: what each command sends over REST or over the
  Unix socket and what it prints. The client is composed with the model of the server: a
  command over the socket is a conversation with \<open>handleConn\<close>, a command over REST a
  request to \<open>serve_http\<close>. The library \<open>cobra\<close>, which finds the command and checks the
  number of arguments, is not part of the repository; a command is given its arguments.
\<close>

section \<open>The surroundings of the client\<close>

text \<open>The package variables that the flags set, and the flags of \<open>user list\<close>.\<close>

record ctl_flags =
  fl_apiURL :: string
  fl_udsPath :: string
  fl_token :: string
  fl_useUDS :: bool
  fl_page :: int
  fl_pageSize :: int

record http_call =
  hc_method :: string
  hc_url :: string
  hc_header :: "(string \<times> string) list"
  hc_body :: string

text \<open>
  The network, with a state that its operations pass on: whether a URL parses, a request to the
  REST server with the status and the body of the answer, and one connection to the socket.
  \<open>nw_float\<close> is a number literal after \<open>float64\<close>, as \<open>Marshal\<close> writes it (\<^term>\<open>None\<close> out of
  range).
\<close>

record 'n network =
  nw_Parses :: "string \<Rightarrow> bool"
  nw_Do :: "http_call \<Rightarrow> 'n \<Rightarrow> (nat \<times> string) result \<times> 'n"
  nw_Dial :: "string \<Rightarrow> 'n \<Rightarrow> unit result \<times> 'n"
  nw_Write :: "string \<Rightarrow> 'n \<Rightarrow> unit result \<times> 'n"
  nw_Read :: "nat \<Rightarrow> 'n \<Rightarrow> string result \<times> 'n"
  nw_Close :: "'n \<Rightarrow> 'n"
  nw_float :: "string \<Rightarrow> string option"

definition dquote :: char where
  "dquote = CHR 0x22"

text \<open>\<open>strings.Trim\<close> with one character, and \<open>strings.Split\<close> at one.\<close>

definition str_Trim :: "char \<Rightarrow> string \<Rightarrow> string" where
  "str_Trim c s = rev (dropWhile ((=) c) (rev (dropWhile ((=) c) s)))"

fun str_Split :: "char \<Rightarrow> string \<Rightarrow> string list" where
  "str_Split sep [] = [[]]"
| "str_Split sep (c # s) =
     (if c = sep then [] # str_Split sep s
      else case str_Split sep s of p # ps \<Rightarrow> (c # p) # ps | [] \<Rightarrow> [[c]])"


section \<open>Maps as JSON\<close>

text \<open>
  A Go map from strings, without duplicate keys. \<open>Marshal\<close> writes its keys in order; a nil
  map is written as \<open>null\<close>.
\<close>

type_synonym go_map = "(string \<times> json) list"

definition map_json :: "go_map option \<Rightarrow> json" where
  "map_json m = (case m of None \<Rightarrow> JNull | Some kvs \<Rightarrow> JObject (sort_key fst kvs))"

definition go_map_of :: "(string \<times> json) list \<Rightarrow> go_map" where
  "go_map_of ms = fold (\<lambda>(k, v). AList.update k v) ms []"

text \<open>A value read into an \<open>interface{}\<close>: objects become maps and numbers \<open>float64\<close>.\<close>

fun interface_value :: "(string \<Rightarrow> string option) \<Rightarrow> json \<Rightarrow> json" where
  "interface_value float (JNumber lit) = (case float lit of None \<Rightarrow> JNull | Some lit \<Rightarrow> JNumber lit)"
| "interface_value float (JArray vs) = JArray (map (interface_value float) vs)"
| "interface_value float (JObject ms) =
     JObject (sort_key fst (go_map_of (map (\<lambda>(k, v). (k, interface_value float v)) ms)))"
| "interface_value float v = v"

text \<open>\<open>json.Unmarshal\<close> into a nil \<open>map[string]interface{}\<close>, the error ignored: the map stays
  nil unless the text is an object.\<close>

definition map_Unmarshal :: "(string \<Rightarrow> string option) \<Rightarrow> string \<Rightarrow> go_map option" where
  "map_Unmarshal float text =
     (case json_Parse text of
        Some (JObject ms) \<Rightarrow> Some (go_map_of (map (\<lambda>(k, v). (k, interface_value float v)) ms))
      | _ \<Rightarrow> None)"


section \<open>Calls\<close>

text \<open>
  \<open>restCall\<close>. The error of \<open>http.NewRequest\<close> is ignored; for a URL that does not parse the
  request is nil, and setting a header panics (\<^term>\<open>None\<close>).
\<close>

definition restCall ::
  "'n network \<Rightarrow> ctl_flags \<Rightarrow> string \<Rightarrow> string \<Rightarrow> string \<Rightarrow> 'n \<Rightarrow> (string result \<times> 'n) option" where
  "restCall nw fl meth path body n =
     (if \<not> nw_Parses nw (fl_apiURL fl @ path) then None
      else
        let header = (if fl_token fl \<noteq> [] then [(''Authorization'', ''Bearer '' @ str_Trim dquote (fl_token fl))] else []) @
                     [(''Content-Type'', ''application/json'')]
        in case nw_Do nw \<lparr>hc_method = meth, hc_url = fl_apiURL fl @ path, hc_header = header, hc_body = body\<rparr> n of
             (Inl err, n) \<Rightarrow> Some (Inl err, n)
           | (Inr (status, data), n) \<Rightarrow>
               if status \<ge> 400 then Some (Inl (Errorf (''HTTP '' @ nat_literal status @ '': '' @ data)), n)
               else Some (Inr data, n))"

definition raw_member :: "string \<Rightarrow> string \<Rightarrow> string" where
  "raw_member k v = [dquote] @ k @ [dquote, CHR '':'', dquote] @ v @ [dquote]"

definition uds_handshake :: string where
  "uds_handshake = ''{'' @ raw_member ''version'' ''1.0'' @ '','' @ raw_member ''format'' ''json'' @ ''}''"

definition uds_request :: "string \<Rightarrow> go_map option \<Rightarrow> string" where
  "uds_request action payload =
     ''{'' @ raw_member ''action'' action @ '','' @ [dquote] @ ''payload'' @ [dquote, CHR '':''] @
     json_Marshal (map_json payload) @ ''}''"

text \<open>The conversation of \<open>udsCall\<close> on the open connection.\<close>

definition uds_talk :: "'n network \<Rightarrow> string \<Rightarrow> go_map option \<Rightarrow> 'n \<Rightarrow> string result \<times> 'n" where
  "uds_talk nw action payload n =
     (case nw_Write nw (uds_handshake @ [newline]) n of
        (Inl err, n) \<Rightarrow> (Inl err, n)
      | (Inr _, n) \<Rightarrow>
          (case nw_Read nw 4096 n of
             (Inl err, n) \<Rightarrow> (Inl err, n)
           | (Inr buf, n) \<Rightarrow>
               if length (str_Split newline buf) < 1 then (Inl (Errorf ''no handshake response''), n)
               else
                 (case nw_Write nw (uds_request action payload @ [newline]) n of
                    (Inl err, n) \<Rightarrow> (Inl err, n)
                  | (Inr _, n) \<Rightarrow>
                      (case nw_Read nw 4096 n of
                         (Inl err, n) \<Rightarrow> (Inl err, n)
                       | (Inr buf, n) \<Rightarrow>
                           let respLines = str_Split newline buf
                           in if length respLines < 1 then (Inl (Errorf ''no response''), n)
                              else (Inr (respLines ! 0), n)))))"

definition udsCall :: "'n network \<Rightarrow> ctl_flags \<Rightarrow> string \<Rightarrow> go_map option \<Rightarrow> 'n \<Rightarrow> string result \<times> 'n" where
  "udsCall nw fl action payload n =
     (case nw_Dial nw (fl_udsPath fl) n of
        (Inl err, n) \<Rightarrow> (Inl err, n)
      | (Inr _, n) \<Rightarrow> (case uds_talk nw action payload n of (r, n) \<Rightarrow> (r, nw_Close nw n)))"


section \<open>The commands\<close>

text \<open>
  A command gets its arguments and returns what it prints, or the error that \<open>RunE\<close> returns.
  An index beyond the arguments panics.
\<close>

type_synonym 'n RunE = "'n network \<Rightarrow> ctl_flags \<Rightarrow> string list \<Rightarrow> 'n \<Rightarrow> (string result \<times> 'n) option"

definition arg :: "string list \<Rightarrow> nat \<Rightarrow> (string \<Rightarrow> 'a option) \<Rightarrow> 'a option" where
  "arg args i k = (if i < length args then k (args ! i) else None)"

definition Println :: "string result \<times> 'n \<Rightarrow> string result \<times> 'n" where
  "Println r = (case r of (Inl err, n) \<Rightarrow> (Inl err, n) | (Inr resp, n) \<Rightarrow> (Inr (resp @ [newline]), n))"

definition Println_text :: "string \<Rightarrow> string result \<times> 'n \<Rightarrow> string result \<times> 'n" where
  "Println_text msg r = (case r of (Inl err, n) \<Rightarrow> (Inl err, n) | (Inr _, n) \<Rightarrow> (Inr (msg @ [newline]), n))"

subsection \<open>auth.go and user.go\<close>

definition auth_login :: "'n RunE" where
  "auth_login nw fl args n =
     arg args 0 (\<lambda>username. arg args 1 (\<lambda>password.
       if fl_useUDS fl then
         Some (Println (udsCall nw fl ''auth'' (Some [(''username'', JString username), (''password'', JString password)]) n))
       else
         let body = ''{'' @ raw_member ''username'' username @ '','' @ raw_member ''password'' password @ ''}''
         in map_option Println (restCall nw fl ''POST'' ''/api/v1/auth/login'' body n)))"

definition user_create :: "'n RunE" where
  "user_create nw fl args n =
     arg args 0 (\<lambda>username. arg args 1 (\<lambda>password. arg args 2 (\<lambda>email.
       let body = ''{'' @ raw_member ''username'' username @ '','' @ raw_member ''password'' password @ '','' @
                  raw_member ''email'' email @ ''}''
       in map_option Println (restCall nw fl ''POST'' ''/api/v1/users'' body n))))"

definition user_get :: "'n RunE" where
  "user_get nw fl args n =
     arg args 0 (\<lambda>user.
       if fl_useUDS fl then Some (Println (udsCall nw fl ''get_user'' (Some [(''username'', JString user)]) n))
       else map_option Println (restCall nw fl ''GET'' (''/api/v1/users/'' @ user) [] n))"

definition user_list :: "'n RunE" where
  "user_list nw fl args n =
     map_option Println (restCall nw fl ''GET''
       (''/api/v1/users?page='' @ int_literal (fl_page fl) @ ''&page_size='' @ int_literal (fl_pageSize fl)) [] n)"

definition user_update :: "'n RunE" where
  "user_update nw fl args n =
     arg args 0 (\<lambda>user. arg args 1 (\<lambda>body.
       map_option Println (restCall nw fl ''PUT'' (''/api/v1/users/'' @ user) body n)))"

definition user_delete :: "'n RunE" where
  "user_delete nw fl args n =
     arg args 0 (\<lambda>user. map_option (Println_text ''User deleted'')
       (restCall nw fl ''DELETE'' (''/api/v1/users/'' @ user) [] n))"

definition user_online_count :: "'n RunE" where
  "user_online_count nw fl args n = map_option Println (restCall nw fl ''GET'' ''/api/v1/users/online/count'' [] n)"

subsection \<open>org.go\<close>

definition org_create :: "'n RunE" where
  "org_create nw fl args n =
     arg args 0 (\<lambda>name.
       let body = ''{'' @ raw_member ''name'' name;
           body = (if length args > 1 then body @ '','' @ raw_member ''parent_id'' (args ! 1) else body);
           body = body @ ''}''
       in if fl_useUDS fl then Some (Println (udsCall nw fl ''create_org'' (map_Unmarshal (nw_float nw) body) n))
          else map_option Println (restCall nw fl ''POST'' ''/api/v1/directory/organizations'' body n))"

definition org_get :: "'n RunE" where
  "org_get nw fl args n =
     arg args 0 (\<lambda>org.
       if fl_useUDS fl then Some (Println (udsCall nw fl ''get_org'' (Some [(''org_id'', JString org)]) n))
       else map_option Println (restCall nw fl ''GET'' (''/api/v1/directory/organizations/'' @ org) [] n))"

definition org_list :: "'n RunE" where
  "org_list nw fl args n =
     (let path = ''/api/v1/directory/organizations'' @ (if length args > 0 then ''?parent_id='' @ args ! 0 else [])
      in if fl_useUDS fl then
           (let payload = (if length args > 0 then [(''parent_id'', JString (args ! 0))] else [])
            in Some (Println (udsCall nw fl ''list_orgs'' (Some payload) n)))
         else map_option Println (restCall nw fl ''GET'' path [] n))"

definition org_members :: "'n RunE" where
  "org_members nw fl args n =
     arg args 0 (\<lambda>org.
       if fl_useUDS fl then Some (Println (udsCall nw fl ''list_org_members'' (Some [(''org_id'', JString org)]) n))
       else map_option Println (restCall nw fl ''GET'' (''/api/v1/directory/organizations/'' @ org @ ''/members'') [] n))"

text \<open>Over the socket, an entry is added to the map that \<open>Unmarshal\<close> left; in a nil map that panics.\<close>

definition org_add_member :: "'n RunE" where
  "org_add_member nw fl args n =
     (let role = (if length args > 2 then args ! 2 else ''member'')
      in arg args 1 (\<lambda>user. arg args 0 (\<lambda>org.
           let body = ''{'' @ raw_member ''user_id'' user @ '','' @ raw_member ''role'' role @ ''}''
           in if fl_useUDS fl then
                (case map_Unmarshal (nw_float nw) body of
                   None \<Rightarrow> None
                 | Some payload \<Rightarrow>
                     Some (Println (udsCall nw fl ''add_org_member'' (Some (AList.update ''org_id'' (JString org) payload)) n)))
              else map_option Println
                (restCall nw fl ''POST'' (''/api/v1/directory/organizations/'' @ org @ ''/members'') body n))))"

definition org_remove_member :: "'n RunE" where
  "org_remove_member nw fl args n =
     arg args 0 (\<lambda>org. arg args 1 (\<lambda>user.
       if fl_useUDS fl then
         Some (Println (udsCall nw fl ''remove_org_member'' (Some [(''org_id'', JString org), (''user_id'', JString user)]) n))
       else map_option (Println_text ''Member removed'')
         (restCall nw fl ''DELETE'' (''/api/v1/directory/organizations/'' @ org @ ''/members/'' @ user) [] n)))"

definition org_delete :: "'n RunE" where
  "org_delete nw fl args n =
     arg args 0 (\<lambda>org. map_option (Println_text ''Organization deleted'')
       (restCall nw fl ''DELETE'' (''/api/v1/directory/organizations/'' @ org) [] n))"

subsection \<open>group.go\<close>

definition group_create :: "'n RunE" where
  "group_create nw fl args n =
     arg args 0 (\<lambda>name. arg args 1 (\<lambda>type.
       let body = ''{'' @ raw_member ''name'' name @ '','' @ raw_member ''type'' type @ ''}''
       in if fl_useUDS fl then Some (Println (udsCall nw fl ''create_group'' (map_Unmarshal (nw_float nw) body) n))
          else map_option Println (restCall nw fl ''POST'' ''/api/v1/directory/groups'' body n)))"

definition group_get :: "'n RunE" where
  "group_get nw fl args n =
     arg args 0 (\<lambda>gid.
       if fl_useUDS fl then Some (Println (udsCall nw fl ''get_group'' (Some [(''group_id'', JString gid)]) n))
       else map_option Println (restCall nw fl ''GET'' (''/api/v1/directory/groups/'' @ gid) [] n))"

definition group_list :: "'n RunE" where
  "group_list nw fl args n =
     (if fl_useUDS fl then Some (Println (udsCall nw fl ''list_groups'' (Some []) n))
      else map_option Println (restCall nw fl ''GET'' ''/api/v1/directory/groups'' [] n))"

definition group_members :: "'n RunE" where
  "group_members nw fl args n =
     arg args 0 (\<lambda>gid.
       if fl_useUDS fl then Some (Println (udsCall nw fl ''list_group_members'' (Some [(''group_id'', JString gid)]) n))
       else map_option Println (restCall nw fl ''GET'' (''/api/v1/directory/groups/'' @ gid @ ''/members'') [] n))"

definition group_add_member :: "'n RunE" where
  "group_add_member nw fl args n =
     arg args 1 (\<lambda>user. arg args 0 (\<lambda>gid.
       let body = ''{'' @ raw_member ''user_id'' user @ ''}''
       in if fl_useUDS fl then
            Some (Println (udsCall nw fl ''add_group_member'' (Some [(''group_id'', JString gid), (''user_id'', JString user)]) n))
          else map_option Println (restCall nw fl ''POST'' (''/api/v1/directory/groups/'' @ gid @ ''/members'') body n)))"

definition group_remove_member :: "'n RunE" where
  "group_remove_member nw fl args n =
     arg args 0 (\<lambda>gid. arg args 1 (\<lambda>user.
       if fl_useUDS fl then
         Some (Println (udsCall nw fl ''remove_group_member'' (Some [(''group_id'', JString gid), (''user_id'', JString user)]) n))
       else map_option (Println_text ''Member removed'')
         (restCall nw fl ''DELETE'' (''/api/v1/directory/groups/'' @ gid @ ''/members/'' @ user) [] n)))"

definition group_delete :: "'n RunE" where
  "group_delete nw fl args n =
     arg args 0 (\<lambda>gid. map_option (Println_text ''Group deleted'')
       (restCall nw fl ''DELETE'' (''/api/v1/directory/groups/'' @ gid) [] n))"

text \<open>The command table: the words of a command, the check of its number of arguments, and \<open>RunE\<close>.\<close>

type_synonym 'n command = "string \<times> (nat \<Rightarrow> bool) \<times> 'n RunE"

definition ExactArgs :: "nat \<Rightarrow> nat \<Rightarrow> bool" where
  "ExactArgs k n \<longleftrightarrow> n = k"

definition RangeArgs :: "nat \<Rightarrow> nat \<Rightarrow> nat \<Rightarrow> bool" where
  "RangeArgs lo hi n \<longleftrightarrow> lo \<le> n \<and> n \<le> hi"

definition authCmd :: "'n command list" where
  "authCmd = [(''login'', ExactArgs 2, auth_login)]"

definition userCmd :: "'n command list" where
  "userCmd =
     [(''create'', ExactArgs 3, user_create), (''get'', ExactArgs 1, user_get), (''list'', \<lambda>_. True, user_list),
      (''update'', ExactArgs 2, user_update), (''delete'', ExactArgs 1, user_delete),
      (''online-count'', ExactArgs 0, user_online_count)]"

definition orgCmd :: "'n command list" where
  "orgCmd =
     [(''create'', RangeArgs 1 2, org_create), (''get'', ExactArgs 1, org_get), (''list'', RangeArgs 0 1, org_list),
      (''members'', ExactArgs 1, org_members), (''add-member'', RangeArgs 2 3, org_add_member),
      (''remove-member'', ExactArgs 2, org_remove_member), (''delete'', ExactArgs 1, org_delete)]"

definition groupCmd :: "'n command list" where
  "groupCmd =
     [(''create'', ExactArgs 2, group_create), (''get'', ExactArgs 1, group_get), (''list'', \<lambda>_. True, group_list),
      (''members'', ExactArgs 1, group_members), (''add-member'', ExactArgs 2, group_add_member),
      (''remove-member'', ExactArgs 2, group_remove_member), (''delete'', ExactArgs 1, group_delete)]"

definition rootCmd :: "(string \<times> 'n command list) list" where
  "rootCmd = [(''auth'', authCmd), (''user'', userCmd), (''org'', orgCmd), (''group'', groupCmd)]"

lemmas auth_user_defs = auth_login_def user_create_def user_get_def user_list_def user_update_def user_delete_def
  user_online_count_def

lemmas org_command_defs = org_create_def org_get_def org_list_def org_members_def org_add_member_def
  org_remove_member_def org_delete_def

lemmas group_command_defs = group_create_def group_get_def group_list_def group_members_def group_add_member_def
  group_remove_member_def group_delete_def

end
