(* ===== verification/Idpctl_Properties.thy ===== *)
theory Idpctl_Properties
  imports Idpctl
begin

text \<open>
  The client of \<open>Idpctl\<close> against the models of the servers: commands over the Unix socket
  are carried out and answered, commands over REST reach the routes or miss them, and when a
  command panics.
\<close>

section \<open>The Unix socket\<close>

text \<open>
  A connection between the client and \<open>handleConn\<close>: what the client has written, how much
  of the server's output it has read, and the stores before the connection was opened. The server
  has written what it writes for what has arrived; when the client reads again
  and there is nothing, its read deadline passes.
\<close>

record ('u, 'j, 'o, 'g) socket =
  so_sent :: "string list"
  so_taken :: nat
  so_world :: "('u, 'j, 'o, 'g) world"

definition timeout :: error where
  "timeout = Errorf ''i/o timeout''"

definition server_output ::
  "('u, 'j, 'o, 'g) services \<Rightarrow> env list \<Rightarrow> string list \<Rightarrow> error \<Rightarrow> ('u, 'j, 'o, 'g) world \<Rightarrow> string \<times> ('u, 'j, 'o, 'g) world" where
  "server_output sv envs sent e w = (case handleConn buffer_Write sv envs (sent, e) [] w of (_, _, out, w) \<Rightarrow> (out, w))"

definition server_network :: "('u, 'j, 'o, 'g) services \<Rightarrow> env list \<Rightarrow> ('u, 'j, 'o, 'g) socket network" where
  "server_network sv envs =
     \<lparr>nw_Parses = (\<lambda>_. True), nw_Do = (\<lambda>_ so. (Inl timeout, so)),
      nw_Dial = (\<lambda>_ so. (Inr (), so\<lparr>so_sent := [], so_taken := 0\<rparr>)),
      nw_Write = (\<lambda>s so. (Inr (), so\<lparr>so_sent := so_sent so @ [s]\<rparr>)),
      nw_Read = (\<lambda>k so.
        let unread = drop (so_taken so) (fst (server_output sv envs (so_sent so) timeout (so_world so)))
        in if unread = [] then (Inl timeout, so)
           else (Inr (take k unread), so\<lparr>so_taken := so_taken so + length (take k unread)\<rparr>)),
      nw_Close = (\<lambda>so. so\<lparr>so_sent := [], so_taken := 0,
        so_world := snd (server_output sv envs (so_sent so) EOF (so_world so))\<rparr>),
      nw_float = Some\<rparr>"

abbreviation unconnected :: "('u, 'j, 'o, 'g) world \<Rightarrow> ('u, 'j, 'o, 'g) socket" where
  "unconnected w \<equiv> \<lparr>so_sent = [], so_taken = 0, so_world = w\<rparr>"

text \<open>Responses are one line.\<close>

fun numbers_ok :: "json \<Rightarrow> bool" where
  "numbers_ok (JNumber n) = plain n"
| "numbers_ok (JArray vs) = list_all numbers_ok vs"
| "numbers_ok (JObject ms) = list_all (\<lambda>m. numbers_ok (snd m)) ms"
| "numbers_ok _ = True"

lemma plain_numbers:
  shows "numbers_ok v \<Longrightarrow> plain (json_Marshal v)"
    and "list_all numbers_ok vs \<Longrightarrow> plain (marshal_elements vs)"
    and "list_all (\<lambda>m. numbers_ok (snd m)) ms \<Longrightarrow> plain (marshal_members ms)"
  by (induction v and vs and ms rule: json_Marshal_marshal_elements_marshal_members.induct)
    (auto simp: quote_string_def plain_escape)

lemma plain_int_literal [simp]: "plain (int_literal i)"
  using plain_number [OF parse_int_literal] .

lemma numbers_ok_payload: "numbers_ok (response_payload_json p)"
  by (cases p) (auto simp: page_json_def OrgInfo_json_def OrgDetailInfo_json_def OrgMemberInfo_json_def
      GroupDetailInfo_json_def GroupMemberInfo_json_def list_all_iff omitempty_def)

lemma response_one_line: "newline \<notin> set (response_text resp)"
proof -
  have "numbers_ok (JSONResponse_json resp)"
    by (auto simp: JSONResponse_json_def omitempty_def numbers_ok_payload split: option.split)
  then have "plain (response_text resp)" by (simp add: response_text_def plain_numbers)
  then show ?thesis unfolding plain_def newline_def by force
qed

lemma str_Split_line:
  assumes "sep \<notin> set s"
  shows "str_Split sep s = [s]" and "str_Split sep (s @ sep # t) = s # str_Split sep t"
  using assms by (induction s) auto

lemma str_Split_nonempty: "str_Split sep s \<noteq> []"
  by (induction s) (auto split: list.split)

lemma first_line_of_cut:
  assumes "sep \<notin> set s"
  shows "str_Split sep (take k (s @ [sep])) ! 0 = take k s"
proof (cases "k \<le> length s")
  case True
  have "sep \<notin> set (take k s)" using assms by (auto dest: in_set_takeD)
  with True show ?thesis by (simp add: str_Split_line(1))
next
  case False
  then have "take k (s @ [sep]) = s @ [sep]" by simp
  with False str_Split_line(2) [OF assms, of "[]"] show ?thesis by simp
qed

text \<open>The texts of the client as values.\<close>

lemma escape_names:
  "escape ''action'' = ''action''" "escape ''payload'' = ''payload''"
  by (simp_all add: escape.simps escape_byte_def)

lemma uds_request_text:
  "escape action = action \<Longrightarrow>
   uds_request action m = json_Marshal (JObject [(''action'', JString action), (''payload'', map_json m)])"
  by (simp add: uds_request_def raw_member_def dquote_def quote_string_def escape_names)

lemma uds_handshake_text: "uds_handshake = json_Marshal (HandshakeRequest_json sample_handshake)"
  unfolding sample_handshake_text by (simp add: uds_handshake_def raw_member_def dquote_def)

lemma decode_short_request:
  assumes "json_ok maxNestingDepth (JObject [(''action'', JString action), (''payload'', v)])"
  shows "decode_request (json_Marshal (JObject [(''action'', JString action), (''payload'', v)])) =
    Inr \<lparr>jq_Action = action, jq_Payload = Some v, jq_RequestID = []\<rparr>"
  unfolding decode_request_def Unmarshal_Marshal [OF assms]
  by (simp add: JSONRequest_fields_def find_field_def field_defs zero_JSONRequest_def)

text \<open>What the server writes for the handshake alone, and for the handshake with one request.\<close>

abbreviation handshake_answer :: string where
  "handshake_answer \<equiv> json_Marshal (HandshakeResponse_json
     \<lparr>hr_Status = ''ok'', hr_Version = ''1.0'', hr_Format = ''json'', hr_ErrorMessage = []\<rparr>) @ [newline]"

lemma handshake_performed:
  "performHandshake buffer_Write ((uds_handshake @ [newline]) # cs, e) w =
     (Inr (FormatJSON, JSONCodec), (cs, e), w @ handshake_answer)"
proof -
  have "length uds_handshake < 65536"
    by (simp add: uds_handshake_def raw_member_def dquote_def)
  then show ?thesis
    using json_handshake_accepted [OF sample_handshake_ok _ _ uds_handshake_text, of "[uds_handshake @ [newline]]" cs e w]
    by (simp add: sample_handshake_def FormatJSON_def)
qed

lemma request_scanned:
  assumes "newline \<notin> set line" and "length line < MaxJSONMessageSize"
  shows "JSONCodec_ReadRequest ([line @ [newline]], e) = (decode_request (dropCR line), ([], e))"
proof -
  have "request_scan ([line @ [newline]], e) = (Inr (dropCR line), ([], e))"
    unfolding request_scan_def
    using scan_loop_line [of "[]" "[line @ [newline]]" line MaxJSONMessageSize MaxJSONMessageSize "[]" e] assms by simp
  with assms(2) dropCR_length [of line] show ?thesis by (simp add: JSONCodec_ReadRequest_def)
qed

lemma nothing_scanned: "JSONCodec_ReadRequest ([], e) = (Inl e, ([], e))"
  by (simp add: JSONCodec_ReadRequest_def request_scan_def scan_loop.simps MaxJSONMessageSize_def)

lemma output_handshake: "server_output sv (env # envs) [uds_handshake @ [newline]] e w = (handshake_answer, w)"
  using handshake_performed [of "[]" e "[]"]
  by (simp add: server_output_def handleConn_def nothing_scanned)

lemma output_request:
  assumes "escape action = action" and "json_ok maxNestingDepth (JObject [(''action'', JString action), (''payload'', map_json m)])"
    and "length (uds_request action m) < MaxJSONMessageSize"
    and "Handle sv env \<lparr>jq_Action = action, jq_Payload = Some (map_json m), jq_RequestID = []\<rparr> w = Some (resp, w')"
  shows "server_output sv (env # envs) [uds_handshake @ [newline], uds_request action m @ [newline]] e w =
    (handshake_answer @ response_text resp @ [newline], w')"
proof -
  have one: "newline \<notin> set (uds_request action m)" "dropCR (uds_request action m) = uds_request action m"
    unfolding uds_request_text [OF assms(1)] using Marshal_one_line [OF assms(2)] by simp_all
  have "JSONCodec_ReadRequest ([uds_request action m @ [newline]], e) =
      (Inr \<lparr>jq_Action = action, jq_Payload = Some (map_json m), jq_RequestID = []\<rparr>, ([], e))"
    using request_scanned [OF one(1) assms(3), of e] one(2) decode_short_request [OF assms(2)]
    by (simp only: uds_request_text [OF assms(1)])
  moreover have "serve JSONCodec buffer_Write sv envs ([], e) x w' =
      (if envs = [] then Stopped else ReadFailed e, ([], e), x, w')" for x
    by (cases envs) (simp_all add: nothing_scanned)
  ultimately show ?thesis
    using handshake_performed [of "[uds_request action m @ [newline]]" e "[]"] assms(4)
    by (simp add: server_output_def handleConn_def JSONCodec_WriteResponse_def buffer_Write_def response_text_def)
qed

lemma handshake_answer_fits: "length handshake_answer \<le> 4096"
  by (simp add: HandshakeResponse_json_def omitempty_def quote_string_def escape.simps escape_byte_def)

text \<open>
  C22: a call over the Unix socket is carried out once and answered. The server understands the
  handshake and the request that \<open>udsCall\<close> writes, runs the action with the payload as it was
  given, and the client returns the response, as far as it fits into the 4096 bytes of its
  buffer; the stores are those that the action leaves.
\<close>

theorem udsCall_answered:
  assumes "escape action = action" and "json_ok maxNestingDepth (JObject [(''action'', JString action), (''payload'', map_json m)])"
    and "length (uds_request action m) < MaxJSONMessageSize"
    and "Handle sv env \<lparr>jq_Action = action, jq_Payload = Some (map_json m), jq_RequestID = []\<rparr> w = Some (resp, w')"
  shows "udsCall (server_network sv (env # envs)) fl action m (unconnected w) =
    (Inr (take 4096 (response_text resp)), unconnected w')"
proof -
  have fits: "take 4096 handshake_answer = handshake_answer" using handshake_answer_fits by simp
  have "handshake_answer \<noteq> []" by simp
  then show ?thesis
    using output_handshake [of sv env envs timeout w] output_request [OF assms, of envs] fits
      first_line_of_cut [OF response_one_line, of 4096 resp] str_Split_nonempty
    by (simp add: udsCall_def uds_talk_def server_network_def Let_def Suc_le_eq)
qed


definition sample_flags :: "bool \<Rightarrow> ctl_flags" where
  "sample_flags uds = \<lparr>fl_apiURL = ''http://localhost:8080'', fl_udsPath = ''/tmp/idp-uds.sock'', fl_token = [],
     fl_useUDS = uds, fl_page = 1, fl_pageSize = 10\<rparr>"

theorem udsCall_answered_witness:
  "udsCall (server_network (memory_services_of ascii_ToLower sample_auth) [sample_env]) (sample_flags True) ''ping''
     (Some []) (unconnected empty_world) =
   (Inr (take 4096 (response_text \<lparr>jp_Status = ''pong'', jp_Payload = None, jp_RequestID = [], jp_Error = []\<rparr>)), unconnected empty_world)"
proof (rule udsCall_answered)
  show e: "escape ''ping'' = ''ping''" by (simp add: escape.simps escape_byte_def)
  show "json_ok maxNestingDepth (JObject [(''action'', JString ''ping''), (''payload'', map_json (Some []))])"
    by (simp add: map_json_def maxNestingDepth_def valid_utf8.simps)
  show "length (uds_request ''ping'' (Some [])) < MaxJSONMessageSize"
    by (simp add: uds_request_def raw_member_def dquote_def map_json_def MaxJSONMessageSize_def)
  show "Handle (memory_services_of ascii_ToLower sample_auth) sample_env
      \<lparr>jq_Action = ''ping'', jq_Payload = Some (map_json (Some [])), jq_RequestID = []\<rparr> empty_world =
    Some (\<lparr>jp_Status = ''pong'', jp_Payload = None, jp_RequestID = [], jp_Error = []\<rparr>, empty_world)"
    by (simp add: Handle_def NewHandlerRegistry_def register_def handlePing_def)
qed





















section \<open>Panics\<close>






section \<open>REST\<close>











end
