(* ===== verification/Spec2Isabelle.thy ===== *)
theory Spec2Isabelle
  imports Traceback Lifecycle Pg_Store User_Store_Races Idpctl_Properties
begin

text \<open>
  A verification development of the identity service \<open>auth-imp\<close>: a directory of users,
  organizations and groups with password login and signed tokens, served over REST, over a
  Unix socket and over UDP.

  \<^bold>\<open>The program and its parts.\<close> \<open>cmd/main.go\<close> creates four in-memory stores, one account, two
  services over them and three servers over the services. A request goes from a server to a
  method of a service, which calls methods of the stores; the stores hold all the state. The
  program reaches the stores through the interfaces \<open>user.Store\<close>, \<open>user.SyncJobStore\<close>,
  \<open>directory.OrgStore\<close> and \<open>directory.GroupStore\<close>.

  \<^bold>\<open>How the theories follow it.\<close>
  \<^item> \<open>Prelude\<close> -- errors as values of one datatype, results as sums, 64-bit wrap-around, Go
    slicing (out of range is a panic, \<open>None\<close>), pages, ranging over a map in an arbitrary order,
    strings, \<open>strconv\<close>.
  \<^item> \<open>Model\<close> -- the structs of \<open>internal/model/models.go\<close> as records.
  \<^item> \<open>User_Store\<close> -- \<open>internal/user/store.go\<close> as a record of operations with the locale
    \<open>user_store_contract\<close>, and \<open>internal/user/memory_store.go\<close>, which interprets it. The
    specification is one table of users with unique names and e-mail addresses.
  \<^item> \<open>User_Store_Races\<close> -- the writes of \<open>memory_store.go\<close> cut at their map operations, run by
    any number of goroutines at once; alone, a call is the method of \<open>User_Store\<close>.
  \<^item> \<open>Pg_Store\<close> -- \<open>internal/user/pg_store.go\<close>: the statements it sends, over a database that is a
    parameter with the documented effect of each, compared with the in-memory store.
  \<^item> \<open>Auth\<close> -- \<open>internal/auth/service.go\<close>. The token library is a parameter with its
    documented laws (\<open>jwt_dates\<close>, \<open>jwt_round_trip\<close>, \<open>jwt_checks\<close>, \<open>jwt_faithful\<close>).
  \<^item> \<open>User_Service\<close> -- \<open>internal/service/user.go\<close>; its lemmas are proved inside the contract
    of the store and used through the interpretation on the in-memory store.
  \<^item> \<open>Membership\<close>, \<open>Org_Store\<close>, \<open>Group_Store\<close> -- \<open>internal/directory\<close>: the two indexes of a
    membership and the in-memory stores, with the locales \<open>org_store_contract\<close> and
    \<open>group_store_contract\<close>.
  \<^item> \<open>Directory_Service\<close>, \<open>Directory_History\<close> -- \<open>internal/service/directory.go\<close>, and its
    histories: which states any sequence of calls can reach.
  \<^item> \<open>Services\<close> -- the stores put together: the record \<open>world\<close> holds the state of all four,
    \<open>env\<close> what a request takes from its surroundings (clock, new identifier, map order).
  \<^item> \<open>Json\<close> -- what \<open>encoding/json\<close> does with the messages: scanner, decoder into structs,
    encoder, and that decoding inverts encoding.
  \<^item> \<open>Uds_Codec\<close>, \<open>Uds_Wire\<close> -- \<open>internal/uds/codec.go\<close>: message structs, both codecs, the
    framing with a 32-bit length, the line scanner; round trips over a stream that arrives in
    arbitrary pieces.
  \<^item> \<open>Uds_Handler\<close> -- \<open>internal/uds/handler.go\<close>: the eighteen actions and their registry.
  \<^item> \<open>Uds_Server\<close> -- \<open>internal/uds/server.go\<close>: handshake and connection loop as functions on
    streams.
  \<^item> \<open>Uds_Connections\<close> -- the same file: the accept loop, the connections and the idle check as
    goroutines of a step relation on the bookkeeping they share.
  \<^item> \<open>Udp_Server\<close> -- \<open>internal/udp/server.go\<close>: parsing and answering a datagram.
  \<^item> \<open>Api\<close>, \<open>Rest_Properties\<close> -- \<open>internal/api\<close>: every REST handler, the token middleware, the
    route table. \<open>gin\<close> is a parameter (body binding, route search, recovery from a panic).
  \<^item> \<open>System\<close> -- \<open>cmd/main.go\<close>: start-up, and the process as a transition system in which
    requests of all three servers interleave.
  \<^item> \<open>Lifecycle\<close> -- starting and stopping: the socket file, the ports, the goroutines that
    \<open>Stop\<close> waits for, and the order in which \<open>main\<close> calls them.
  \<^item> \<open>Traceback\<close> -- for every step of the process, which accounts and which sign-ons it can add.
  \<^item> \<open>Idpctl\<close>, \<open>Idpctl_Properties\<close> -- \<open>cmd/idpctl\<close>: every command with what it sends and prints,
    run against the servers of this development.
  \<^item> This theory -- the properties of the whole server.

  \<^bold>\<open>What is shown.\<close> The user store refines the table, keeps names and e-mail addresses unique
  and fails without effect; lookups, pages and searches are exact. Login is granted exactly
  for the password of an active user, its token is accepted until it expires and no other
  kind of token is. The two views of memberships agree, deleting cascades, and without
  moving updates the organizations form a forest. Frames and requests survive the wire,
  connections are served in order, the handshakes are decided, panics are located exactly.
  REST gives nothing away without a token, and a status of 500 has few causes. Over every run
  of the process the stores stay consistent, accounts keep their identity, deleted
  accounts stay locked out, and every account and every user online is traced back to the
  request that caused it. Under races names stay unique and every call returns, while an
  update can undo a deletion. The PostgreSQL store behaves as the
  in-memory store except that it never reads the online mark. The calls
  of the client are understood by the server. \<open>Stop\<close> returns, and the service can be
  started again after a shutdown and after a crash. Several theorems state defects of the code as they are.

  \<^bold>\<open>Bounds and fuel.\<close> The JSON parser takes fuel equal to twice the length of the text plus a
  constant, which \<open>json_Parse_Marshal\<close> shows to be enough for every encoded value within the
  nesting limit of the library; the line scanner terminates by a measure. Integers of the
  program are \<open>int\<close> with \<open>wrap64\<close> where they could overflow, frame lengths are \<open>32 word\<close>.
  Listings assume fewer than \<open>2 ^ 62\<close> entries.

  \<^bold>\<open>Granularity.\<close> A method of a store is one step except in \<open>User_Store_Races\<close>, and in \<open>System\<close> a
  request is one step.

  \<^bold>\<open>Not modelled.\<close> \<open>internal/pb\<close>, which \<open>protoc\<close> generates; logging; the buffer pool of the UDP
  server, which changes no result; the passing of time in deadlines, which show as reads
  that fail. The libraries \<open>gin\<close>, \<open>golang-jwt\<close>, \<open>lib/pq\<close> and \<open>cobra\<close> are parameters where the
  code calls them: the HTTP listener is \<open>gin\<close>'s, and the parsing of the command line is
  \<open>cobra\<close>'s.
\<close>

section \<open>Start-up\<close>

text \<open>The account that \<open>bootstrapAdmin\<close> stores.\<close>

definition admin_account :: "string \<Rightarrow> time \<Rightarrow> User" where
  "admin_account uuid now = stamp_new_user now
     (zero_User\<lparr>u_ID := uuid, u_Username := bootstrapAdminUser, u_Email := bootstrapAdminEmail,
        u_PasswordHash := bootstrapAdminPassword, u_DisplayName := ''System Administrator'',
        u_Status := UserStatusActive\<rparr>)"

lemma admin_account_simps [simp]:
  "u_ID (admin_account uuid now) = uuid" "u_Username (admin_account uuid now) = ''admin''"
  "u_PasswordHash (admin_account uuid now) = ''Admin@123456''" "u_Status (admin_account uuid now) = UserStatusActive"
  by (simp_all add: admin_account_def bootstrapAdminUser_def bootstrapAdminPassword_def)

lemma main_start_eq:
  "main_start lower uuid now =
     Inr (empty_world\<lparr>w_users := \<lparr>ms_users = [uuid \<mapsto> admin_account uuid now],
        ms_byUsername = [''admin'' \<mapsto> uuid], ms_byEmail = [''admin@example.com'' \<mapsto> uuid]\<rparr>\<rparr>)"
  by (simp add: main_start_def bootstrapAdmin_def HashPassword_def bootstrapAdminPassword_def admin_account_def
      bootstrapAdminUser_def bootstrapAdminEmail_def MemoryStore_Create_eq empty_world_def NewMemoryStore_def)

lemma main_start_users:
  assumes "main_start lower uuid now = Inr w"
  shows "ms_users (w_users w) = [uuid \<mapsto> admin_account uuid now]" and "w_orgs w = NewMemoryOrgStore"
    and "w_groups w = NewMemoryGroupStore"
  using assms by (auto simp: main_start_eq empty_world_def)

lemma main_start_inv:
  assumes "main_start lower uuid now = Inr w"
  shows "world_inv w" and "members_known w"
proof -
  let ?u = "zero_User\<lparr>u_ID := uuid, u_Username := bootstrapAdminUser, u_Email := bootstrapAdminEmail,
        u_PasswordHash := bootstrapAdminPassword, u_DisplayName := ''System Administrator'',
        u_Status := UserStatusActive\<rparr>"
  have "w = empty_world\<lparr>w_users := snd (MemoryStore_Create now ?u NewMemoryStore)\<rparr>"
    using assms by (auto simp: main_start_eq MemoryStore_Create_eq NewMemoryStore_def admin_account_def
        bootstrapAdminUser_def bootstrapAdminEmail_def)
  moreover have "store_inv (snd (MemoryStore_Create now ?u NewMemoryStore))"
    using mem.create [OF store_inv_NewMemoryStore, of ?u ascii_ToLower now] by (simp add: NewMemoryStore_def)
  ultimately show "world_inv w" using world_inv_empty by (simp add: world_inv_def)
  show "members_known w"
    using main_start_users [OF assms]
    by (simp add: members_known_def memberships_def NewMemoryOrgStore_def NewMemoryGroupStore_def)
qed


section \<open>Properties of the whole server\<close>

text \<open>
  C33: the account that start-up creates works, and it is the only one. Whatever identifier
  and time it gets, start-up succeeds, the credentials check accepts \<open>admin\<close> with the
  built-in password and refuses every other pair of a name and a password, and the UDP
  server answers a datagram with this name and password with \<open>OK\<close>.
\<close>

theorem bootstrap_admin_signs_in:
  "\<exists>w. main_start lower uuid now = Inr w \<and>
     (\<forall>n p. VerifyCredentials (MemoryStore_Store lower) main_auth n p (w_users w) =
        (if n = ''admin'' \<and> p = ''Admin@123456'' then Inr (admin_account uuid now) else Inl ErrInvalidCredentials)) \<and>
     fst (handlePacket (MemoryStore_Store lower) main_auth later
       (auth_message ''curl'' ''admin'' ''Admin@123456'') (w_users w)) = ''OK''"
proof -
  let ?s = "\<lparr>ms_users = [uuid \<mapsto> admin_account uuid now],
        ms_byUsername = [''admin'' \<mapsto> uuid], ms_byEmail = [''admin@example.com'' \<mapsto> uuid]\<rparr>"
  have v: "VerifyCredentials (MemoryStore_Store lower) main_auth n p ?s =
      (if n = ''admin'' \<and> p = ''Admin@123456'' then Inr (admin_account uuid now) else Inl ErrInvalidCredentials)" for n p
    by (auto simp: VerifyCredentials_def MemoryStore_GetByUsername_def MemoryStore_GetByID_def VerifyPassword_def
        split: option.split)
  have "parseAuthRequest (take 2048 (auth_message ''curl'' ''admin'' ''Admin@123456'')) = Inr (''admin'', ''Admin@123456'')"
    by code_simp
  with v [of "''admin''" "''Admin@123456''"]
  have "fst (handlePacket (MemoryStore_Store lower) main_auth later (auth_message ''curl'' ''admin'' ''Admin@123456'') ?s) = ''OK''"
    by (simp add: handlePacket_def processPacket_def split: prod.split)
  with v show ?thesis by (simp add: main_start_eq)
qed


text \<open>A process for the witnesses, and what it does with a datagram that carries no credentials.\<close>

definition sample_surroundings :: surroundings where
  "sample_surroundings = \<lparr>sr_gin = sample_gin, sr_jwt = sample_jwt, sr_lower = ascii_ToLower, sr_pprof = []\<rparr>"

definition admin_world :: memory_world where
  "admin_world = (case main_start ascii_ToLower ''a0'' 7 of Inr w \<Rightarrow> w | Inl _ \<Rightarrow> empty_world)"

lemma admin_world_start: "main_start (sr_lower sample_surroundings) ''a0'' 7 = Inr admin_world"
  by (simp add: admin_world_def main_start_eq sample_surroundings_def)

lemma one_datagram:
  "process_run sr w (Running (w\<lparr>w_users := snd (handlePacket (MemoryStore_Store (sr_lower sr)) main_auth now datagram (w_users w))\<rparr>))"
  by (rule process_run.step [OF process_run.start])
    (rule process_step.udp [where answer = "fst (handlePacket (MemoryStore_Store (sr_lower sr)) main_auth now datagram (w_users w))"], simp)

lemma admin_datagram_run:
  "process_run sample_surroundings admin_world
     (Running (admin_world\<lparr>w_users := snd (SetOnline (MemoryStore_Store ascii_ToLower) 9 ''a0'' True (w_users admin_world))\<rparr>))"
proof -
  let ?d = "auth_message ''curl'' ''admin'' ''Admin@123456''"
  have "parseAuthRequest (take 2048 ?d) = Inr (''admin'', ''Admin@123456'')" by code_simp
  moreover have "VerifyCredentials (MemoryStore_Store ascii_ToLower) main_auth ''admin'' ''Admin@123456'' (w_users admin_world) =
      Inr (admin_account ''a0'' 7)"
    by (simp add: admin_world_def main_start_eq VerifyCredentials_def MemoryStore_GetByUsername_def
        MemoryStore_GetByID_def VerifyPassword_def)
  ultimately have "snd (handlePacket (MemoryStore_Store ascii_ToLower) main_auth 9 ?d (w_users admin_world)) =
      snd (SetOnline (MemoryStore_Store ascii_ToLower) 9 ''a0'' True (w_users admin_world))"
    by (simp add: handlePacket_def processPacket_def split: prod.split)
  with one_datagram [of sample_surroundings admin_world 9 ?d] show ?thesis
    by (simp add: sample_surroundings_def)
qed


text \<open>
  C6: an account keeps its identity. Whatever requests arrive, a stored user keeps the
  identifier, the name, the password and the creation time it was stored with and never
  leaves the table; once deleted, its row does not change any more.
\<close>

theorem account_identity_permanent:
  assumes "world_inv w" and "process_run sr w (Running w')" and "ms_users (w_users w) i = Some u"
  shows "\<exists>v. ms_users (w_users w') i = Some v \<and> u_ID v = i \<and> u_Username v = u_Username u \<and>
           u_PasswordHash v = u_PasswordHash u \<and> u_CreatedAt v = u_CreatedAt u \<and>
           (u_Status u = UserStatusDeleted \<longrightarrow> v = u)"
proof -
  have "evolves (w_users w) (w_users w')" using process_run_history [OF assms(2,1)] by blast
  then obtain v where "ms_users (w_users w') i = Some v" "may_become u v"
    using assms(3) unfolding evolves_def by blast
  moreover have "u_ID u = i"
    using tbl_ok_id [OF mem.tbl_well_formed] assms(1,3) by (auto simp: world_inv_def)
  ultimately show ?thesis by (auto simp: may_become_def)
qed

theorem account_identity_permanent_witness:
  "\<exists>v. ms_users (snd (SetOnline (MemoryStore_Store ascii_ToLower) 9 ''a0'' True (w_users admin_world))) ''a0'' = Some v \<and>
     u_PasswordHash v = ''Admin@123456''"
proof -
  have "ms_users (w_users admin_world) ''a0'' = Some (admin_account ''a0'' 7)"
    by (simp add: admin_world_def main_start_eq)
  from account_identity_permanent [OF main_start_inv(1) [OF admin_world_start] admin_datagram_run this]
  show ?thesis by auto
qed

text \<open>
  C5: a deleted account is locked out for good. After a user was deleted, no sequence of
  requests makes the credentials check accept its name again, with any password, and the name
  and the e-mail address cannot be registered again.
\<close>

theorem deleted_account_locked_out:
  assumes "world_inv w" and "process_run sr w (Running w')"
    and "ms_users (w_users w) i = Some u" and "u_Status u = UserStatusDeleted"
  shows "VerifyCredentials (MemoryStore_Store lower) auth (u_Username u) p (w_users w') = Inl ErrInvalidCredentials \<and>
         (ms_users (w_users w') uuid = None \<and> 8 \<le> length (cu_Password req) \<and>
            (cu_Username req = u_Username u \<or> cu_Email req = u_Email u) \<longrightarrow>
          CreateUser (MemoryStore_Store lower) auth uuid now req (w_users w') = (Inl ErrUserAlreadyExists, w_users w'))"
proof -
  have hist: "world_inv w'" "evolves (w_users w) (w_users w')" using process_run_history [OF assms(2,1)] by blast+
  then have inv: "store_inv (w_users w')" by (simp add: world_inv_def)
  have u: "ms_users (w_users w') i = Some u"
    using hist(2) assms(3,4) unfolding evolves_def may_become_def by blast
  have same: "v = u" if "ms_users (w_users w') j = Some v" "u_Username v = u_Username u" for j v
    using tbl_ok_username [OF mem.tbl_well_formed [OF inv] that(1) u that(2)] that(1) u by simp
  have "VerifyCredentials (MemoryStore_Store lower) auth (u_Username u) p (w_users w') = Inl e \<Longrightarrow>
      e = ErrInvalidCredentials" for e
    using mem.verify_disabled [OF inv, of lower auth "u_Username u" p]
      mem.verify_errors [of lower auth "u_Username u" p "w_users w'" e] assms(4) same by (auto simp: live_def)
  moreover have "VerifyCredentials (MemoryStore_Store lower) auth (u_Username u) p (w_users w') \<noteq> Inr v" for v
  proof
    assume "VerifyCredentials (MemoryStore_Store lower) auth (u_Username u) p (w_users w') = Inr v"
    then obtain j where v: "ms_users (w_users w') j = Some v" "u_Username v = u_Username u" "u_Status v = UserStatusActive"
      using mem.verify_ok [OF inv, of lower auth "u_Username u" p v] by blast
    with active_live [OF v(3)] same [OF v(1,2)] assms(4) show False by (simp add: live_def)
  qed
  moreover have "ms_byUsername (w_users w') (u_Username u) \<noteq> None" "ms_byEmail (w_users w') (u_Email u) \<noteq> None"
    using byUsername_None [OF inv] byEmail_None [OF inv] u by (metis ranI)+
  ultimately show ?thesis
    by (cases "VerifyCredentials (MemoryStore_Store lower) auth (u_Username u) p (w_users w')")
      (auto simp: CreateUser_def HashPassword_def MemoryStore_Create_eq)
qed

theorem deleted_account_locked_out_witness:
  "VerifyCredentials (MemoryStore_Store ascii_ToLower) main_auth ''alice'' ''Alice@8888''
     (snd (handlePacket (MemoryStore_Store ascii_ToLower) main_auth 9 (auth_message ''curl'' ''alice'' ''Alice@8888'')
       (snd (DeleteUser (MemoryStore_Store ascii_ToLower) 3 ''u1'' alice_store)))) = Inl ErrInvalidCredentials"
proof -
  let ?w = "sample_world\<lparr>w_users := snd (DeleteUser (MemoryStore_Store ascii_ToLower) 3 ''u1'' alice_store)\<rparr>"
  let ?u = "(stamp_new_user 0 alice)\<lparr>u_Status := UserStatusDeleted, u_UpdatedAt := 3\<rparr>"
  have "store_inv (snd (DeleteUser (MemoryStore_Store ascii_ToLower) 3 ''u1'' alice_store))"
    using user_methods_inv(3) [OF alice_store_inv] by (metis prod.collapse)
  then have "world_inv ?w" using sample_world_inv by (simp add: world_inv_def)
  moreover have "ms_users (w_users ?w) ''u1'' = Some ?u"
    by (simp add: DeleteUser_def MemoryStore_Delete_def alice_store_eq)
  ultimately show ?thesis
    using deleted_account_locked_out [OF _ one_datagram [of sample_surroundings ?w 9 "auth_message ''curl'' ''alice'' ''Alice@8888''"],
        of "''u1''" ?u ascii_ToLower main_auth "''Alice@8888''"]
    by (simp add: sample_surroundings_def)
qed










end
